(* ===== verification/Prelude.thy ===== *)
theory Prelude
  imports Main "HOL-Library.Multiset"
begin

text \<open>
  Shared vocabulary of the development: the JavaScript array primitives that
  \<^verbatim>\<open>src/Dashboard/script.js\<close> uses to edit its collections
  (\<open>Array.prototype.findIndex\<close>, \<open>Array.prototype.find\<close> and the two shapes of
  \<open>Array.prototype.splice\<close> that the drag-and-drop handler calls), written with
  their ECMAScript semantics: \<open>findIndex\<close> answers \<open>-1\<close> when nothing matches, and
  a negative \<open>splice\<close> start counts from the end of the array.
  The lemmas here are the generic facts on lists that the component theories share:
  where \<open>findIndex\<close> points, what \<open>splice\<close> removes and inserts, and that a
  removal followed by an insertion is a permutation.
\<close>

named_theorems js_array_simps "characteristic equations of the JS array primitives"

type_synonym ident = string

subsection \<open>\<open>findIndex\<close>\<close>

fun js_findIndex :: "('a \<Rightarrow> bool) \<Rightarrow> 'a list \<Rightarrow> int" where
  "js_findIndex P [] = -1"
| "js_findIndex P (x # xs) =
     (if P x then 0 else (let i = js_findIndex P xs in if i < 0 then -1 else i + 1))"

subsection \<open>\<open>splice\<close>\<close>

text \<open>
  The start argument of \<open>splice\<close> is made relative (ECMAScript 23.1.3.31, step 4):
  a negative start counts from the end and is clamped at 0, a start beyond the end is
  clamped at the length.
\<close>

definition js_rel_index :: "int \<Rightarrow> nat \<Rightarrow> nat" where
  "js_rel_index start len =
     (if start < 0 then nat (max (int len + start) 0) else min (nat start) len)"

text \<open>
  \<open>const [r] = xs.splice(start, 1)\<close>: removes at most one element; \<open>r\<close> is
  \<open>undefined\<close> (here \<open>None\<close>) when the relative start is the length.
\<close>

definition js_splice_remove :: "'a list \<Rightarrow> int \<Rightarrow> 'a option \<times> 'a list" where
  "js_splice_remove xs start =
     (let k = js_rel_index start (length xs)
      in if k < length xs then (Some (xs ! k), take k xs @ drop (Suc k) xs) else (None, xs))"

text \<open>\<open>xs.splice(start, 0, x)\<close>: inserts \<open>x\<close> before the relative start.\<close>

definition js_splice_insert :: "'a list \<Rightarrow> int \<Rightarrow> 'a \<Rightarrow> 'a list" where
  "js_splice_insert xs start x =
     (let k = js_rel_index start (length xs) in take k xs @ x # drop k xs)"

text \<open>\<open>xs.push(x)\<close>.\<close>

definition js_push :: "'a list \<Rightarrow> 'a \<Rightarrow> 'a list" where
  "js_push xs x = xs @ [x]"

declare js_push_def [js_array_simps]

subsection \<open>Facts about \<open>findIndex\<close>\<close>

lemma js_findIndex_eq:
  "js_findIndex P xs =
     (if \<exists>x\<in>set xs. P x then int (length (takeWhile (\<lambda>x. \<not> P x) xs)) else -1)"
  by (induction xs) (auto simp: Let_def)

lemma js_findIndex_neg_iff [simp]: "js_findIndex P xs < 0 \<longleftrightarrow> (\<forall>x\<in>set xs. \<not> P x)"
  by (auto simp: js_findIndex_eq)

lemma js_findIndex_nonneg_iff [simp]: "0 \<le> js_findIndex P xs \<longleftrightarrow> (\<exists>x\<in>set xs. P x)"
  by (auto simp: js_findIndex_eq)

lemma js_findIndex_none: "\<forall>x\<in>set xs. \<not> P x \<Longrightarrow> js_findIndex P xs = -1"
  by (auto simp: js_findIndex_eq)

lemma js_findIndex_some:
  assumes "i < length xs" "P (xs ! i)" "\<forall>j<i. \<not> P (xs ! j)"
  shows "js_findIndex P xs = int i"
  using assms
proof (induction xs arbitrary: i)
  case Nil
  then show ?case by simp
next
  case (Cons x xs)
  show ?case
  proof (cases i)
    case 0
    with Cons.prems show ?thesis by simp
  next
    case (Suc k)
    with Cons.prems have "js_findIndex P xs = int k" and "\<not> P x"
      by (auto intro!: Cons.IH)
    with Suc show ?thesis by simp
  qed
qed

text \<open>With distinct keys, \<open>findIndex\<close> by key is the position of the element.\<close>

lemma js_findIndex_key:
  assumes "distinct (map f xs)" "i < length xs"
  shows "js_findIndex (\<lambda>y. f y = f (xs ! i)) xs = int i"
proof (rule js_findIndex_some)
  show "\<forall>j<i. f (xs ! j) \<noteq> f (xs ! i)"
    using assms by (auto simp: distinct_conv_nth)
qed (use assms in auto)

lemma js_findIndex_nth:
  "0 \<le> js_findIndex P xs \<Longrightarrow>
     nat (js_findIndex P xs) < length xs \<and> P (xs ! nat (js_findIndex P xs))"
proof (induction xs)
  case Nil
  then show ?case by simp
next
  case (Cons x xs)
  show ?case
  proof (cases "P x")
    case False
    with Cons.prems have "0 \<le> js_findIndex P xs"
      by (simp split: if_splits)
    with Cons.IH False show ?thesis by (auto simp: nat_add_distrib)
  qed simp
qed

lemma js_findIndex_found:
  assumes "js_findIndex P xs \<noteq> -1"
  shows "nat (js_findIndex P xs) < length xs \<and> P (xs ! nat (js_findIndex P xs))"
proof -
  from assms have "0 \<le> js_findIndex P xs"
    using js_findIndex_none by fastforce
  then show ?thesis by (rule js_findIndex_nth)
qed

lemma js_findIndex_map [simp]: "js_findIndex P (map f xs) = js_findIndex (P \<circ> f) xs"
  by (induction xs) (auto simp: Let_def)

subsection \<open>Facts about \<open>splice\<close>\<close>

lemma js_rel_index_nat [simp]: "js_rel_index (int i) n = min i n"
  by (simp add: js_rel_index_def)

lemma js_rel_index_le: "js_rel_index s n \<le> n"
  by (auto simp: js_rel_index_def)

lemma js_splice_remove_nth [js_array_simps]:
  "i < length xs \<Longrightarrow> js_splice_remove xs (int i) = (Some (xs ! i), take i xs @ drop (Suc i) xs)"
  by (simp add: js_splice_remove_def)

lemma js_splice_insert_nth [js_array_simps]:
  "i \<le> length xs \<Longrightarrow> js_splice_insert xs (int i) x = take i xs @ x # drop i xs"
  by (simp add: js_splice_insert_def)

lemma length_js_splice_insert [simp]: "length (js_splice_insert xs s x) = Suc (length xs)"
  using js_rel_index_le [of s "length xs"] by (simp add: js_splice_insert_def Let_def)

lemma mset_js_splice_insert [simp]: "mset (js_splice_insert xs s x) = add_mset x (mset xs)"
proof -
  have "mset (take k xs @ x # drop k xs) = add_mset x (mset xs)" for k
    by (metis append_take_drop_id mset.simps(2) mset_append add_mset_add_single
        union_assoc union_commute)
  then show ?thesis by (simp add: js_splice_insert_def Let_def)
qed

lemma set_js_splice_insert [simp]: "set (js_splice_insert xs s x) = insert x (set xs)"
  by (metis mset_js_splice_insert set_mset_add_mset_insert set_mset_mset)

lemma mset_js_splice_remove:
  "js_splice_remove xs s = (Some r, ys) \<Longrightarrow> mset xs = add_mset r (mset ys)"
  by (auto simp: js_splice_remove_def Let_def split: if_splits)
    (metis append_take_drop_id Cons_nth_drop_Suc mset.simps(2) mset_append union_mset_add_mset_right)

lemma js_splice_remove_None:
  "js_splice_remove xs s = (None, ys) \<Longrightarrow> ys = xs"
  by (auto simp: js_splice_remove_def Let_def split: if_splits)

text \<open>\<open>splice(findIndex(...), 1)\<close> removes nothing only from the empty array: a found
  index is in range, and \<open>-1\<close> counts from the end.\<close>

lemma js_findIndex_range: "js_findIndex P xs = -1 \<or> (0 \<le> js_findIndex P xs \<and> nat (js_findIndex P xs) < length xs)"
  by (induction xs) (auto simp: Let_def)

lemma js_splice_remove_findIndex_None:
  "js_splice_remove xs (js_findIndex P xs) = (None, ys) \<Longrightarrow> xs = []"
  using js_findIndex_range [of P xs]
  by (cases xs) (auto simp: js_splice_remove_def js_rel_index_def Let_def split: if_splits)

text \<open>Reinserting a removed element where it was restores the array (the revert branch).\<close>

lemma js_splice_remove_insert:
  "i < length xs \<Longrightarrow> js_splice_insert (take i xs @ drop (Suc i) xs) (int i) (xs ! i) = xs"
  by (simp add: js_splice_insert_def min_def id_take_nth_drop [symmetric])

lemma distinct_map_filter_keys [intro]:
  "distinct (map f xs) \<Longrightarrow> distinct (map f (filter P xs))"
  by (simp add: distinct_map_filter)

subsection \<open>Splitting a list at the element \<open>findIndex\<close> finds\<close>

lemma js_findIndex_split:
  assumes "\<exists>x\<in>set xs. P x"
  obtains us v vs where "xs = us @ v # vs" "P v" "\<forall>u\<in>set us. \<not> P u"
    "js_findIndex P xs = int (length us)"
proof -
  let ?us = "takeWhile (\<lambda>x. \<not> P x) xs"
  from assms obtain v vs where dw: "dropWhile (\<lambda>x. \<not> P x) xs = v # vs"
    by (metis dropWhile_eq_Nil_conv list.exhaust)
  then have "xs = ?us @ v # vs" "P v"
    by (simp_all add: dropWhile_eq_Cons_conv)
  moreover have "\<forall>u\<in>set ?us. \<not> P u"
    by (auto dest: set_takeWhileD)
  moreover have "js_findIndex P xs = int (length ?us)"
    using assms by (simp add: js_findIndex_eq)
  ultimately show ?thesis by (rule that)
qed

lemma js_splice_remove_split [js_array_simps]:
  "js_splice_remove (us @ v # vs) (int (length us)) = (Some v, us @ vs)"
  by (simp add: js_splice_remove_def nth_append)

lemma js_splice_insert_split [js_array_simps]:
  "js_splice_insert (us @ vs) (int (length us)) a = us @ a # vs"
  by (simp add: js_splice_insert_def)

text \<open>With distinct keys, the element found by key is the only one with that key.\<close>

lemma distinct_key_split:
  assumes "distinct (map f (us @ v # vs))"
  shows "filter (\<lambda>x. f x \<noteq> f v) (us @ v # vs) = us @ vs"
proof -
  from assms have "\<forall>u\<in>set us. f u \<noteq> f v" "\<forall>u\<in>set vs. f u \<noteq> f v"
    by (auto simp: image_iff)
  then show ?thesis by simp
qed

lemma distinct_key_unique:
  "distinct (map f xs) \<Longrightarrow> x \<in> set xs \<Longrightarrow> y \<in> set xs \<Longrightarrow> f x = f y \<Longrightarrow> x = y"
  by (meson distinct_map inj_onD)

lemma distinct_key_filter_eq:
  "distinct (map f xs) \<Longrightarrow> x \<in> set xs \<Longrightarrow> filter (\<lambda>y. f y = f x) xs = [x]"
  by (induction xs) (auto simp: filter_empty_conv image_iff)

lemma sum_list_indicator:
  "sum_list (map (\<lambda>x. if P x then 1 else 0) xs) = length (filter P xs)"
  by (induction xs) simp_all


subsection \<open>Moving an element by key\<close>

text \<open>Removing the element with key \<open>f a\<close> by \<open>findIndex\<close> and \<open>splice\<close> is filtering it out.\<close>

lemma splice_remove_by_key:
  assumes d: "distinct (map f xs)" and a: "a \<in> set xs"
  shows "js_splice_remove xs (js_findIndex (\<lambda>x. f x = f a) xs) = (Some a, filter (\<lambda>x. f x \<noteq> f a) xs)"
proof -
  from a have "\<exists>x\<in>set xs. f x = f a" by blast
  then obtain us v vs where xs: "xs = us @ v # vs" and v: "f v = f a"
    and idx: "js_findIndex (\<lambda>x. f x = f a) xs = int (length us)"
    by (rule js_findIndex_split)
  from d a v xs have "v = a" by (intro distinct_key_unique [of f xs]) auto
  moreover from d xs have "filter (\<lambda>x. f x \<noteq> f v) xs = us @ vs"
    by (simp only: distinct_key_split)
  ultimately show ?thesis
    using xs idx v by (simp add: js_splice_remove_split)
qed

text \<open>Inserting by \<open>findIndex\<close> of key \<open>f b\<close> puts the new element right before \<open>b\<close>.\<close>

lemma splice_insert_before_key:
  assumes d: "distinct (map f ys)" and b: "b \<in> set ys"
  obtains us vs where "ys = us @ b # vs"
    "js_splice_insert ys (js_findIndex (\<lambda>x. f x = f b) ys) a = us @ a # b # vs"
proof -
  from b have "\<exists>x\<in>set ys. f x = f b" by blast
  then obtain us v vs where ys: "ys = us @ v # vs" and v: "f v = f b"
    and idx: "js_findIndex (\<lambda>x. f x = f b) ys = int (length us)"
    by (rule js_findIndex_split)
  from d b v ys have "v = b" by (intro distinct_key_unique [of f ys]) auto
  with ys idx have "js_splice_insert ys (js_findIndex (\<lambda>x. f x = f b) ys) a = us @ a # b # vs"
    by (simp add: js_splice_insert_split [of us "b # vs", simplified])
  with ys \<open>v = b\<close> show ?thesis by (rule_tac that) simp_all
qed

text \<open>The shape of a move: \<open>a\<close> taken out of \<open>xs\<close> and put back right before \<open>b\<close>.\<close>

lemma move_before_by_key:
  assumes d: "distinct (map f xs)" and a: "a \<in> set xs" and b: "b \<in> set xs" and ne: "f a \<noteq> f b"
    and fa: "f a' = f a"
  shows "\<exists>us vs. js_splice_insert (filter (\<lambda>x. f x \<noteq> f a) xs)
             (js_findIndex (\<lambda>x. f x = f b) (filter (\<lambda>x. f x \<noteq> f a) xs)) a' = us @ a' # b # vs \<and>
           filter (\<lambda>x. f x \<noteq> f a) (us @ a' # b # vs) = filter (\<lambda>x. f x \<noteq> f a) xs"
proof -
  let ?rest = "filter (\<lambda>x. f x \<noteq> f a) xs"
  have dr: "distinct (map f ?rest)" using d by (rule distinct_map_filter_keys)
  have br: "b \<in> set ?rest" using b ne by simp
  obtain us vs where rest: "?rest = us @ b # vs"
    and ins: "js_splice_insert ?rest (js_findIndex (\<lambda>x. f x = f b) ?rest) a' = us @ a' # b # vs"
    using splice_insert_before_key [OF dr br] by blast
  have "filter (\<lambda>x. f x \<noteq> f a) (us @ a' # b # vs) = filter (\<lambda>x. f x \<noteq> f a) ?rest"
    using fa rest by simp
  also have "\<dots> = ?rest" by simp
  finally show ?thesis using ins by blast
qed


lemma find_by_key:
  "distinct (map f xs) \<Longrightarrow> x \<in> set xs \<Longrightarrow> find (\<lambda>y. f y = f x) xs = Some x"
  by (induction xs) (auto simp: image_iff)

lemma set_js_splice_remove:
  "js_splice_remove xs i = (Some r, ys) \<Longrightarrow> set xs = insert r (set ys)"
proof -
  assume "js_splice_remove xs i = (Some r, ys)"
  then have "mset xs = add_mset r (mset ys)" by (rule mset_js_splice_remove)
  then have "set_mset (mset xs) = set_mset (add_mset r (mset ys))" by simp
  then show ?thesis by simp
qed

subsection \<open>Generic lemmas on lists\<close>

lemma map_update_same_key:
  "f y = f (xs ! i) \<Longrightarrow> map f (xs[i := y]) = map f xs"
  by (cases "i < length xs") (simp_all add: map_update list_update_same_conv list_update_beyond)

lemma set_update_key_subset:
  "set (xs[i := y]) \<subseteq> insert y (set xs)"
  by (rule set_update_subset_insert)

lemma filter_eq_Cons_mem:
  "filter P xs = y # ys \<Longrightarrow> y \<in> set xs \<and> P y"
  by (metis list.set_intros(1) mem_Collect_eq set_filter)

text \<open>With distinct keys, a key of the list is kept by a filter exactly when it is not
  dropped by the complementary filter.\<close>

lemma key_in_filter_iff:
  assumes "distinct (map f xs)" "k \<in> set (map f xs)"
  shows "k \<in> set (map f (filter P xs)) \<longleftrightarrow> k \<notin> set (map f (filter (\<lambda>x. \<not> P x) xs))"
  using assms
proof (induction xs)
  case Nil
  then show ?case by simp
next
  case (Cons x xs)
  show ?case
  proof (cases "f x = k")
    case True
    with Cons.prems(1) have "k \<notin> set (map f xs)" by auto
    then have "k \<notin> set (map f (filter Q xs))" for Q by auto
    with True show ?thesis by auto
  next
    case False
    with Cons.prems have "distinct (map f xs)" "k \<in> set (map f xs)" by auto
    with Cons.IH False show ?thesis by auto
  qed
qed

lemma filter_remove_nth:
  "i < length xs \<Longrightarrow> \<not> P (xs ! i) \<Longrightarrow> filter P (take i xs @ drop (Suc i) xs) = filter P xs"
  by (metis append_take_drop_id Cons_nth_drop_Suc filter.simps(2) filter_append)

lemma distinct_take_drop_Suc: "distinct ys \<Longrightarrow> distinct (take k ys @ drop (Suc k) ys)"
  using set_take_disj_set_drop_if_distinct [of ys k "Suc k"] by simp

lemma distinct_map_splice_remove:
  "js_splice_remove xs i = (x, ys) \<Longrightarrow> distinct (map f xs) \<Longrightarrow> distinct (map f ys)"
proof -
  assume r: "js_splice_remove xs i = (x, ys)" and d: "distinct (map f xs)"
  let ?k = "js_rel_index i (length xs)"
  show ?thesis
  proof (cases "?k < length xs")
    case True
    with r have "ys = take ?k xs @ drop (Suc ?k) xs" by (simp add: js_splice_remove_def Let_def)
    then have "map f ys = take ?k (map f xs) @ drop (Suc ?k) (map f xs)" by (simp add: take_map drop_map)
    with d show ?thesis by (simp only: distinct_take_drop_Suc)
  next
    case False
    with r d show ?thesis by (simp add: js_splice_remove_def Let_def)
  qed
qed

lemma set_splice_remove_subset: "js_splice_remove xs i = (x, ys) \<Longrightarrow> set ys \<subseteq> set xs"
  by (auto simp: js_splice_remove_def Let_def split: if_splits dest: in_set_takeD in_set_dropD)

lemma js_splice_remove_last: "js_splice_remove (xs @ [x]) (-1) = (Some x, xs)"
  by (simp add: js_splice_remove_def js_rel_index_def)

lemma key_notin_map: "k \<notin> set (map f xs) \<Longrightarrow> \<forall>x\<in>set xs. f x \<noteq> k"
  by auto

subsection \<open>Updating the element \<open>findIndex\<close> finds\<close>

lemma update_by_key_none:
  "js_findIndex (\<lambda>x. f x = k) xs = -1 \<Longrightarrow> map (\<lambda>x. if f x = k then g x else x) xs = xs"
proof -
  assume "js_findIndex (\<lambda>x. f x = k) xs = -1"
  then have "\<forall>x\<in>set xs. f x \<noteq> k" using js_findIndex_neg_iff [of "\<lambda>x. f x = k" xs] by simp
  then show ?thesis by (induction xs) auto
qed

lemma update_by_key_found:
  assumes d: "distinct (map f xs)" and i: "js_findIndex (\<lambda>x. f x = k) xs \<noteq> -1"
  shows "xs[nat (js_findIndex (\<lambda>x. f x = k) xs) := g (xs ! nat (js_findIndex (\<lambda>x. f x = k) xs))] =
         map (\<lambda>x. if f x = k then g x else x) xs"
proof -
  have "\<exists>x\<in>set xs. f x = k"
  proof (rule ccontr)
    assume "\<not> (\<exists>x\<in>set xs. f x = k)"
    then have "js_findIndex (\<lambda>x. f x = k) xs = -1" by (intro js_findIndex_none) blast
    with i show False by simp
  qed
  then obtain us v vs where xs: "xs = us @ v # vs" and v: "f v = k" and us: "\<forall>u\<in>set us. f u \<noteq> k"
    and idx: "js_findIndex (\<lambda>x. f x = k) xs = int (length us)"
    by (rule js_findIndex_split)
  from d xs v have "k \<notin> set (map f vs)" by simp
  then have vs: "\<forall>w\<in>set vs. f w \<noteq> k" by (rule key_notin_map)
  have "map (\<lambda>x. if f x = k then g x else x) us = us" using us by (induction us) auto
  moreover have "map (\<lambda>x. if f x = k then g x else x) vs = vs" using vs by (induction vs) auto
  ultimately show ?thesis using xs v idx by (simp add: list_update_append nth_append)
qed

end
