(* ===== verification/JSON.thy ===== *)
theory JSON
  imports Prelude
begin

text \<open>
  The text layer under \<open>localStorage\<close>: \<open>saveData\<close> (lines 648--652) stores
  \<open>JSON.stringify\<close> of the three arrays and lines 2--4 read them back with
  \<open>JSON.parse\<close>. The JSON values, the serialiser the program relies on, and a parser
  for the JSON grammar (RFC 8259), split as a lexer and a stack machine over the tokens.
  Characters are the model's 8-bit characters; an escape \<open>\uXXXX\<close> above \<open>0xFF\<close> names a
  code unit the model does not have and is reported as \<open>Unrepresentable\<close>.
\<close>

datatype json = JNull | JBool bool | JNum string | JStr string | JArr "json list"
  | JObj "(string \<times> json) list"

datatype json_error = SyntaxError | Unrepresentable

subsection \<open>Characters\<close>

definition is_digit :: "char \<Rightarrow> bool" where
  "is_digit c \<longleftrightarrow> 48 \<le> (of_char c :: nat) \<and> (of_char c :: nat) \<le> 57"

definition json_ws :: "char \<Rightarrow> bool" where
  "json_ws c \<longleftrightarrow> c = CHR '' '' \<or> c = CHR 0x09 \<or> c = CHR 0x0A \<or> c = CHR 0x0D"

definition hex_char :: "nat \<Rightarrow> char" where
  "hex_char n = (if n < 10 then char_of (48 + n) else char_of (87 + n))"

definition hex_val :: "char \<Rightarrow> nat option" where
  "hex_val c =
     (let n = of_char c :: nat
      in if 48 \<le> n \<and> n \<le> 57 then Some (n - 48)
         else if 97 \<le> n \<and> n \<le> 102 then Some (n - 87)
         else if 65 \<le> n \<and> n \<le> 70 then Some (n - 55)
         else None)"

definition hex4 :: "char \<Rightarrow> char \<Rightarrow> char \<Rightarrow> char \<Rightarrow> nat option" where
  "hex4 a b c d =
     (case (hex_val a, hex_val b, hex_val c, hex_val d) of
        (Some w, Some x, Some y, Some z) \<Rightarrow> Some (((w * 16 + x) * 16 + y) * 16 + z)
      | _ \<Rightarrow> None)"

subsection \<open>\<open>JSON.stringify\<close>\<close>

text \<open>String quoting: \<open>"\<close> and \<open>\\<close> are escaped, the six control characters with a
  short escape use it, every other control character is \<open>\u00xx\<close> in lower-case hex.\<close>

definition esc_char :: "char \<Rightarrow> string" where
  "esc_char c =
     (if c = CHR 0x22 then [CHR 0x5C, CHR 0x22]
      else if c = CHR 0x5C then [CHR 0x5C, CHR 0x5C]
      else if c = CHR 0x08 then [CHR 0x5C, CHR ''b'']
      else if c = CHR 0x0C then [CHR 0x5C, CHR ''f'']
      else if c = CHR 0x0A then [CHR 0x5C, CHR ''n'']
      else if c = CHR 0x0D then [CHR 0x5C, CHR ''r'']
      else if c = CHR 0x09 then [CHR 0x5C, CHR ''t'']
      else if of_char c < (32::nat) then
        [CHR 0x5C, CHR ''u'', CHR ''0'', CHR ''0'', hex_char (of_char c div 16), hex_char (of_char c mod 16)]
      else [c])"

definition json_quote :: "string \<Rightarrow> string" where
  "json_quote s = CHR 0x22 # concat (map esc_char s) @ [CHR 0x22]"

text \<open>\<open>stringify\<close> is the composition of a token stream and the tokens' texts, with no
  white space between tokens, as \<open>JSON.stringify\<close> without indentation writes it.\<close>

datatype tok = TLBrack | TRBrack | TLBrace | TRBrace | TColon | TComma | TNull | TTrue | TFalse
  | TNum string | TStr string

fun tok_text :: "tok \<Rightarrow> string" where
  "tok_text TLBrack = ''[''"
| "tok_text TRBrack = '']''"
| "tok_text TLBrace = ''{''"
| "tok_text TRBrace = ''}''"
| "tok_text TColon = '':''"
| "tok_text TComma = '',''"
| "tok_text TNull = ''null''"
| "tok_text TTrue = ''true''"
| "tok_text TFalse = ''false''"
| "tok_text (TNum n) = n"
| "tok_text (TStr s) = json_quote s"

text \<open>Elements separated by commas.\<close>

definition commas :: "tok list list \<Rightarrow> tok list" where
  "commas xss = (case xss of [] \<Rightarrow> [] | xs # yss \<Rightarrow> xs @ concat (map (\<lambda>ys. TComma # ys) yss))"

fun toks :: "json \<Rightarrow> tok list" where
  "toks JNull = [TNull]"
| "toks (JBool b) = [if b then TTrue else TFalse]"
| "toks (JNum n) = [TNum n]"
| "toks (JStr s) = [TStr s]"
| "toks (JArr vs) = TLBrack # commas (map toks vs) @ [TRBrack]"
| "toks (JObj kvs) = TLBrace # commas (map (\<lambda>(k, v). TStr k # TColon # toks v) kvs) @ [TRBrace]"

definition stringify :: "json \<Rightarrow> string" where
  "stringify v = concat (map tok_text (toks v))"

subsection \<open>Lexing\<close>

text \<open>The number grammar: \<open>-? (0 | [1-9][0-9]*) (. [0-9]+)? ([eE] [+-]? [0-9]+)?\<close>.\<close>

definition exp_ok :: "string \<Rightarrow> bool" where
  "exp_ok r \<longleftrightarrow> r = [] \<or>
     ((hd r = CHR ''e'' \<or> hd r = CHR ''E'') \<and>
      (let r' = tl r; r'' = (case r' of c # x \<Rightarrow> if c = CHR ''+'' \<or> c = CHR ''-'' then x else r' | [] \<Rightarrow> [])
       in r'' \<noteq> [] \<and> list_all is_digit r''))"

definition frac_exp_ok :: "string \<Rightarrow> bool" where
  "frac_exp_ok r \<longleftrightarrow>
     (case r of
        c # r' \<Rightarrow> if c = CHR ''.'' then takeWhile is_digit r' \<noteq> [] \<and> exp_ok (dropWhile is_digit r')
                 else exp_ok r
      | [] \<Rightarrow> True)"

definition num_ok :: "string \<Rightarrow> bool" where
  "num_ok s \<longleftrightarrow>
     (let s1 = (case s of c # r \<Rightarrow> if c = CHR ''-'' then r else s | [] \<Rightarrow> []);
          ip = takeWhile is_digit s1
      in (ip = ''0'' \<or> (ip \<noteq> [] \<and> hd ip \<noteq> CHR ''0'')) \<and> frac_exp_ok (dropWhile is_digit s1))"

definition num_char :: "char \<Rightarrow> bool" where
  "num_char c \<longleftrightarrow> is_digit c \<or> c = CHR ''-'' \<or> c = CHR ''+'' \<or> c = CHR ''.'' \<or> c = CHR ''e'' \<or> c = CHR ''E''"

text \<open>The inside of a string literal, after the opening quote: the characters read so far
  are \<open>acc\<close>; the result is the string and the text after the closing quote.\<close>

definition short_esc :: "char \<Rightarrow> char option" where
  "short_esc e =
     (if e = CHR 0x22 then Some (CHR 0x22) else if e = CHR 0x5C then Some (CHR 0x5C)
      else if e = CHR ''/'' then Some (CHR ''/'') else if e = CHR ''b'' then Some (CHR 0x08)
      else if e = CHR ''f'' then Some (CHR 0x0C) else if e = CHR ''n'' then Some (CHR 0x0A)
      else if e = CHR ''r'' then Some (CHR 0x0D) else if e = CHR ''t'' then Some (CHR 0x09)
      else None)"

fun lex_str :: "string \<Rightarrow> string \<Rightarrow> json_error + (string \<times> string)" where
  "lex_str [] acc = Inl SyntaxError"
| "lex_str [c] acc = (if c = CHR 0x22 then Inr (acc, []) else Inl SyntaxError)"
| "lex_str (c # e # cs) acc =
     (if c = CHR 0x22 then Inr (acc, e # cs)
      else if c = CHR 0x5C then
        (case short_esc e of
           Some x \<Rightarrow> lex_str cs (acc @ [x])
         | None \<Rightarrow>
             if e = CHR ''u'' then
               (case cs of
                  a # b # c' # d # cs' \<Rightarrow>
                    (case hex4 a b c' d of
                       Some n \<Rightarrow> if n < 256 then lex_str cs' (acc @ [char_of n]) else Inl Unrepresentable
                     | None \<Rightarrow> Inl SyntaxError)
                | _ \<Rightarrow> Inl SyntaxError)
             else Inl SyntaxError)
      else if of_char c < (32::nat) then Inl SyntaxError
      else lex_str (e # cs) (acc @ [c]))"


definition lex_cons :: "tok \<Rightarrow> json_error + tok list \<Rightarrow> json_error + tok list" where
  "lex_cons t r = (case r of Inl e \<Rightarrow> Inl e | Inr ts \<Rightarrow> Inr (t # ts))"

function lex :: "string \<Rightarrow> json_error + tok list" where
  "lex [] = Inr []"
| "lex (c # cs) =
     (if json_ws c then lex cs
      else if c = CHR ''['' then lex_cons TLBrack (lex cs)
      else if c = CHR '']'' then lex_cons TRBrack (lex cs)
      else if c = CHR ''{'' then lex_cons TLBrace (lex cs)
      else if c = CHR ''}'' then lex_cons TRBrace (lex cs)
      else if c = CHR '':'' then lex_cons TColon (lex cs)
      else if c = CHR '','' then lex_cons TComma (lex cs)
      else if c = CHR 0x22 then
        (case lex_str cs [] of Inl e \<Rightarrow> Inl e | Inr (s, rest) \<Rightarrow> lex_cons (TStr s) (lex rest))
      else if c = CHR ''-'' \<or> is_digit c then
        (let n = takeWhile num_char (c # cs)
         in if num_ok n then lex_cons (TNum n) (lex (dropWhile num_char (c # cs))) else Inl SyntaxError)
      else if take 4 (c # cs) = ''true'' then lex_cons TTrue (lex (drop 4 (c # cs)))
      else if take 4 (c # cs) = ''null'' then lex_cons TNull (lex (drop 4 (c # cs)))
      else if take 5 (c # cs) = ''false'' then lex_cons TFalse (lex (drop 5 (c # cs)))
      else Inl SyntaxError)"
  by pat_completeness auto

text \<open>Every call of \<open>lex\<close> is on a shorter text: the string scanner consumes at
  least the closing quote, a number at least its first character, a keyword its letters.\<close>

termination lex
proof -
  have shorter: "length rest < length cs" if "lex_str cs acc = Inr (s, rest)" for cs acc s rest
    using that by (induction cs acc rule: lex_str.induct)
      (fastforce split: if_splits option.splits list.splits)+
  show ?thesis
    by (relation "measure length")
      (auto dest: shorter simp: num_char_def le_imp_less_Suc length_dropWhile_le)
qed

subsection \<open>\<open>JSON.parse\<close>\<close>

text \<open>The parser is a stack machine over the tokens: the frames are the arrays and objects
  still open, the mode says what may come next.\<close>

datatype frame = FArr "json list" | FObj "(string \<times> json) list" | FKey "(string \<times> json) list" string

datatype pmode = PValue bool | PKey bool | PColon | PAfter

datatype pstate = Run "frame list" pmode | Done json | Fail

fun place :: "json \<Rightarrow> frame list \<Rightarrow> pstate" where
  "place v [] = Done v"
| "place v (FArr acc # st) = Run (FArr (acc @ [v]) # st) PAfter"
| "place v (FKey acc k # st) = Run (FObj (acc @ [(k, v)]) # st) PAfter"
| "place v (FObj acc # st) = Fail"

fun close_arr :: "frame list \<Rightarrow> pstate" where
  "close_arr (FArr acc # st) = place (JArr acc) st"
| "close_arr _ = Fail"

fun close_obj :: "frame list \<Rightarrow> pstate" where
  "close_obj (FObj acc # st) = place (JObj acc) st"
| "close_obj _ = Fail"

fun ptoks :: "pstate \<Rightarrow> tok list \<Rightarrow> json_error + json" where
  "ptoks (Done v) [] = Inr v"
| "ptoks (Done v) (t # ts) = Inl SyntaxError"
| "ptoks Fail ts = Inl SyntaxError"
| "ptoks (Run st m) [] = Inl SyntaxError"
| "ptoks (Run st (PValue cl)) (t # ts) =
     (case t of
        TLBrack \<Rightarrow> ptoks (Run (FArr [] # st) (PValue True)) ts
      | TLBrace \<Rightarrow> ptoks (Run (FObj [] # st) (PKey True)) ts
      | TRBrack \<Rightarrow> if cl then ptoks (close_arr st) ts else Inl SyntaxError
      | TNull \<Rightarrow> ptoks (place JNull st) ts
      | TTrue \<Rightarrow> ptoks (place (JBool True) st) ts
      | TFalse \<Rightarrow> ptoks (place (JBool False) st) ts
      | TNum n \<Rightarrow> ptoks (place (JNum n) st) ts
      | TStr s \<Rightarrow> ptoks (place (JStr s) st) ts
      | _ \<Rightarrow> Inl SyntaxError)"
| "ptoks (Run st (PKey cl)) (t # ts) =
     (case t of
        TStr k \<Rightarrow> (case st of FObj acc # st' \<Rightarrow> ptoks (Run (FKey acc k # st') PColon) ts | _ \<Rightarrow> Inl SyntaxError)
      | TRBrace \<Rightarrow> if cl then ptoks (close_obj st) ts else Inl SyntaxError
      | _ \<Rightarrow> Inl SyntaxError)"
| "ptoks (Run st PColon) (t # ts) = (if t = TColon then ptoks (Run st (PValue False)) ts else Inl SyntaxError)"
| "ptoks (Run st PAfter) (t # ts) =
     (case t of
        TComma \<Rightarrow> (case st of
                     FArr acc # _ \<Rightarrow> ptoks (Run st (PValue False)) ts
                   | FObj acc # _ \<Rightarrow> ptoks (Run st (PKey False)) ts
                   | _ \<Rightarrow> Inl SyntaxError)
      | TRBrack \<Rightarrow> ptoks (close_arr st) ts
      | TRBrace \<Rightarrow> ptoks (close_obj st) ts
      | _ \<Rightarrow> Inl SyntaxError)"

definition json_parse :: "string \<Rightarrow> json_error + json" where
  "json_parse s = (case lex s of Inl e \<Rightarrow> Inl e | Inr ts \<Rightarrow> ptoks (Run [] (PValue False)) ts)"

subsection \<open>What the round trip needs\<close>

definition lex_app :: "tok list \<Rightarrow> json_error + tok list \<Rightarrow> json_error + tok list" where
  "lex_app ts r = (case r of Inl e \<Rightarrow> Inl e | Inr us \<Rightarrow> Inr (ts @ us))"

text \<open>A number token as \<open>JSON.stringify\<close> writes one: a valid number, all of whose
  characters are number characters.\<close>

definition num_tok_ok :: "string \<Rightarrow> bool" where
  "num_tok_ok n \<longleftrightarrow> num_ok n \<and> n \<noteq> [] \<and> (hd n = CHR ''-'' \<or> is_digit (hd n)) \<and> list_all num_char n"

fun json_ok :: "json \<Rightarrow> bool" where
  "json_ok (JNum n) = num_tok_ok n"
| "json_ok (JArr vs) = list_all json_ok vs"
| "json_ok (JObj kvs) = list_all (\<lambda>kv. json_ok (snd kv)) kvs"
| "json_ok _ = True"

text \<open>What may follow a value inside the text \<open>stringify\<close> writes.\<close>

definition delim :: "string \<Rightarrow> bool" where
  "delim rest \<longleftrightarrow> rest = [] \<or> hd rest = CHR '','' \<or> hd rest = CHR '']'' \<or> hd rest = CHR ''}''"

subsection \<open>Properties of the lexer and the parser\<close>

lemma lex_str_shorter: "lex_str cs acc = Inr (s, rest) \<Longrightarrow> length rest < length cs"
  by (induction cs acc rule: lex_str.induct)
    (fastforce split: if_splits option.splits list.splits)+

subsection \<open>Parsing the tokens of a value\<close>

lemma ptoks_elems:
  assumes IH: "\<And>w st cl ts. w \<in> set ws \<Longrightarrow> ptoks (Run st (PValue cl)) (toks w @ ts) = ptoks (place w st) ts"
  shows "ptoks (Run (FArr acc # st) PAfter) (concat (map (\<lambda>v. TComma # toks v) ws) @ TRBrack # ts) =
         ptoks (place (JArr (acc @ ws)) st) ts"
  using IH
proof (induction ws arbitrary: acc)
  case Nil
  then show ?case by simp
next
  case (Cons w ws)
  have "ptoks (Run (FArr acc # st) PAfter) (concat (map (\<lambda>v. TComma # toks v) (w # ws)) @ TRBrack # ts) =
        ptoks (Run (FArr acc # st) (PValue False)) (toks w @ concat (map (\<lambda>v. TComma # toks v) ws) @ TRBrack # ts)"
    by simp
  also have "\<dots> = ptoks (Run (FArr (acc @ [w]) # st) PAfter) (concat (map (\<lambda>v. TComma # toks v) ws) @ TRBrack # ts)"
    using Cons.prems [of w] by simp
  also have "\<dots> = ptoks (place (JArr (acc @ w # ws)) st) ts"
    using Cons.IH [of "acc @ [w]"] Cons.prems by simp
  finally show ?case .
qed

lemma ptoks_fields:
  assumes IH: "\<forall>kv\<in>set kvs. \<forall>st cl ts. ptoks (Run st (PValue cl)) (toks (snd kv) @ ts) = ptoks (place (snd kv) st) ts"
  shows "ptoks (Run (FObj acc # st) PAfter)
           (concat (map (\<lambda>kv. TComma # (case kv of (k, v) \<Rightarrow> TStr k # TColon # toks v)) kvs) @ TRBrace # ts) =
         ptoks (place (JObj (acc @ kvs)) st) ts"
  using IH
proof (induction kvs arbitrary: acc)
  case Nil
  then show ?case by simp
next
  case (Cons kv kvs)
  obtain k w where kv: "kv = (k, w)" by fastforce
  have "ptoks (Run (FObj acc # st) PAfter)
          (concat (map (\<lambda>kv. TComma # (case kv of (k, v) \<Rightarrow> TStr k # TColon # toks v)) (kv # kvs)) @ TRBrace # ts) =
        ptoks (Run (FKey acc k # st) (PValue False))
          (toks w @ concat (map (\<lambda>kv. TComma # (case kv of (k, v) \<Rightarrow> TStr k # TColon # toks v)) kvs) @ TRBrace # ts)"
    by (simp add: kv)
  also have "\<dots> = ptoks (Run (FObj (acc @ [(k, w)]) # st) PAfter)
          (concat (map (\<lambda>kv. TComma # (case kv of (k, v) \<Rightarrow> TStr k # TColon # toks v)) kvs) @ TRBrace # ts)"
    using Cons.prems kv by simp
  also have "\<dots> = ptoks (place (JObj (acc @ kv # kvs)) st) ts"
    using Cons.IH [of "acc @ [(k, w)]"] Cons.prems kv by simp
  finally show ?case .
qed

lemma ptoks_toks: "ptoks (Run st (PValue cl)) (toks v @ ts) = ptoks (place v st) ts"
proof (induction v arbitrary: st cl ts)
  case (JArr vs)
  show ?case
  proof (cases vs)
    case (Cons w ws)
    have "ptoks (Run st (PValue cl)) (toks (JArr vs) @ ts) =
          ptoks (Run (FArr [] # st) (PValue True)) (toks w @ concat (map (\<lambda>v. TComma # toks v) ws) @ TRBrack # ts)"
      by (simp add: Cons commas_def comp_def)
    also have "\<dots> = ptoks (Run (FArr [w] # st) PAfter) (concat (map (\<lambda>v. TComma # toks v) ws) @ TRBrack # ts)"
      using JArr.IH [of w] Cons by simp
    also have "\<dots> = ptoks (place (JArr vs) st) ts"
      using ptoks_elems [of ws "[w]" st ts] JArr.IH Cons by simp
    finally show ?thesis .
  qed (simp add: commas_def)
next
  case (JObj kvs)
  show ?case
  proof (cases kvs)
    case (Cons kv kvs')
    obtain k w where kv: "kv = (k, w)" by fastforce
    have "ptoks (Run st (PValue cl)) (toks (JObj kvs) @ ts) =
          ptoks (Run (FKey [] k # st) (PValue False))
            (toks w @ concat (map (\<lambda>kv. TComma # (case kv of (k, v) \<Rightarrow> TStr k # TColon # toks v)) kvs') @ TRBrace # ts)"
      by (simp add: Cons kv commas_def comp_def)
    also have "\<dots> = ptoks (Run (FObj [(k, w)] # st) PAfter)
            (concat (map (\<lambda>kv. TComma # (case kv of (k, v) \<Rightarrow> TStr k # TColon # toks v)) kvs') @ TRBrace # ts)"
      using JObj.IH [of kv w] Cons kv by simp
    also have "\<dots> = ptoks (place (JObj kvs) st) ts"
      using ptoks_fields [of kvs' "[(k, w)]" st ts] JObj.IH Cons kv by force
    finally show ?thesis .
  qed (simp add: commas_def)
qed simp_all

subsection \<open>Lexing the text of a value\<close>

lemma hex_val_hex_char: "n < 16 \<Longrightarrow> hex_val (hex_char n) = Some n"
  by (auto simp: hex_char_def hex_val_def Let_def)

lemma lex_str_esc_char: "X \<noteq> [] \<Longrightarrow> lex_str (esc_char c @ X) acc = lex_str X (acc @ [c])"
proof -
  assume "X \<noteq> []"
  then obtain e cs where X: "X = e # cs" by (cases X) auto
  show ?thesis
  proof (cases "of_char c < (32::nat)")
    case True
    have h: "hex_val (hex_char (of_char c div 16)) = Some (of_char c div 16)"
      "hex_val (hex_char (of_char c mod 16)) = Some (of_char c mod 16)"
      using True by (simp_all add: hex_val_hex_char)
    show ?thesis
      using True h unfolding X esc_char_def
      by (auto simp: short_esc_def hex4_def hex_val_def)
  next
    case False
    have q: "short_esc (CHR 0x22) = Some (CHR 0x22)" "short_esc (CHR 0x5C) = Some (CHR 0x5C)"
      by (simp_all add: short_esc_def)
    have c: "c \<noteq> CHR 0x08" "c \<noteq> CHR 0x0C" "c \<noteq> CHR 0x0A" "c \<noteq> CHR 0x0D" "c \<noteq> CHR 0x09"
      using False by auto
    show ?thesis
      using False c unfolding X esc_char_def by (simp add: q)
  qed
qed

lemma lex_str_quote: "lex_str (concat (map esc_char s) @ CHR 0x22 # rest) acc = Inr (acc @ s, rest)"
proof (induction s arbitrary: acc)
  case Nil
  then show ?case by (cases rest) simp_all
next
  case (Cons c s)
  then show ?case by (simp add: lex_str_esc_char)
qed

lemma lex_quote: "lex (json_quote s @ rest) = lex_cons (TStr s) (lex rest)"
  by (simp add: json_quote_def lex_str_quote json_ws_def is_digit_def)

lemma lex_app_simps [simp]:
  "lex_app [] r = r" "lex_app (ts @ us) r = lex_app ts (lex_app us r)"
  "lex_app (t # ts) r = lex_cons t (lex_app ts r)"
  by (auto simp: lex_app_def lex_cons_def split: sum.splits)

lemma delim_not_num: "delim rest \<Longrightarrow> rest = [] \<or> \<not> num_char (hd rest)"
  by (auto simp: delim_def num_char_def is_digit_def)

lemma lex_num:
  assumes n: "num_tok_ok n" and d: "delim rest"
  shows "lex (n @ rest) = lex_cons (TNum n) (lex rest)"
proof -
  obtain c cs where ncs: "n = c # cs" and c: "c = CHR ''-'' \<or> is_digit c" and all: "list_all num_char n" and ok: "num_ok n"
    using n by (cases n) (auto simp: num_tok_ok_def)
  have tw: "takeWhile num_char (n @ rest) = n" and dw: "dropWhile num_char (n @ rest) = rest"
  proof -
    have "takeWhile num_char rest = [] \<and> dropWhile num_char rest = rest"
      using delim_not_num [OF d] by (cases rest) auto
    then show "takeWhile num_char (n @ rest) = n" "dropWhile num_char (n @ rest) = rest"
      using all by (simp_all add: list_all_iff takeWhile_append dropWhile_append)
  qed
  have nw: "\<not> json_ws c" and np: "c \<noteq> CHR ''['' \<and> c \<noteq> CHR '']'' \<and> c \<noteq> CHR ''{'' \<and> c \<noteq> CHR ''}'' \<and>
      c \<noteq> CHR '':'' \<and> c \<noteq> CHR '','' \<and> c \<noteq> CHR 0x22"
    using c by (auto simp: json_ws_def is_digit_def)
  show ?thesis
    using tw dw nw np c ok unfolding ncs by simp
qed

lemma lex_word:
  "t \<in> {TNull, TTrue, TFalse} \<Longrightarrow> delim rest \<Longrightarrow> lex (tok_text t @ rest) = lex_cons t (lex rest)"
  by (auto simp: json_ws_def is_digit_def)

lemma lex_punct:
  "t \<in> {TLBrack, TRBrack, TLBrace, TRBrace, TColon, TComma} \<Longrightarrow> lex (tok_text t @ rest) = lex_cons t (lex rest)"
  by (auto simp: json_ws_def is_digit_def)

lemma delim_sep:
  "delim rest \<Longrightarrow> delim (concat (map tok_text (concat (map (\<lambda>v. TComma # f v) ws))) @ rest)"
  by (cases ws) (simp_all add: delim_def)

lemma lex_sep:
  assumes "\<forall>w\<in>set ws. \<forall>rest. delim rest \<longrightarrow> lex (concat (map tok_text (f w)) @ rest) = lex_app (f w) (lex rest)"
    and "delim rest"
  shows "lex (concat (map tok_text (concat (map (\<lambda>v. TComma # f v) ws))) @ rest) =
         lex_app (concat (map (\<lambda>v. TComma # f v) ws)) (lex rest)"
  using assms
proof (induction ws)
  case (Cons w ws)
  have "delim (concat (map tok_text (concat (map (\<lambda>v. TComma # f v) ws))) @ rest)"
    using Cons.prems(2) by (rule delim_sep)
  with Cons show ?case by (simp add: lex_punct [of TComma, simplified])
qed simp

lemma lex_toks: "json_ok v \<Longrightarrow> delim rest \<Longrightarrow> lex (concat (map tok_text (toks v)) @ rest) = lex_app (toks v) (lex rest)"
proof (induction v arbitrary: rest)
  case JNull
  then show ?case using lex_word [of TNull rest] by simp
next
  case (JBool b)
  then show ?case using lex_word [of TTrue rest] lex_word [of TFalse rest] by simp
next
  case (JNum n)
  then show ?case by (simp add: lex_num)
next
  case (JStr s)
  then show ?case by (simp add: lex_quote)
next
  case (JArr vs)
  have rb: "delim ('']'' @ rest)" by (simp add: delim_def)
  show ?case
  proof (cases vs)
    case Nil
    then show ?thesis by (simp add: commas_def lex_punct [of TLBrack, simplified] lex_punct [of TRBrack, simplified])
  next
    case (Cons w ws)
    have el: "\<forall>x\<in>set ws. \<forall>rest. delim rest \<longrightarrow> lex (concat (map tok_text (toks x)) @ rest) = lex_app (toks x) (lex rest)"
      using JArr Cons by (simp add: list_all_iff)
    have d1: "delim (concat (map tok_text (concat (map (\<lambda>v. TComma # toks v) ws))) @ '']'' @ rest)"
      using rb by (rule delim_sep)
    have "json_ok w" using JArr.prems Cons by simp
    with JArr.IH [of w] Cons d1 have hw:
      "lex (concat (map tok_text (toks w)) @ concat (map tok_text (concat (map (\<lambda>v. TComma # toks v) ws))) @ '']'' @ rest) =
       lex_app (toks w) (lex (concat (map tok_text (concat (map (\<lambda>v. TComma # toks v) ws))) @ '']'' @ rest))"
      by simp
    show ?thesis
      using hw lex_sep [OF el rb] Cons
      by (simp add: commas_def comp_def lex_punct [of TLBrack, simplified] lex_punct [of TRBrack, simplified])
  qed
next
  case (JObj kvs)
  have rb: "delim (''}'' @ rest)" by (simp add: delim_def)
  let ?f = "\<lambda>kv. case kv of (k, v) \<Rightarrow> TStr k # TColon # toks v"
  have fkv: "lex (concat (map tok_text (?f kv)) @ r) = lex_app (?f kv) (lex r)"
    if "kv \<in> set kvs" "delim r" for kv r
  proof -
    obtain k v where kv: "kv = (k, v)" by fastforce
    have "json_ok v" using JObj.prems that kv by (auto simp: list_all_iff)
    with JObj.IH [of kv v] that kv have "lex (concat (map tok_text (toks v)) @ r) = lex_app (toks v) (lex r)"
      by simp
    then show ?thesis using kv by (simp add: lex_quote lex_punct [of TColon, simplified])
  qed
  show ?case
  proof (cases kvs)
    case Nil
    then show ?thesis by (simp add: commas_def lex_punct [of TLBrace, simplified] lex_punct [of TRBrace, simplified])
  next
    case (Cons kv kvs')
    have el: "\<forall>x\<in>set kvs'. \<forall>r. delim r \<longrightarrow> lex (concat (map tok_text (?f x)) @ r) = lex_app (?f x) (lex r)"
      using fkv Cons by simp
    have d1: "delim (concat (map tok_text (concat (map (\<lambda>v. TComma # ?f v) kvs'))) @ ''}'' @ rest)"
      using rb by (rule delim_sep)
    have hw: "lex (concat (map tok_text (?f kv)) @ concat (map tok_text (concat (map (\<lambda>v. TComma # ?f v) kvs'))) @ ''}'' @ rest) =
       lex_app (?f kv) (lex (concat (map tok_text (concat (map (\<lambda>v. TComma # ?f v) kvs'))) @ ''}'' @ rest))"
      using fkv [OF _ d1] Cons by simp
    show ?thesis
      using hw lex_sep [OF el rb] Cons
      by (simp add: commas_def comp_def lex_punct [of TLBrace, simplified] lex_punct [of TRBrace, simplified])
  qed
qed

lemma parse_stringify: "json_ok v \<Longrightarrow> json_parse (stringify v) = Inr v"
  using lex_toks [of v "[]"] ptoks_toks [of "[]" False v "[]"]
  by (simp add: json_parse_def stringify_def delim_def lex_app_def)
end
