(* ===== verification/Model.thy ===== *)
theory Model
  imports Prelude
begin

text \<open>
  The data model of \<^verbatim>\<open>src/Dashboard/script.js\<close>: the objects kept in the
  three top-level arrays \<open>panels\<close>, \<open>categories\<close>, \<open>links\<close> (lines 2--4), the
  scalars \<open>currentPanelId\<close> and \<open>currentTheme\<close> (lines 5, 12), and the browser's
  \<open>localStorage\<close> as far as the program writes it (\<open>saveData\<close>, lines 648--652,
  and the direct \<open>setItem\<close> calls). The well-formedness invariant \<open>wf_dash\<close>
  collects what the program keeps true between events: unique ids, references from
  categories to panels and from links to categories, and a current panel that exists.
\<close>

subsection \<open>Values\<close>

text \<open>
  \<open>panelId\<close> of a category and \<open>currentPanelId\<close> are JavaScript values that can be
  \<open>undefined\<close> (a legacy category without the field), \<open>null\<close> or a string. With this
  datatype HOL equality is exactly JavaScript's \<open>===\<close> on them, so the filters of the
  source (\<open>c.panelId === currentPanelId\<close>) are translated as equations.
\<close>

datatype jsid = Undefined | Null | Str string

fun js_truthy :: "jsid \<Rightarrow> bool" where
  "js_truthy (Str s) = (s \<noteq> [])"
| "js_truthy Undefined = False"
| "js_truthy Null = False"

text \<open>\<open>x || ''\<close> of line 327: the string stored for the current panel.\<close>

fun js_or_empty :: "jsid \<Rightarrow> string" where
  "js_or_empty (Str s) = s"
| "js_or_empty Undefined = []"
| "js_or_empty Null = []"

record panel =
  panel_id :: ident
  panel_name :: string

record category =
  cat_id :: ident
  cat_name :: string
  panelId :: jsid

record link =
  link_id :: ident
  link_name :: string
  description :: string
  url :: string
  categoryId :: ident

subsection \<open>Local storage\<close>

text \<open>
  The five keys of \<open>localStorage\<close> the program writes. A key holds \<open>None\<close> until it
  is written. The three collections are kept as the values their JSON text denotes; the
  text layer (\<open>JSON.stringify\<close>/\<open>JSON.parse\<close>) is the subject of the theory
  \<open>Storage\<close>.
\<close>

record store =
  ls_panels :: "panel list option"
  ls_categories :: "category list option"
  ls_links :: "link list option"
  ls_current_panel :: "string option"
  ls_theme :: "string option"

definition empty_store :: store where
  "empty_store = \<lparr>ls_panels = None, ls_categories = None, ls_links = None,
     ls_current_panel = None, ls_theme = None\<rparr>"

subsection \<open>The program state\<close>

text \<open>The module-level variables of lines 2--12, and the storage they are saved to.\<close>

record dash =
  panels :: "panel list"
  categories :: "category list"
  links :: "link list"
  currentPanelId :: jsid
  currentTheme :: string
  storage :: store

text \<open>\<open>saveData()\<close>, lines 648--652: a full snapshot of the three collections.\<close>

definition saveData :: "dash \<Rightarrow> dash" where
  "saveData s = s\<lparr>storage := (storage s)\<lparr>ls_panels := Some (panels s),
     ls_categories := Some (categories s), ls_links := Some (links s)\<rparr>\<rparr>"

text \<open>\<open>localStorage.setItem('dashboard_current_panel', v)\<close>.\<close>

definition set_current_item :: "string \<Rightarrow> dash \<Rightarrow> dash" where
  "set_current_item v s = s\<lparr>storage := (storage s)\<lparr>ls_current_panel := Some v\<rparr>\<rparr>"

subsection \<open>Queries the handlers share\<close>

text \<open>\<open>categories.filter(c => c.panelId === currentPanelId)\<close> (lines 133, 252, 587, 634).\<close>

definition panel_categories :: "dash \<Rightarrow> category list" where
  "panel_categories s = filter (\<lambda>c. panelId c = currentPanelId s) (categories s)"

text \<open>\<open>links.filter(link => link.categoryId === category.id)\<close> (line 146).\<close>

definition category_links :: "dash \<Rightarrow> ident \<Rightarrow> link list" where
  "category_links s cid = filter (\<lambda>l. categoryId l = cid) (links s)"

abbreviation panel_ids :: "dash \<Rightarrow> ident list" where
  "panel_ids s \<equiv> map panel_id (panels s)"

abbreviation cat_ids :: "dash \<Rightarrow> ident list" where
  "cat_ids s \<equiv> map cat_id (categories s)"

abbreviation link_ids :: "dash \<Rightarrow> ident list" where
  "link_ids s \<equiv> map link_id (links s)"

text \<open>Every id the program has handed out, of any kind.\<close>

definition all_ids :: "dash \<Rightarrow> ident set" where
  "all_ids s = set (panel_ids s) \<union> set (cat_ids s) \<union> set (link_ids s)"

subsection \<open>An example state\<close>

text \<open>Two panels, three categories, four links: the concrete input of the witnesses.\<close>

definition ex_cat1 :: category where
  "ex_cat1 = \<lparr>cat_id = ''c1'', cat_name = ''Projects'', panelId = Str ''w''\<rparr>"

definition ex_cat2 :: category where
  "ex_cat2 = \<lparr>cat_id = ''c2'', cat_name = ''Favorites'', panelId = Str ''h''\<rparr>"

definition ex_cat3 :: category where
  "ex_cat3 = \<lparr>cat_id = ''c3'', cat_name = ''Docs'', panelId = Str ''w''\<rparr>"

definition ex_link :: "ident \<Rightarrow> ident \<Rightarrow> link" where
  "ex_link i c = \<lparr>link_id = i, link_name = i, description = [], url = ''https://'' @ i, categoryId = c\<rparr>"

definition ex_dash :: dash where
  "ex_dash = \<lparr>panels = [\<lparr>panel_id = ''w'', panel_name = ''Work''\<rparr>,
                         \<lparr>panel_id = ''h'', panel_name = ''Personal''\<rparr>],
     categories = [ex_cat1, ex_cat2, ex_cat3],
     links = [ex_link ''l1'' ''c1'', ex_link ''l2'' ''c2'', ex_link ''l3'' ''c3'', ex_link ''l4'' ''c1''],
     currentPanelId = Str ''w'', currentTheme = ''light'', storage = empty_store\<rparr>"

lemmas ex_defs = ex_dash_def ex_cat1_def ex_cat2_def ex_cat3_def ex_link_def

subsection \<open>Well-formedness\<close>

text \<open>
  Ids are unique within their collection and never empty (\<open>generateId\<close> always
  answers a non-empty string); every category names an existing panel; every link
  names an existing category; the current panel is \<open>null\<close> exactly when there is no
  panel, and otherwise one of the panels.
\<close>

definition current_ok :: "dash \<Rightarrow> bool" where
  "current_ok s \<longleftrightarrow>
     (if panel_ids s = [] then currentPanelId s = Null
      else currentPanelId s \<in> Str ` set (panel_ids s))"

definition refs_ok :: "dash \<Rightarrow> bool" where
  "refs_ok s \<longleftrightarrow>
     set (map panelId (categories s)) \<subseteq> Str ` set (panel_ids s) \<and>
     set (map categoryId (links s)) \<subseteq> set (cat_ids s)"

definition ids_ok :: "dash \<Rightarrow> bool" where
  "ids_ok s \<longleftrightarrow>
     distinct (panel_ids s) \<and> distinct (cat_ids s) \<and> distinct (link_ids s) \<and>
     [] \<notin> all_ids s"

definition wf_dash :: "dash \<Rightarrow> bool" where
  "wf_dash s \<longleftrightarrow> ids_ok s \<and> refs_ok s \<and> current_ok s"

lemmas wf_defs = wf_dash_def ids_ok_def refs_ok_def current_ok_def all_ids_def

lemma wf_ex_dash: "wf_dash ex_dash"
  by (simp add: ex_defs wf_defs)

text \<open>Fields no handler of the model reads are left alone by the storage writes.\<close>

lemma saveData_sel [simp]:
  "panels (saveData s) = panels s" "categories (saveData s) = categories s"
  "links (saveData s) = links s" "currentPanelId (saveData s) = currentPanelId s"
  "currentTheme (saveData s) = currentTheme s"
  "ls_current_panel (storage (saveData s)) = ls_current_panel (storage s)"
  "ls_theme (storage (saveData s)) = ls_theme (storage s)"
  "ls_panels (storage (saveData s)) = Some (panels s)"
  "ls_categories (storage (saveData s)) = Some (categories s)"
  "ls_links (storage (saveData s)) = Some (links s)"
  by (simp_all add: saveData_def)

lemma set_current_item_sel [simp]:
  "panels (set_current_item v s) = panels s" "categories (set_current_item v s) = categories s"
  "links (set_current_item v s) = links s"
  "currentPanelId (set_current_item v s) = currentPanelId s"
  "currentTheme (set_current_item v s) = currentTheme s"
  "ls_current_panel (storage (set_current_item v s)) = Some v"
  "ls_panels (storage (set_current_item v s)) = ls_panels (storage s)"
  "ls_categories (storage (set_current_item v s)) = ls_categories (storage s)"
  "ls_links (storage (set_current_item v s)) = ls_links (storage s)"
  "ls_theme (storage (set_current_item v s)) = ls_theme (storage s)"
  by (simp_all add: set_current_item_def)

text \<open>
  The invariant reads only the ids, the two reference fields and the current panel:
  edits of names, descriptions and urls, and every storage write, keep it.
\<close>

lemma wf_dash_cong:
  assumes "panel_ids t = panel_ids s" "cat_ids t = cat_ids s" "link_ids t = link_ids s"
    "map panelId (categories t) = map panelId (categories s)"
    "map categoryId (links t) = map categoryId (links s)"
    "currentPanelId t = currentPanelId s"
  shows "wf_dash t = wf_dash s"
  unfolding wf_dash_def ids_ok_def refs_ok_def current_ok_def all_ids_def
  by (simp only: assms)

lemma wf_saveData [simp]: "wf_dash (saveData s) = wf_dash s"
  by (rule wf_dash_cong) simp_all

lemma wf_set_current_item [simp]: "wf_dash (set_current_item v s) = wf_dash s"
  by (rule wf_dash_cong) simp_all

text \<open>The invariant only needs the multisets of ids and the set of references.\<close>

lemma wf_dash_perm:
  assumes wf: "wf_dash s" and p: "panel_ids t = panel_ids s"
    and c: "mset (categories t) = mset (categories s)"
    and l: "mset (link_ids t) = mset (link_ids s)"
    and r: "set (map categoryId (links t)) \<subseteq> set (cat_ids s)"
    and cur: "currentPanelId t = currentPanelId s"
  shows "wf_dash t"
proof -
  have mc: "mset (cat_ids t) = mset (cat_ids s)" using c by simp
  have "distinct (cat_ids t) = distinct (cat_ids s)" using mc by (rule mset_eq_imp_distinct_iff)
  moreover have "set (cat_ids t) = set (cat_ids s)" using mc by (rule mset_eq_setD)
  moreover have "distinct (link_ids t) = distinct (link_ids s)" using l by (rule mset_eq_imp_distinct_iff)
  moreover have "set (link_ids t) = set (link_ids s)" using l by (rule mset_eq_setD)
  moreover have "set (categories t) = set (categories s)" using c by (rule mset_eq_setD)
  ultimately show ?thesis
    using wf p r cur unfolding wf_defs by (auto split: if_splits)
qed

lemma wf_ids_nonempty:
  assumes "wf_dash s"
  shows "i \<in> set (panel_ids s) \<Longrightarrow> i \<noteq> []" "i \<in> set (cat_ids s) \<Longrightarrow> i \<noteq> []"
    "i \<in> set (link_ids s) \<Longrightarrow> i \<noteq> []"
  using assms unfolding wf_dash_def ids_ok_def all_ids_def by blast+

end
