(* ===== verification/Repository.thy ===== *)
theory Repository
  imports Model
begin

text \<open>
  The handlers of \<^verbatim>\<open>src/Dashboard/script.js\<close> that create, edit and delete
  panels, categories and links, each with every write it makes to the module
  variables and to \<open>localStorage\<close>: the three form handlers \<open>handleLinkSubmit\<close>,
  \<open>handleCategorySubmit\<close>, \<open>handlePanelSubmit\<close> (lines 493--562), the delete branches
  of the two delegated click listeners (lines 300--377) with the \<open>confirm\<close> dialog as the
  user's answer to the message the code builds, the panel tab click (lines 107--113), the
  theme toggle (lines 244--248) and the guards of the add buttons (lines 251--267).
  Rendering calls are left out: they read the state and write only the DOM.
\<close>

subsection \<open>String helpers\<close>

text \<open>
  \<open>String.prototype.trim\<close> removes white space and line terminators at both ends;
  \<open>char\<close> is a byte, so those that can be written here are tab, line feed, vertical
  tab, form feed, carriage return, space and the no-break space \<open>U+00A0\<close>.
\<close>

definition js_ws :: "char \<Rightarrow> bool" where
  "js_ws c \<longleftrightarrow> of_char c \<in> {9, 10, 11, 12, 13, 32, 160 :: nat}"

definition js_trim :: "string \<Rightarrow> string" where
  "js_trim s = rev (dropWhile js_ws (rev (dropWhile js_ws s)))"

text \<open>\<open>String.prototype.startsWith\<close>.\<close>

definition js_startsWith :: "string \<Rightarrow> string \<Rightarrow> bool" where
  "js_startsWith s p \<longleftrightarrow> take (length p) s = p"

text \<open>Decimal rendering of a count in a template literal.\<close>

fun nat_str :: "nat \<Rightarrow> string" where
  "nat_str n = (if n < 10 then [char_of (48 + n)] else nat_str (n div 10) @ [char_of (48 + n mod 10)])"

declare nat_str.simps [simp del]

subsection \<open>Forms\<close>

text \<open>The values of the form fields when a form is submitted.\<close>

record link_form =
  form_url :: string
  form_name :: string
  form_description :: string
  form_category :: ident
  form_link_id :: string

record category_form =
  form_cat_name :: string
  form_cat_id :: string

record panel_form =
  form_panel_name :: string
  form_panel_id :: string

datatype error = Alert string

text \<open>A user who confirms every dialog.\<close>

definition confirm_all :: "string \<Rightarrow> bool" where
  "confirm_all msg = True"

subsection \<open>Link form: \<open>handleLinkSubmit\<close>, lines 493--518\<close>

definition normalize_url :: "string \<Rightarrow> string" where
  "normalize_url raw =
     (let u = js_trim raw
      in if js_startsWith u ''http://'' \<or> js_startsWith u ''https://'' then u else ''https://'' @ u)"

text \<open>\<open>newId\<close> is the value \<open>generateId()\<close> returns when the branch calls it.\<close>

definition handleLinkSubmit :: "link_form \<Rightarrow> ident \<Rightarrow> dash \<Rightarrow> dash" where
  "handleLinkSubmit f newId s =
     (let u = normalize_url (form_url f); nm = js_trim (form_name f);
          desc = js_trim (form_description f); cid = form_category f; i = form_link_id f
      in saveData
          (if i \<noteq> [] then
             (let index = js_findIndex (\<lambda>l. link_id l = i) (links s)
              in if index \<noteq> -1 then
                   s\<lparr>links := (links s)[nat index :=
                     \<lparr>link_id = i, link_name = nm, description = desc, url = u, categoryId = cid\<rparr>]\<rparr>
                 else s)
           else s\<lparr>links := js_push (links s)
                    \<lparr>link_id = newId, link_name = nm, description = desc, url = u, categoryId = cid\<rparr>\<rparr>))"

subsection \<open>Category form: \<open>handleCategorySubmit\<close>, lines 520--538\<close>

definition handleCategorySubmit :: "category_form \<Rightarrow> ident \<Rightarrow> dash \<Rightarrow> dash" where
  "handleCategorySubmit f newId s =
     (let nm = js_trim (form_cat_name f); i = form_cat_id f
      in saveData
          (if i \<noteq> [] then
             (let index = js_findIndex (\<lambda>c. cat_id c = i) (categories s)
              in if index \<noteq> -1 then
                   s\<lparr>categories := (categories s)[nat index :=
                     (categories s ! nat index)\<lparr>cat_name := nm\<rparr>]\<rparr>
                 else s)
           else s\<lparr>categories := js_push (categories s)
                    \<lparr>cat_id = newId, cat_name = nm, panelId = currentPanelId s\<rparr>\<rparr>))"

subsection \<open>Panel form: \<open>handlePanelSubmit\<close>, lines 540--562\<close>

definition handlePanelSubmit :: "panel_form \<Rightarrow> ident \<Rightarrow> dash \<Rightarrow> dash" where
  "handlePanelSubmit f newId s =
     (let nm = js_trim (form_panel_name f); i = form_panel_id f
      in saveData
          (if i \<noteq> [] then
             (let index = js_findIndex (\<lambda>p. panel_id p = i) (panels s)
              in if index \<noteq> -1 then
                   s\<lparr>panels := (panels s)[nat index := (panels s ! nat index)\<lparr>panel_name := nm\<rparr>]\<rparr>
                 else s)
           else set_current_item newId
                  (s\<lparr>panels := js_push (panels s) \<lparr>panel_id = newId, panel_name = nm\<rparr>,
                     currentPanelId := Str newId\<rparr>)))"

subsection \<open>Deletes, lines 300--377\<close>

text \<open>
  Each delete asks \<open>confirm(msg)\<close> first; \<open>confirm\<close> is the user's answer to the
  message, and nothing changes when it is \<open>False\<close>.
\<close>

definition deleteLink_msg :: string where
  "deleteLink_msg = ''Are you sure you want to delete this link?''"

definition deleteLink :: "ident \<Rightarrow> (string \<Rightarrow> bool) \<Rightarrow> dash \<Rightarrow> dash" where
  "deleteLink i confirm s =
     (if confirm deleteLink_msg then saveData (s\<lparr>links := filter (\<lambda>l. link_id l \<noteq> i) (links s)\<rparr>)
      else s)"

definition deleteCategory_msg :: "ident \<Rightarrow> dash \<Rightarrow> string" where
  "deleteCategory_msg i s =
     (let n = length (filter (\<lambda>l. categoryId l = i) (links s))
      in ''Are you sure you want to delete this category?'' @
         (if n > 0 then ''\<newline>It contains '' @ nat_str n @ '' link(s) which will also be deleted.''
          else []))"

definition deleteCategory :: "ident \<Rightarrow> (string \<Rightarrow> bool) \<Rightarrow> dash \<Rightarrow> dash" where
  "deleteCategory i confirm s =
     (if confirm (deleteCategory_msg i s) then
        saveData (s\<lparr>categories := filter (\<lambda>c. cat_id c \<noteq> i) (categories s),
                    links := filter (\<lambda>l. categoryId l \<noteq> i) (links s)\<rparr>)
      else s)"

definition deletePanel_msg :: "ident \<Rightarrow> dash \<Rightarrow> string" where
  "deletePanel_msg i s =
     (let n = length (filter (\<lambda>c. panelId c = Str i) (categories s))
      in ''Are you sure you want to delete this panel?'' @
         (if n > 0 then ''\<newline>It contains '' @ nat_str n @ '' category(ies) which will also be deleted.''
          else []))"

definition deletePanel :: "ident \<Rightarrow> (string \<Rightarrow> bool) \<Rightarrow> dash \<Rightarrow> dash" where
  "deletePanel i confirm s =
     (if confirm (deletePanel_msg i s) then
        (let ps = filter (\<lambda>p. panel_id p \<noteq> i) (panels s);
             cs = filter (\<lambda>c. panelId c \<noteq> Str i) (categories s);
             remainingCatIds = set (map cat_id cs);
             s1 = s\<lparr>panels := ps, categories := cs,
                    links := filter (\<lambda>l. categoryId l \<in> remainingCatIds) (links s)\<rparr>;
             s2 = (if currentPanelId s = Str i then
                     (let cur = (case ps of [] \<Rightarrow> Null | p # _ \<Rightarrow> Str (panel_id p))
                      in set_current_item (js_or_empty cur) (s1\<lparr>currentPanelId := cur\<rparr>))
                   else s1)
         in saveData s2)
      else s)"

subsection \<open>Panel tabs, theme, add buttons\<close>

text \<open>Click on the tab of panel \<open>i\<close>, lines 107--113.\<close>

definition selectPanel :: "ident \<Rightarrow> dash \<Rightarrow> dash" where
  "selectPanel i s = set_current_item i (s\<lparr>currentPanelId := Str i\<rparr>)"

text \<open>Lines 244--248.\<close>

definition toggleTheme :: "dash \<Rightarrow> dash" where
  "toggleTheme s =
     (let t = (if currentTheme s = ''light'' then ''dark'' else ''light'')
      in s\<lparr>currentTheme := t, storage := (storage s)\<lparr>ls_theme := Some t\<rparr>\<rparr>)"

text \<open>The guards of the add buttons, lines 251--267: an alert, or the form opens.\<close>

definition addLinkGuard :: "dash \<Rightarrow> error + unit" where
  "addLinkGuard s =
     (if panel_categories s = [] then Inl (Alert ''Please create a category first!'') else Inr ())"

definition addCategoryGuard :: "dash \<Rightarrow> error + unit" where
  "addCategoryGuard s =
     (if \<not> js_truthy (currentPanelId s) then Inl (Alert ''Please create a panel first!'') else Inr ())"

subsection \<open>Shapes of the writes\<close>

text \<open>
  Every handler writes its collection in one of three shapes: an element replaced in
  place by one with the same id, an element pushed at the end, or a filter. The
  invariant is proved once per shape; each handler's proof picks its shapes.
\<close>

lemma wf_links_update:
  assumes "wf_dash s" "k < length (links s)" "link_id l = link_id (links s ! k)"
    "categoryId l \<in> set (cat_ids s)"
  shows "wf_dash (s\<lparr>links := (links s)[k := l]\<rparr>)"
proof -
  have ids: "map link_id ((links s)[k := l]) = link_ids s"
    using assms(3) by (rule map_update_same_key)
  have "set (map categoryId ((links s)[k := l])) \<subseteq>
      insert (categoryId l) (set (map categoryId (links s)))"
    unfolding map_update by (rule set_update_subset_insert)
  with assms(1,4) have "set (map categoryId ((links s)[k := l])) \<subseteq> set (cat_ids s)"
    unfolding wf_defs by blast
  with assms(1) ids show ?thesis
    unfolding wf_defs by (simp del: map_update set_map)
qed

lemma wf_links_push:
  assumes "wf_dash s" "link_id l \<notin> set (link_ids s)" "link_id l \<noteq> []"
    "categoryId l \<in> set (cat_ids s)"
  shows "wf_dash (s\<lparr>links := js_push (links s) l\<rparr>)"
  using assms unfolding wf_defs js_push_def by auto

lemma wf_categories_rename:
  "wf_dash (s\<lparr>categories := (categories s)[k := (categories s ! k)\<lparr>cat_name := nm\<rparr>]\<rparr>) = wf_dash s"
  by (rule wf_dash_cong) (simp_all add: map_update_same_key)

lemma wf_categories_push:
  assumes "wf_dash s" "cat_id c \<notin> set (cat_ids s)" "cat_id c \<noteq> []"
    "panelId c \<in> Str ` set (panel_ids s)"
  shows "wf_dash (s\<lparr>categories := js_push (categories s) c\<rparr>)"
  using assms unfolding wf_defs js_push_def by auto

lemma wf_panels_rename:
  "wf_dash (s\<lparr>panels := (panels s)[k := (panels s ! k)\<lparr>panel_name := nm\<rparr>]\<rparr>) = wf_dash s"
  by (rule wf_dash_cong) (simp_all add: map_update_same_key)

lemma wf_current_truthy:
  "wf_dash s \<Longrightarrow> js_truthy (currentPanelId s) \<Longrightarrow> currentPanelId s \<in> Str ` set (panel_ids s)"
  unfolding wf_defs by (auto split: if_splits)

subsection \<open>Each handler keeps the invariant\<close>

text \<open>
  The hypotheses are what the interface guarantees: a fresh id from \<open>generateId\<close>
  for a new element, a category chosen from the select that \<open>updateCategorySelect\<close>
  fills with existing categories, the add-category guard passed, a tab of an existing panel.
\<close>

lemma handleLinkSubmit_wf:
  assumes wf: "wf_dash s" and cat: "form_category f \<in> set (cat_ids s)"
    and fresh: "form_link_id f = [] \<Longrightarrow> newId \<notin> set (link_ids s) \<and> newId \<noteq> []"
  shows "wf_dash (handleLinkSubmit f newId s)"
proof (cases "form_link_id f = []")
  case True
  with wf cat fresh show ?thesis
    by (simp add: handleLinkSubmit_def Let_def wf_links_push)
next
  case False
  let ?idx = "js_findIndex (\<lambda>l. link_id l = form_link_id f) (links s)"
  show ?thesis
  proof (cases "?idx = -1")
    case True
    with False wf show ?thesis by (simp add: handleLinkSubmit_def Let_def)
  next
    case found: False
    then have "nat ?idx < length (links s)" "link_id (links s ! nat ?idx) = form_link_id f"
      using js_findIndex_found by blast+
    with False found wf cat show ?thesis
      by (simp add: handleLinkSubmit_def Let_def wf_links_update)
  qed
qed

lemma handleCategorySubmit_wf:
  assumes wf: "wf_dash s" and guard: "form_cat_id f = [] \<Longrightarrow> addCategoryGuard s = Inr ()"
    and fresh: "form_cat_id f = [] \<Longrightarrow> newId \<notin> set (cat_ids s) \<and> newId \<noteq> []"
  shows "wf_dash (handleCategorySubmit f newId s)"
proof (cases "form_cat_id f = []")
  case True
  from guard [OF True] have "js_truthy (currentPanelId s)"
    by (simp add: addCategoryGuard_def split: if_splits)
  with wf have "currentPanelId s \<in> Str ` set (panel_ids s)"
    by (rule wf_current_truthy)
  with True wf fresh show ?thesis
    by (simp add: handleCategorySubmit_def Let_def wf_categories_push)
qed (simp add: handleCategorySubmit_def Let_def wf wf_categories_rename)

lemma handlePanelSubmit_wf:
  assumes wf: "wf_dash s"
    and fresh: "form_panel_id f = [] \<Longrightarrow> newId \<notin> set (panel_ids s) \<and> newId \<noteq> []"
  shows "wf_dash (handlePanelSubmit f newId s)"
proof (cases "form_panel_id f = []")
  case True
  with wf fresh show ?thesis
    unfolding handlePanelSubmit_def Let_def wf_defs js_push_def by auto
qed (simp add: handlePanelSubmit_def Let_def wf wf_panels_rename)

lemma deleteLink_wf: "wf_dash s \<Longrightarrow> wf_dash (deleteLink i confirm s)"
  unfolding deleteLink_def wf_defs by (auto simp: distinct_map_filter)

lemma deleteCategory_wf: "wf_dash s \<Longrightarrow> wf_dash (deleteCategory i confirm s)"
  unfolding deleteCategory_def wf_defs by (auto simp: distinct_map_filter)

lemma selectPanel_wf: "wf_dash s \<Longrightarrow> i \<in> set (panel_ids s) \<Longrightarrow> wf_dash (selectPanel i s)"
  unfolding selectPanel_def wf_defs by auto

lemma toggleTheme_wf [simp]: "wf_dash (toggleTheme s) = wf_dash s"
  by (rule wf_dash_cong) (simp_all add: toggleTheme_def Let_def)

text \<open>Deleting a panel: the categories left point at panels left, and the current panel
  is moved to the first panel left, or to \<open>null\<close>.\<close>

lemma refs_filter_parent:
  "set (map g cs) \<subseteq> Str ` set (map f ps) \<Longrightarrow>
   set (map g (filter (\<lambda>c. g c \<noteq> Str i) cs)) \<subseteq> Str ` set (map f (filter (\<lambda>p. f p \<noteq> i) ps))"
  by auto

lemma current_after_delete:
  assumes "current_ok s"
  shows "(let ps = filter (\<lambda>p. panel_id p \<noteq> i) (panels s);
              cur = (if currentPanelId s = Str i then (case ps of [] \<Rightarrow> Null | p # _ \<Rightarrow> Str (panel_id p))
                     else currentPanelId s)
          in if map panel_id ps = [] then cur = Null else cur \<in> Str ` set (map panel_id ps))"
  using assms unfolding current_ok_def Let_def
  by (auto simp: filter_empty_conv image_iff dest!: filter_eq_Cons_mem split: list.splits if_splits)

lemma deletePanel_wf:
  assumes wf: "wf_dash s"
  shows "wf_dash (deletePanel i confirm s)"
proof (cases "confirm (deletePanel_msg i s)")
  case False
  with wf show ?thesis by (simp add: deletePanel_def)
next
  case True
  have r: "set (map panelId (filter (\<lambda>c. panelId c \<noteq> Str i) (categories s))) \<subseteq>
      Str ` set (map panel_id (filter (\<lambda>p. panel_id p \<noteq> i) (panels s)))"
    using wf unfolding wf_defs by (intro refs_filter_parent) simp
  have c: "current_ok s" using wf by (simp add: wf_dash_def)
  from current_after_delete [OF c, of i] r wf True show ?thesis
    unfolding deletePanel_def wf_defs Let_def
    by (auto simp: distinct_map_filter)
qed

subsection \<open>Cascade\<close>

text \<open>C5: deleting a panel (confirmed) removes exactly the categories of the panel and
  exactly the links whose category was one of them; the rest keep their order.\<close>

theorem deletePanel_cascade:
  assumes wf: "wf_dash s" and yes: "confirm (deletePanel_msg i s)"
  shows "categories (deletePanel i confirm s) = filter (\<lambda>c. panelId c \<noteq> Str i) (categories s) \<and>
         links (deletePanel i confirm s) =
           filter (\<lambda>l. categoryId l \<notin> set (map cat_id (filter (\<lambda>c. panelId c = Str i) (categories s))))
             (links s)"
proof -
  have "categoryId l \<in> set (map cat_id (filter (\<lambda>c. panelId c \<noteq> Str i) (categories s))) \<longleftrightarrow>
        categoryId l \<notin> set (map cat_id (filter (\<lambda>c. panelId c = Str i) (categories s)))"
    if "l \<in> set (links s)" for l
  proof -
    from wf that have "categoryId l \<in> set (cat_ids s)" and "distinct (cat_ids s)"
      unfolding wf_defs by auto
    then show ?thesis
      using key_in_filter_iff [where P = "\<lambda>c. panelId c \<noteq> Str i"] by simp
  qed
  then have "filter (\<lambda>l. categoryId l \<in> set (map cat_id (filter (\<lambda>c. panelId c \<noteq> Str i) (categories s))))
      (links s) =
    filter (\<lambda>l. categoryId l \<notin> set (map cat_id (filter (\<lambda>c. panelId c = Str i) (categories s)))) (links s)"
    by (rule filter_cong [OF refl])
  with yes show ?thesis
    by (simp add: deletePanel_def Let_def)
qed

text \<open>C8: editing a link (a submission with an id) is the same as replacing, in place,
  the link with that id by the form's values and keeping every other link; an id that no
  longer exists changes nothing.\<close>

theorem handleLinkSubmit_edit:
  assumes d: "distinct (link_ids s)" and i: "form_link_id f \<noteq> []"
  shows "links (handleLinkSubmit f newId s) =
    map (\<lambda>l. if link_id l = form_link_id f
             then \<lparr>link_id = form_link_id f, link_name = js_trim (form_name f),
                   description = js_trim (form_description f), url = normalize_url (form_url f),
                   categoryId = form_category f\<rparr>
             else l) (links s)"
proof (cases "js_findIndex (\<lambda>l. link_id l = form_link_id f) (links s) = -1")
  case True
  with i show ?thesis by (simp add: handleLinkSubmit_def Let_def update_by_key_none)
next
  case False
  with i update_by_key_found [OF d False, of "\<lambda>_. \<lparr>link_id = form_link_id f, link_name = js_trim (form_name f),
                   description = js_trim (form_description f), url = normalize_url (form_url f),
                   categoryId = form_category f\<rparr>"]
  show ?thesis by (simp add: handleLinkSubmit_def Let_def)
qed

text \<open>C9: renaming a category (a submission with an id) changes the name of the category
  with that id, in place, and nothing else: its \<open>panelId\<close> and every other category are
  kept; an id that no longer exists changes nothing.\<close>

theorem handleCategorySubmit_edit:
  assumes dc: "distinct (cat_ids s)" and i: "form_cat_id g \<noteq> []"
  shows "categories (handleCategorySubmit g newId s) =
    map (\<lambda>c. if cat_id c = form_cat_id g then c\<lparr>cat_name := js_trim (form_cat_name g)\<rparr> else c) (categories s)"
proof (cases "js_findIndex (\<lambda>c. cat_id c = form_cat_id g) (categories s) = -1")
  case True
  with i show ?thesis
    using update_by_key_none [OF True, of "\<lambda>c. c\<lparr>cat_name := js_trim (form_cat_name g)\<rparr>"]
    unfolding handleCategorySubmit_def Let_def by (simp del: js_findIndex_neg_iff js_findIndex_nonneg_iff)
next
  case False
  with i show ?thesis
    using update_by_key_found [OF dc False, of "\<lambda>c. c\<lparr>cat_name := js_trim (form_cat_name g)\<rparr>"]
    unfolding handleCategorySubmit_def Let_def by (simp del: js_findIndex_neg_iff js_findIndex_nonneg_iff)
qed

theorem deletePanel_cascade_witness:
  "wf_dash ex_dash \<and> confirm_all (deletePanel_msg ''w'' ex_dash) \<and>
   categories (deletePanel ''w'' confirm_all ex_dash) = [ex_cat2] \<and>
   links (deletePanel ''w'' confirm_all ex_dash) = [ex_link ''l2'' ''c2'']"
proof -
  have wf: "wf_dash ex_dash" by (simp add: ex_defs wf_defs)
  have yes: "confirm_all (deletePanel_msg ''w'' ex_dash)" by (simp add: confirm_all_def)
  from deletePanel_cascade [of ex_dash confirm_all "''w''", OF wf yes] wf yes show ?thesis
    by (simp add: ex_defs)
qed

theorem handleLinkSubmit_edit_witness:
  "distinct (link_ids ex_dash) \<and>
   form_link_id \<lparr>form_url = ''example.org'', form_name = '' Ex '', form_description = [], form_category = ''c3'', form_link_id = ''l2''\<rparr> \<noteq> [] \<and>
   links (handleLinkSubmit \<lparr>form_url = ''example.org'', form_name = '' Ex '', form_description = [], form_category = ''c3'', form_link_id = ''l2''\<rparr> ''n'' ex_dash) =
     [ex_link ''l1'' ''c1'', \<lparr>link_id = ''l2'', link_name = ''Ex'', description = [], url = ''https://example.org'', categoryId = ''c3''\<rparr>,
      ex_link ''l3'' ''c3'', ex_link ''l4'' ''c1'']"
proof -
  let ?f = "\<lparr>form_url = ''example.org'', form_name = '' Ex '', form_description = [], form_category = ''c3'', form_link_id = ''l2''\<rparr>"
  have d: "distinct (link_ids ex_dash)" by (simp add: ex_defs)
  have i: "form_link_id ?f \<noteq> []" by simp
  from handleLinkSubmit_edit [OF d i, of "''n''"] d i show ?thesis
    by (simp add: ex_defs normalize_url_def js_startsWith_def js_trim_def js_ws_def)
qed

theorem handleCategorySubmit_edit_witness:
  "distinct (cat_ids ex_dash) \<and> form_cat_id \<lparr>form_cat_name = ''Docs '', form_cat_id = ''c1''\<rparr> \<noteq> [] \<and>
   categories (handleCategorySubmit \<lparr>form_cat_name = ''Docs '', form_cat_id = ''c1''\<rparr> ''n'' ex_dash) =
     [ex_cat1\<lparr>cat_name := ''Docs''\<rparr>, ex_cat2, ex_cat3]"
proof -
  have d: "distinct (cat_ids ex_dash)" by (simp add: ex_defs)
  have i: "form_cat_id \<lparr>form_cat_name = ''Docs '', form_cat_id = ''c1''\<rparr> \<noteq> []" by simp
  from handleCategorySubmit_edit [OF d i, of "''n''"] d i show ?thesis
    by (simp add: ex_defs js_trim_def js_ws_def)
qed

end
