(* ===== verification/Forms.thy ===== *)
theory Forms
  imports Repository
begin

text \<open>
  The dialogs of \<^verbatim>\<open>src/Dashboard/script.js\<close>: \<open>updateCategorySelect()\<close>
  (lines 632--641) fills the link form's category select with the current panel's
  categories, and \<open>openModal(type, data)\<close> (lines 565--623) resets a form and, for an
  edit, fills it from the element. What the user then types is arbitrary; what is
  submitted is a form record of \<open>Repository\<close>. \<open>closeModal\<close> only hides the dialogs.
\<close>

subsection \<open>Filling the forms\<close>

text \<open>The options of \<open>#link-category\<close>: value and label.\<close>

definition updateCategorySelect :: "dash \<Rightarrow> (ident \<times> string) list" where
  "updateCategorySelect s = map (\<lambda>c. (cat_id c, cat_name c)) (panel_categories s)"

text \<open>Setting a select's \<open>value\<close> to a value none of its options has selects nothing,
  and the select then reads \<open>''''\<close>; after \<open>reset()\<close> the first option is selected.\<close>

definition select_value :: "(ident \<times> string) list \<Rightarrow> ident \<Rightarrow> ident" where
  "select_value opts v = (if v \<in> set (map fst opts) then v else [])"

text \<open>Lines 570--589: the link dialog, for an edit (\<open>data\<close> is the link) or a new link.\<close>

definition link_modal :: "dash \<Rightarrow> link option \<Rightarrow> link_form" where
  "link_modal s data =
     (let opts = updateCategorySelect s
      in case data of
           Some l \<Rightarrow> \<lparr>form_url = url l, form_name = link_name l, form_description = description l,
                      form_category = select_value opts (categoryId l), form_link_id = link_id l\<rparr>
         | None \<Rightarrow> \<lparr>form_url = [], form_name = [], form_description = [],
                     form_category = (case panel_categories s of [] \<Rightarrow> [] | c # _ \<Rightarrow> cat_id c),
                     form_link_id = []\<rparr>)"

text \<open>Lines 591--604 and 606--619.\<close>

definition category_modal :: "category option \<Rightarrow> category_form" where
  "category_modal data =
     (case data of Some c \<Rightarrow> \<lparr>form_cat_name = cat_name c, form_cat_id = cat_id c\<rparr>
      | None \<Rightarrow> \<lparr>form_cat_name = [], form_cat_id = []\<rparr>)"

definition panel_modal :: "panel option \<Rightarrow> panel_form" where
  "panel_modal data =
     (case data of Some p \<Rightarrow> \<lparr>form_panel_name = panel_name p, form_panel_id = panel_id p\<rparr>
      | None \<Rightarrow> \<lparr>form_panel_name = [], form_panel_id = []\<rparr>)"

text \<open>A link as \<open>handleLinkSubmit\<close> stores one: name and description trimmed, the url
  trimmed and starting with \<open>http://\<close> or \<open>https://\<close>.\<close>

definition link_normal :: "link \<Rightarrow> bool" where
  "link_normal l \<longleftrightarrow> js_trim (link_name l) = link_name l \<and> js_trim (description l) = description l \<and>
     normalize_url (url l) = url l"

subsection \<open>Trimming\<close>

lemma rev_dropWhile_rev_prefix: "rev (dropWhile P (rev u)) @ rev (takeWhile P (rev u)) = u"
  by (simp only: rev_append [symmetric] takeWhile_dropWhile_id rev_rev_ident)

lemma js_trim_trimmed:
  "js_trim s = [] \<or> (\<not> js_ws (hd (js_trim s)) \<and> \<not> js_ws (last (js_trim s)))"
proof (cases "js_trim s = []")
  case False
  let ?u = "dropWhile js_ws s"
  have t: "js_trim s = rev (dropWhile js_ws (rev ?u))" by (simp add: js_trim_def)
  have ne: "dropWhile js_ws (rev ?u) \<noteq> []" using False t by auto
  have "last (js_trim s) = hd (dropWhile js_ws (rev ?u))" using t ne by (simp add: last_rev)
  then have l: "\<not> js_ws (last (js_trim s))" using hd_dropWhile [OF ne] by simp
  have z: "js_trim s @ rev (takeWhile js_ws (rev ?u)) = ?u"
    using t rev_dropWhile_rev_prefix [of js_ws ?u] by simp
  then have h: "hd ?u = hd (js_trim s)" using hd_append2 [OF False] by metis
  have "?u \<noteq> []"
  proof
    assume "?u = []"
    with z have "js_trim s = []" by simp
    with False show False ..
  qed
  with h have "\<not> js_ws (hd (js_trim s))" using hd_dropWhile [of js_ws s] by simp
  with l show ?thesis by simp
qed simp

lemma js_trim_id_iff: "js_trim s = s \<longleftrightarrow> s = [] \<or> (\<not> js_ws (hd s) \<and> \<not> js_ws (last s))"
proof
  assume "js_trim s = s"
  then show "s = [] \<or> (\<not> js_ws (hd s) \<and> \<not> js_ws (last s))" using js_trim_trimmed [of s] by simp
next
  assume a: "s = [] \<or> (\<not> js_ws (hd s) \<and> \<not> js_ws (last s))"
  show "js_trim s = s"
  proof (cases s rule: rev_cases)
    case (snoc ys y)
    with a have "\<not> js_ws (hd s)" "\<not> js_ws y" by auto
    moreover have "dropWhile js_ws s = s" using \<open>\<not> js_ws (hd s)\<close> snoc by (cases ys) auto
    ultimately show ?thesis using snoc by (simp add: js_trim_def)
  qed (simp add: js_trim_def)
qed

lemma js_trim_idem [simp]: "js_trim (js_trim s) = js_trim s"
  using js_trim_trimmed [of s] js_trim_id_iff [of "js_trim s"] by simp

lemma js_trim_https: "js_trim (''https://'' @ js_trim r) = ''https://'' @ js_trim r"
proof -
  have "\<not> js_ws (last (''https://'' @ js_trim r))"
  proof (cases "js_trim r = []")
    case True
    then show ?thesis by (simp add: js_ws_def)
  next
    case False
    with js_trim_trimmed [of r] have "\<not> js_ws (last (js_trim r))" by simp
    with False show ?thesis by (simp add: last_append)
  qed
  moreover have "\<not> js_ws (hd (''https://'' @ js_trim r))" by (simp add: js_ws_def)
  ultimately show ?thesis using js_trim_id_iff by blast
qed

lemma normalize_url_idem: "normalize_url (normalize_url r) = normalize_url r"
proof (cases "js_startsWith (js_trim r) ''http://'' \<or> js_startsWith (js_trim r) ''https://''")
  case True
  then show ?thesis by (simp add: normalize_url_def Let_def)
next
  case False
  have s: "js_startsWith (''https://'' @ js_trim r) ''https://''" by (simp add: js_startsWith_def)
  from False have n: "normalize_url r = ''https://'' @ js_trim r" by (simp add: normalize_url_def Let_def)
  have "normalize_url (''https://'' @ js_trim r) = ''https://'' @ js_trim r"
    unfolding normalize_url_def Let_def js_trim_https by (simp only: s simp_thms if_True)
  with n show ?thesis by simp
qed

subsection \<open>Properties\<close>

text \<open>C15: every link \<open>handleLinkSubmit\<close> writes is in normal form, whatever the user typed:
  the links of the result are the old ones and at most one new or replaced link with
  trimmed name and description and a trimmed url that starts with \<open>http://\<close> or
  \<open>https://\<close>.\<close>

theorem handleLinkSubmit_normal:
  "\<forall>l\<in>set (links (handleLinkSubmit f newId s)). l \<in> set (links s) \<or> link_normal l"
proof -
  let ?r = "\<lambda>i. \<lparr>link_id = i, link_name = js_trim (form_name f), description = js_trim (form_description f),
             url = normalize_url (form_url f), categoryId = form_category f\<rparr>"
  have n: "link_normal (?r i)" for i by (simp add: link_normal_def normalize_url_idem)
  have "set (links (handleLinkSubmit f newId s)) \<subseteq> insert (?r (form_link_id f)) (set (links s)) \<or>
        set (links (handleLinkSubmit f newId s)) \<subseteq> insert (?r newId) (set (links s))"
    by (auto simp: handleLinkSubmit_def Let_def js_push_def dest: set_update_key_subset [THEN subsetD])
  with n show ?thesis by blast
qed

text \<open>C16: opening the edit dialog of a link and saving it unchanged changes no link, for
  every link in normal form with a non-empty id whose category is offered by the select.\<close>

theorem edit_link_unchanged:
  assumes d: "distinct (link_ids s)" and l: "l \<in> set (links s)" and i: "link_id l \<noteq> []"
    and n: "link_normal l" and c: "categoryId l \<in> set (map cat_id (panel_categories s))"
  shows "links (handleLinkSubmit (link_modal s (Some l)) newId s) = links s"
proof -
  obtain k where k: "k < length (links s)" "links s ! k = l" using l by (auto simp: in_set_conv_nth)
  have idx: "js_findIndex (\<lambda>x. link_id x = link_id l) (links s) = int k"
    using js_findIndex_key [OF d k(1)] k(2) by simp
  have sel: "select_value (updateCategorySelect s) (categoryId l) = categoryId l"
    using c by (simp add: select_value_def updateCategorySelect_def comp_def)
  have r: "\<lparr>link_id = link_id l, link_name = js_trim (link_name l), description = js_trim (description l),
            url = normalize_url (url l), categoryId = categoryId l\<rparr> = l"
    using n by (simp add: link_normal_def)
  have u: "(links s)[k := l] = links s" using k(2) list_update_id [of "links s" k] by simp
  show ?thesis
    using idx sel r i u by (simp add: handleLinkSubmit_def link_modal_def Let_def)
qed

subsection \<open>Witnesses\<close>

theorem handleLinkSubmit_normal_witness:
  "links (handleLinkSubmit \<lparr>form_url = '' example.org '', form_name = '' Ex'', form_description = ''d '', form_category = ''c1'', form_link_id = []\<rparr> ''n'' ex_dash) =
     links ex_dash @ [\<lparr>link_id = ''n'', link_name = ''Ex'', description = ''d'', url = ''https://example.org'', categoryId = ''c1''\<rparr>] \<and>
   link_normal \<lparr>link_id = ''n'', link_name = ''Ex'', description = ''d'', url = ''https://example.org'', categoryId = ''c1''\<rparr>"
proof -
  let ?f = "\<lparr>form_url = '' example.org '', form_name = '' Ex'', form_description = ''d '', form_category = ''c1'', form_link_id = []\<rparr>"
  let ?l = "\<lparr>link_id = ''n'', link_name = ''Ex'', description = ''d'', url = ''https://example.org'', categoryId = ''c1''\<rparr>"
  have r: "links (handleLinkSubmit ?f ''n'' ex_dash) = links ex_dash @ [?l]"
    by (simp add: handleLinkSubmit_def Let_def js_push_def normalize_url_def js_trim_def js_ws_def js_startsWith_def)
  have nl: "?l \<notin> set (links ex_dash)" by (simp add: ex_defs)
  from handleLinkSubmit_normal [of ?f "''n''" ex_dash] r nl have "link_normal ?l" by simp
  with r show ?thesis by simp
qed

theorem edit_link_unchanged_witness:
  "distinct (link_ids ex_dash) \<and> ex_link ''l1'' ''c1'' \<in> set (links ex_dash) \<and>
   link_normal (ex_link ''l1'' ''c1'') \<and> ''c1'' \<in> set (map cat_id (panel_categories ex_dash)) \<and>
   links (handleLinkSubmit (link_modal ex_dash (Some (ex_link ''l1'' ''c1''))) ''n'' ex_dash) = links ex_dash"
proof -
  have d: "distinct (link_ids ex_dash)" by (simp add: ex_defs)
  have l: "ex_link ''l1'' ''c1'' \<in> set (links ex_dash)" by (simp add: ex_dash_def)
  have i: "link_id (ex_link ''l1'' ''c1'') \<noteq> []" by (simp add: ex_link_def)
  have n: "link_normal (ex_link ''l1'' ''c1'')"
    by (simp add: link_normal_def ex_link_def js_trim_def js_ws_def normalize_url_def js_startsWith_def Let_def)
  have c: "categoryId (ex_link ''l1'' ''c1'') \<in> set (map cat_id (panel_categories ex_dash))"
    by (simp add: ex_defs panel_categories_def)
  from edit_link_unchanged [OF d l i n c, of "''n''"] d l n c show ?thesis by (simp add: ex_link_def)
qed

end
