(* ===== verification/DragDrop.thy ===== *)
theory DragDrop
  imports Model
begin

text \<open>
  Drag and drop of \<^verbatim>\<open>src/Dashboard/script.js\<close>, lines 379--489: the module
  variables \<open>draggedItem\<close> and \<open>dragType\<close> (lines 8--9), the \<open>draggable\<close>
  attributes the handle listeners set and clear (lines 382--392), the \<open>dragstart\<close>
  and \<open>dragend\<close> listeners (lines 394--418) and the \<open>drop\<close> listener (lines 444--489),
  which reorders categories and reorders or reparents links with \<open>findIndex\<close> and
  \<open>splice\<close> on the flat arrays. The \<open>dragover\<close> listener (lines 420--442) only
  highlights and is not modelled.

  A DOM element of the dashboard is named by its kind and its \<open>data-id\<close>; the point
  where the pointer is released is named by the link element and the category element
  that \<open>closest\<close> finds from it. A thrown exception is a value \<open>Inl (e, s)\<close>
  carrying the state as the handler left it.
\<close>

datatype drag_kind = DragCategory | DragLink

text \<open>
  A category element, a link element, or an element \<open>renderDashboard\<close> has removed
  from the page (it keeps its \<open>data-id\<close>). The listeners compare elements by
  identity (\<open>dropTarget !== draggedItem\<close>), and a removed element is identical to no
  element of the page, whatever its id.
\<close>

datatype elem = CatElem ident | LinkElem ident | Detached elem

fun elem_id :: "elem \<Rightarrow> ident" where
  "elem_id (CatElem i) = i"
| "elem_id (LinkElem i) = i"
| "elem_id (Detached e) = elem_id e"

text \<open>What becomes of a reference to an element when the dashboard is rebuilt.\<close>

fun detached :: "elem \<Rightarrow> elem" where
  "detached (Detached e) = Detached e"
| "detached e = Detached e"

record dragvars =
  draggedItem :: "elem option"
  dragType :: "drag_kind option"

definition no_drag :: dragvars where
  "no_drag = \<lparr>draggedItem = None, dragType = None\<rparr>"

text \<open>
  Where the drop lands: inside link element \<open>l\<close> of category element \<open>c\<close>,
  elsewhere inside category element \<open>c\<close>, or outside every category.
\<close>

datatype drop_target = OnLink ident ident | OnCategory ident | Outside

text \<open>\<open>e.target.closest('.link-item')\<close> and \<open>e.target.closest('.category')\<close>.\<close>

fun closest_link :: "drop_target \<Rightarrow> ident option" where
  "closest_link (OnLink l c) = Some l"
| "closest_link (OnCategory c) = None"
| "closest_link Outside = None"

fun closest_category :: "drop_target \<Rightarrow> ident option" where
  "closest_category (OnLink l c) = Some c"
| "closest_category (OnCategory c) = Some c"
| "closest_category Outside = None"

text \<open>
  \<open>TypeError\<close>: a property of \<open>undefined\<close> is read or written.
  \<open>UndefinedSaved\<close>: \<open>undefined\<close> was spliced into the categories and saved.
  \<open>UndefinedLink\<close> is not an exception: the link branch spliced \<open>undefined\<close> into the
  empty links array (\<open>links = [undefined]\<close>) and \<open>saveData()\<close> wrote it as
  \<open>[null]\<close>; the state that goes with it is the saved one, whose links array holds no
  link, and the caller records the \<open>undefined\<close> element.
\<close>

datatype drop_error = TypeError | UndefinedSaved | UndefinedLink

subsection \<open>Arming, \<open>dragstart\<close>, \<open>dragend\<close>\<close>

text \<open>Lines 382--388: a press on the drag handle of element \<open>e\<close> makes \<open>e\<close> draggable.\<close>

definition mousedown :: "elem option \<Rightarrow> elem set \<Rightarrow> elem set" where
  "mousedown handle armed = (case handle of Some e \<Rightarrow> insert e armed | None \<Rightarrow> armed)"

text \<open>Lines 390--392: every \<open>[draggable=true]\<close> element loses the attribute.\<close>

definition mouseup :: "elem set \<Rightarrow> elem set" where
  "mouseup armed = {}"

text \<open>
  Lines 394--406: \<open>tgt\<close> is \<open>e.target\<close> when it is a category or link element,
  \<open>None\<close> for any other target (an image inside a link, for instance).
\<close>

definition dragstart :: "elem option \<Rightarrow> dragvars \<Rightarrow> dragvars" where
  "dragstart tgt d =
     (case tgt of
        Some (CatElem c) \<Rightarrow> \<lparr>draggedItem = Some (CatElem c), dragType = Some DragCategory\<rparr>
      | Some (LinkElem l) \<Rightarrow> \<lparr>draggedItem = Some (LinkElem l), dragType = Some DragLink\<rparr>
      | Some (Detached e) \<Rightarrow> d
      | None \<Rightarrow> d)"

text \<open>Lines 408--418.\<close>

definition dragend :: "dragvars \<Rightarrow> elem set \<Rightarrow> dragvars \<times> elem set" where
  "dragend d armed =
     (case draggedItem d of
        Some e \<Rightarrow> (no_drag, armed - {e})
      | None \<Rightarrow> (d, armed))"

subsection \<open>\<open>drop\<close>, lines 444--489\<close>

text \<open>Category branch, lines 451--461: remove the dragged category, reinsert it before
  the target's index recomputed after the removal, save.\<close>

definition dropCategory :: "ident \<Rightarrow> ident \<Rightarrow> dash \<Rightarrow> (drop_error \<times> dash) + dash" where
  "dropCategory draggedId targetId s =
     (let draggedIdx = js_findIndex (\<lambda>c. cat_id c = draggedId) (categories s)
      in case js_splice_remove (categories s) draggedIdx of
           (Some removed, cs) \<Rightarrow>
             (let targetIdx = js_findIndex (\<lambda>c. cat_id c = targetId) cs
              in Inr (saveData (s\<lparr>categories := js_splice_insert cs targetIdx removed\<rparr>)))
         | (None, cs) \<Rightarrow> Inl (UndefinedSaved, s))"

text \<open>\<open>dropLink && dropLink !== draggedItem\<close>: the target link, unless it is the
  dragged element itself.\<close>

definition dropLinkTarget :: "elem \<Rightarrow> drop_target \<Rightarrow> ident option" where
  "dropLinkTarget el t =
     (case closest_link t of
        Some l \<Rightarrow> (if LinkElem l \<noteq> el then Some l else None)
      | None \<Rightarrow> None)"

text \<open>Link branch, lines 464--487: the dragged link is removed first, unconditionally;
  then it goes before the target link (taking the target's category), or to the end of
  the array (taking the category it was dropped in), or back to its old index.\<close>

definition dropLink :: "elem \<Rightarrow> drop_target \<Rightarrow> dash \<Rightarrow> (drop_error \<times> dash) + dash" where
  "dropLink el t s =
     (let draggedIdx = js_findIndex (\<lambda>l. link_id l = elem_id el) (links s);
          (removedLink, ls) = js_splice_remove (links s) draggedIdx;
          s1 = s\<lparr>links := ls\<rparr>
      in case dropLinkTarget el t of
           Some targetId \<Rightarrow>
             (case (removedLink, find (\<lambda>l. link_id l = targetId) ls) of
                (Some r, Some targetLink) \<Rightarrow>
                  (let newTargetIdx = js_findIndex (\<lambda>l. link_id l = targetId) ls
                   in Inr (saveData (s1\<lparr>links :=
                        js_splice_insert ls newTargetIdx (r\<lparr>categoryId := categoryId targetLink\<rparr>)\<rparr>)))
              | _ \<Rightarrow> Inl (TypeError, s1))
         | None \<Rightarrow>
             (case closest_category t of
                Some targetCatId \<Rightarrow>
                  (case removedLink of
                     Some r \<Rightarrow> Inr (saveData (s1\<lparr>links := js_push ls (r\<lparr>categoryId := targetCatId\<rparr>)\<rparr>))
                   | None \<Rightarrow> Inl (TypeError, s1))
              | None \<Rightarrow>
                  (case removedLink of
                     Some r \<Rightarrow> Inr (saveData (s1\<lparr>links := js_splice_insert ls draggedIdx r\<rparr>))
                   | None \<Rightarrow> Inl (UndefinedLink, saveData s1))))"

definition drop :: "dragvars \<Rightarrow> drop_target \<Rightarrow> dash \<Rightarrow> (drop_error \<times> dash) + dash" where
  "drop d t s =
     (case draggedItem d of
        None \<Rightarrow> Inr s
      | Some el \<Rightarrow>
          (case dragType d of
             Some DragCategory \<Rightarrow>
               (case closest_category t of
                  Some targetId \<Rightarrow>
                    (if CatElem targetId \<noteq> el then dropCategory (elem_id el) targetId s else Inr s)
                | None \<Rightarrow> Inr s)
           | Some DragLink \<Rightarrow> dropLink el t s
           | None \<Rightarrow> Inr s))"

text \<open>Whether the listener reaches \<open>renderDashboard()\<close> (lines 461, 487), which
  rebuilds every element of the dashboard.\<close>

definition drop_renders :: "dragvars \<Rightarrow> drop_target \<Rightarrow> bool" where
  "drop_renders d t =
     (case draggedItem d of
        None \<Rightarrow> False
      | Some el \<Rightarrow>
          (case dragType d of
             Some DragCategory \<Rightarrow>
               (case closest_category t of Some targetId \<Rightarrow> CatElem targetId \<noteq> el | None \<Rightarrow> False)
           | Some DragLink \<Rightarrow> True
           | None \<Rightarrow> False))"

subsection \<open>Reordering and reparenting\<close>

lemma elem_id_detached [simp]: "elem_id (detached e) = elem_id e"
  by (cases e) simp_all


lemma drop_category_eq:
  "draggedItem d = Some (CatElem a) \<Longrightarrow> dragType d = Some DragCategory \<Longrightarrow>
   closest_category t = Some b \<Longrightarrow> a \<noteq> b \<Longrightarrow> drop d t s = dropCategory a b s"
  by (simp add: drop_def)

text \<open>C7: dropping category \<open>A\<close> onto another category \<open>B\<close> succeeds, leaves
  \<open>A\<close> immediately before \<open>B\<close>, and keeps every other category in its relative
  order; panels, links and the current panel are unchanged.\<close>

theorem drop_category_moves_before:
  assumes d: "distinct (cat_ids s)" and A: "A \<in> set (categories s)" and B: "B \<in> set (categories s)"
    and ne: "cat_id A \<noteq> cat_id B"
    and dv: "draggedItem d = Some (CatElem (cat_id A))" "dragType d = Some DragCategory"
    and t: "closest_category t = Some (cat_id B)"
  shows "\<exists>s'. drop d t s = Inr s' \<and>
           (\<exists>us vs. categories s' = us @ A # B # vs) \<and>
           filter (\<lambda>c. cat_id c \<noteq> cat_id A) (categories s') =
             filter (\<lambda>c. cat_id c \<noteq> cat_id A) (categories s) \<and>
           panels s' = panels s \<and> links s' = links s \<and> currentPanelId s' = currentPanelId s"
proof -
  let ?rest = "filter (\<lambda>c. cat_id c \<noteq> cat_id A) (categories s)"
  have rm: "js_splice_remove (categories s) (js_findIndex (\<lambda>c. cat_id c = cat_id A) (categories s)) =
      (Some A, ?rest)"
    using d A by (rule splice_remove_by_key)
  obtain us vs where ins: "js_splice_insert ?rest (js_findIndex (\<lambda>c. cat_id c = cat_id B) ?rest) A =
      us @ A # B # vs"
    and flt: "filter (\<lambda>c. cat_id c \<noteq> cat_id A) (us @ A # B # vs) = ?rest"
    using move_before_by_key [OF d A B ne refl] by blast
  let ?s' = "saveData (s\<lparr>categories := us @ A # B # vs\<rparr>)"
  have "drop d t s = Inr ?s'"
    using dv t ne rm ins by (simp add: drop_category_eq dropCategory_def)
  moreover have "filter (\<lambda>c. cat_id c \<noteq> cat_id A) (categories ?s') = ?rest"
    using flt by simp
  ultimately show ?thesis by auto
qed


lemma drop_link_eq:
  "draggedItem d = Some el \<Longrightarrow> dragType d = Some DragLink \<Longrightarrow> drop d t s = dropLink el t s"
  by (simp add: drop_def)

text \<open>What every link drop does first: the dragged link leaves the array.\<close>

lemma dropLink_removed:
  assumes d: "distinct (link_ids s)" and L: "L \<in> set (links s)"
  shows "js_splice_remove (links s) (js_findIndex (\<lambda>l. link_id l = elem_id (LinkElem (link_id L))) (links s)) =
         (Some L, filter (\<lambda>l. link_id l \<noteq> link_id L) (links s))"
  using splice_remove_by_key [OF d L] by simp

text \<open>C6: dropping link \<open>L\<close> onto another link \<open>M\<close> gives \<open>L\<close> the category
  of \<open>M\<close>, puts it immediately before \<open>M\<close> in the flat array, and keeps every other
  link in its relative order (so the links left in \<open>L\<close>'s old category keep theirs).\<close>

theorem drop_link_reparent:
  assumes d: "distinct (link_ids s)" and L: "L \<in> set (links s)" and M: "M \<in> set (links s)"
    and ne: "link_id L \<noteq> link_id M"
    and dv: "draggedItem d = Some (LinkElem (link_id L))" "dragType d = Some DragLink"
  shows "\<exists>s'. drop d (OnLink (link_id M) c) s = Inr s' \<and>
           (\<exists>us vs. links s' = us @ L\<lparr>categoryId := categoryId M\<rparr> # M # vs) \<and>
           filter (\<lambda>l. link_id l \<noteq> link_id L) (links s') = filter (\<lambda>l. link_id l \<noteq> link_id L) (links s) \<and>
           panels s' = panels s \<and> categories s' = categories s \<and> currentPanelId s' = currentPanelId s"
proof -
  let ?rest = "filter (\<lambda>l. link_id l \<noteq> link_id L) (links s)"
  let ?L' = "L\<lparr>categoryId := categoryId M\<rparr>"
  have fnd: "find (\<lambda>l. link_id l = link_id M) ?rest = Some M"
    using d M ne by (intro find_by_key) auto
  obtain us vs where ins: "js_splice_insert ?rest (js_findIndex (\<lambda>l. link_id l = link_id M) ?rest) ?L' =
      us @ ?L' # M # vs"
    and flt: "filter (\<lambda>l. link_id l \<noteq> link_id L) (us @ ?L' # M # vs) = ?rest"
    using move_before_by_key [OF d L M ne, of ?L'] by auto
  let ?s' = "saveData (s\<lparr>links := us @ ?L' # M # vs\<rparr>)"
  have "drop d (OnLink (link_id M) c) s = Inr ?s'"
    using dv ne ins fnd dropLink_removed [OF d L]
    by (simp add: drop_link_eq dropLink_def dropLinkTarget_def)
  moreover have "filter (\<lambda>l. link_id l \<noteq> link_id L) (links ?s') = ?rest"
    using flt by simp
  ultimately show ?thesis by auto
qed

text \<open>C32: dropping link \<open>L\<close> on the background of category \<open>c\<close> makes \<open>c\<close> its
  category and moves \<open>L\<close> to the end of the whole links array.\<close>

theorem drop_link_on_category:
  assumes d: "distinct (link_ids s)" and L: "L \<in> set (links s)"
    and dv: "draggedItem d = Some (LinkElem (link_id L))" "dragType d = Some DragLink"
  shows "drop d (OnCategory c) s =
     Inr (saveData (s\<lparr>links := filter (\<lambda>l. link_id l \<noteq> link_id L) (links s) @ [L\<lparr>categoryId := c\<rparr>]\<rparr>))"
  using dv dropLink_removed [OF d L]
  by (simp add: drop_link_eq dropLink_def dropLinkTarget_def js_push_def)

text \<open>C31: dropping a link onto itself is not a no-op: the test against the dragged
  element sends the drop to the enclosing category, and the link moves to the end of the
  links array.\<close>

theorem drop_link_on_itself:
  assumes d: "distinct (link_ids s)" and L: "L \<in> set (links s)"
    and dv: "draggedItem d = Some (LinkElem (link_id L))" "dragType d = Some DragLink"
  shows "drop d (OnLink (link_id L) (categoryId L)) s =
     Inr (saveData (s\<lparr>links := filter (\<lambda>l. link_id l \<noteq> link_id L) (links s) @ [L]\<rparr>))"
  using dv dropLink_removed [OF d L]
  by (simp add: drop_link_eq dropLink_def dropLinkTarget_def js_push_def)

text \<open>C33: a link dropped outside every category goes back to its index: the array is
  unchanged, and saved again.\<close>

theorem drop_link_outside:
  assumes d: "distinct (link_ids s)" and L: "L \<in> set (links s)"
    and dv: "draggedItem d = Some (LinkElem (link_id L))" "dragType d = Some DragLink"
  shows "drop d Outside s = Inr (saveData s)"
proof -
  from L have "\<exists>x\<in>set (links s). link_id x = link_id L" by blast
  then obtain us v vs where xs: "links s = us @ v # vs" and v: "link_id v = link_id L"
    and idx: "js_findIndex (\<lambda>x. link_id x = link_id L) (links s) = int (length us)"
    by (rule js_findIndex_split)
  have "js_splice_insert (us @ vs) (int (length us)) v = links s"
    using xs by (simp add: js_splice_insert_split)
  with dv xs idx show ?thesis
    by (simp add: drop_link_eq dropLink_def dropLinkTarget_def js_splice_remove_split)
qed


text \<open>C34: dropping a category onto itself changes nothing, storage included.\<close>

theorem drop_category_on_itself:
  assumes dv: "draggedItem d = Some (CatElem (cat_id A))" "dragType d = Some DragCategory"
    and t: "closest_category t = Some (cat_id A)"
  shows "drop d t s = Inr s"
  using dv t by (simp add: drop_def)

text \<open>C35: dropping a category onto its immediate successor leaves the order as it was,
  so repeating the gesture never drifts.\<close>

theorem drop_category_onto_successor:
  assumes d: "distinct (cat_ids s)" and cs: "categories s = us @ A # B # vs"
    and dv: "draggedItem d = Some (CatElem (cat_id A))" "dragType d = Some DragCategory"
    and t: "closest_category t = Some (cat_id B)"
  shows "drop d t s = Inr (saveData s)"
proof -
  have A: "A \<in> set (categories s)" and ne: "cat_id A \<noteq> cat_id B"
    using d cs by auto
  have rest: "filter (\<lambda>c. cat_id c \<noteq> cat_id A) (categories s) = us @ B # vs"
    using d cs distinct_key_split [of cat_id us A "B # vs"] by simp
  have dr: "distinct (map cat_id (us @ B # vs))"
    using d cs by simp
  have idx: "js_findIndex (\<lambda>c. cat_id c = cat_id B) (us @ B # vs) = int (length us)"
    using js_findIndex_key [OF dr, of "length us"] by simp
  have ins: "js_splice_insert (us @ B # vs) (int (length us)) A = categories s"
    using cs by (simp add: js_splice_insert_split)
  show ?thesis
    using dv t ne splice_remove_by_key [OF d A] rest idx ins
    by (simp add: drop_category_eq dropCategory_def)
qed

subsection \<open>The invariant\<close>


lemma wf_links_reinsert:
  assumes wf: "wf_dash s" and rm: "js_splice_remove (links s) i = (Some r, ls)"
    and idr: "link_id r' = link_id r" and cr: "categoryId r' \<in> set (cat_ids s)"
    and ys: "mset ys = add_mset r' (mset ls)"
  shows "wf_dash (saveData (s\<lparr>links := ys\<rparr>))"
proof (rule wf_dash_perm [OF wf])
  have m: "mset (links s) = add_mset r (mset ls)" using rm by (rule mset_js_splice_remove)
  then show "mset (link_ids (saveData (s\<lparr>links := ys\<rparr>))) = mset (link_ids s)"
    using ys idr by simp
  have "set ls \<subseteq> set (links s)" using set_js_splice_remove [OF rm] by blast
  then have "categoryId ` set ls \<subseteq> categoryId ` set (links s)" by (rule image_mono)
  also have "\<dots> \<subseteq> set (cat_ids s)"
    using wf by (simp add: wf_dash_def refs_ok_def)
  finally have sub: "categoryId ` set ls \<subseteq> set (cat_ids s)" .
  have "set ys = insert r' (set ls)"
  proof -
    have "set_mset (mset ys) = set_mset (add_mset r' (mset ls))" using ys by simp
    then show ?thesis by simp
  qed
  with sub cr show "set (map categoryId (links (saveData (s\<lparr>links := ys\<rparr>)))) \<subseteq> set (cat_ids s)"
    by simp
qed simp_all

lemma dropCategory_wf:
  assumes wf: "wf_dash s" and r: "dropCategory a b s = Inr s'"
  shows "wf_dash s'"
proof -
  obtain x cs where rm: "js_splice_remove (categories s) (js_findIndex (\<lambda>c. cat_id c = a) (categories s)) = (x, cs)"
    by fastforce
  with r obtain c where x: "x = Some c"
    and s': "s' = saveData (s\<lparr>categories := js_splice_insert cs (js_findIndex (\<lambda>c. cat_id c = b) cs) c\<rparr>)"
    by (cases x) (auto simp: dropCategory_def)
  have "mset (categories s) = add_mset c (mset cs)" using rm x by (simp add: mset_js_splice_remove)
  moreover have "set (map categoryId (links s)) \<subseteq> set (cat_ids s)"
    using wf by (simp add: wf_dash_def refs_ok_def)
  ultimately show ?thesis using s'
    by (intro wf_dash_perm [OF wf]) simp_all
qed

lemma dropLink_wf:
  assumes wf: "wf_dash s"
    and tgt: "case closest_category t of Some c \<Rightarrow> c \<in> set (cat_ids s) | None \<Rightarrow> True"
    and r: "dropLink el t s = Inr s'"
  shows "wf_dash s'"
proof -
  obtain x ls where rm: "js_splice_remove (links s) (js_findIndex (\<lambda>l. link_id l = elem_id el) (links s)) = (x, ls)"
    by fastforce
  with r obtain l where x: "x = Some l"
    by (cases x) (auto simp: dropLink_def Let_def split: option.splits prod.splits)
  have sub: "set ls \<subseteq> set (links s)"
    using set_js_splice_remove [OF rm [unfolded x]] by blast
  note reins = wf_links_reinsert [OF wf rm [unfolded x]]
  show ?thesis
  proof (cases "dropLinkTarget el t")
    case (Some tid)
    with r rm x obtain tl where tl: "find (\<lambda>l. link_id l = tid) ls = Some tl"
      and s': "s' = saveData (s\<lparr>links := js_splice_insert ls (js_findIndex (\<lambda>l. link_id l = tid) ls)
                   (l\<lparr>categoryId := categoryId tl\<rparr>)\<rparr>)"
      by (auto simp: dropLink_def Let_def split: option.splits)
    from tl sub have "tl \<in> set (links s)" by (auto simp: find_Some_iff)
    with wf have "categoryId tl \<in> set (cat_ids s)" unfolding wf_defs by auto
    then show ?thesis unfolding s' by (intro reins) simp_all
  next
    case None
    show ?thesis
    proof (cases "closest_category t")
      case (Some c)
      with None r rm x have s': "s' = saveData (s\<lparr>links := js_push ls (l\<lparr>categoryId := c\<rparr>)\<rparr>)"
        by (simp add: dropLink_def Let_def)
      from Some tgt have "c \<in> set (cat_ids s)" by simp
      then show ?thesis unfolding s' by (intro reins) (simp_all add: js_push_def)
    next
      case cNone: None
      with None r rm x have s': "s' = saveData (s\<lparr>links := js_splice_insert ls
          (js_findIndex (\<lambda>l. link_id l = elem_id el) (links s)) l\<rparr>)"
        by (simp add: dropLink_def Let_def)
      have "l \<in> set (links s)"
        using set_js_splice_remove [OF rm [unfolded x]] by blast
      with wf have "categoryId l \<in> set (cat_ids s)" unfolding wf_defs by auto
      then show ?thesis unfolding s' by (intro reins) simp_all
    qed
  qed
qed

theorem drop_wf:
  assumes wf: "wf_dash s"
    and tgt: "case closest_category t of Some c \<Rightarrow> c \<in> set (cat_ids s) | None \<Rightarrow> True"
    and r: "drop d t s = Inr s'"
  shows "wf_dash s'"
proof (cases "draggedItem d")
  case None
  with r wf show ?thesis by (simp add: drop_def)
next
  case (Some el)
  show ?thesis
  proof (cases "dragType d")
    case None
    with Some r wf show ?thesis by (simp add: drop_def)
  next
    case (Some k)
    note el = \<open>draggedItem d = Some el\<close>
    show ?thesis
    proof (cases k)
      case DragLink
      with el Some r have "dropLink el t s = Inr s'" by (simp add: drop_def)
      with wf tgt show ?thesis by (rule dropLink_wf)
    next
      case DragCategory
      show ?thesis
      proof (cases "closest_category t")
        case None
        with el Some DragCategory r wf show ?thesis by (simp add: drop_def)
      next
        case (Some b)
        show ?thesis
        proof (cases "CatElem b = el")
          case True
          with el \<open>dragType d = Some k\<close> DragCategory Some r wf show ?thesis by (simp add: drop_def)
        next
          case False
          with el \<open>dragType d = Some k\<close> DragCategory Some r
          have "dropCategory (elem_id el) b s = Inr s'" by (simp add: drop_def)
          with wf show ?thesis by (rule dropCategory_wf)
        qed
      qed
    qed
  qed
qed

lemma wf_links_splice_remove:
  assumes wf: "wf_dash s" and r: "js_splice_remove (links s) i = (x, ls)"
  shows "wf_dash (s\<lparr>links := ls\<rparr>)"
proof -
  have "distinct (map link_id ls)" using r wf by (intro distinct_map_splice_remove [OF r]) (simp add: wf_defs)
  moreover have "categoryId ` set ls \<subseteq> set (cat_ids s)"
  proof -
    have "categoryId ` set ls \<subseteq> categoryId ` set (links s)"
      using set_splice_remove_subset [OF r] by (rule image_mono)
    also have "\<dots> \<subseteq> set (cat_ids s)" using wf by (simp add: wf_dash_def refs_ok_def)
    finally show ?thesis .
  qed
  moreover have "link_id ` set ls \<subseteq> link_id ` set (links s)"
    using set_splice_remove_subset [OF r] by (rule image_mono)
  ultimately show ?thesis using wf unfolding wf_defs by auto
qed

text \<open>A listener that throws leaves a well-formed state: the only partial update is the
  removal of the dragged link.\<close>

lemma drop_threw_wf:
  assumes wf: "wf_dash s" and r: "drop d t s = Inl (e, s1)"
  shows "wf_dash s1"
proof -
  have cat: "dropCategory a b s = Inl (e, s1) \<Longrightarrow> wf_dash s1" for a b
    using wf by (auto simp: dropCategory_def Let_def split: option.splits prod.splits)
  have lnk: "dropLink el t s = Inl (e, s1) \<Longrightarrow> wf_dash s1" for el
  proof -
    assume l: "dropLink el t s = Inl (e, s1)"
    obtain x ls where rm: "js_splice_remove (links s) (js_findIndex (\<lambda>l. link_id l = elem_id el) (links s)) = (x, ls)"
      by fastforce
    with l have "s1 = s\<lparr>links := ls\<rparr> \<or> s1 = saveData (s\<lparr>links := ls\<rparr>)"
      by (auto simp: dropLink_def Let_def split: option.splits prod.splits)
    with wf_links_splice_remove [OF wf rm] show ?thesis by (auto simp: wf_saveData)
  qed
  from r show ?thesis
    using wf cat lnk by (auto simp: drop_def split: option.splits drag_kind.splits if_splits)
qed

text \<open>The drop that puts \<open>undefined\<close> into the links array: a link drag whose
  \<open>findIndex\<close>/\<open>splice\<close> found nothing to remove, so the array was empty, dropped
  outside every category; the listener saves the (otherwise unchanged) state.\<close>

lemma drop_UndefinedLink:
  assumes "drop d t s = Inl (UndefinedLink, s1)"
  shows "links s = [] \<and> s1 = saveData s \<and> dragType d = Some DragLink \<and> closest_category t = None"
proof -
  obtain el where el: "draggedItem d = Some el" "dragType d = Some DragLink"
    using assms by (auto simp: drop_def dropCategory_def Let_def
        split: option.splits drag_kind.splits if_splits prod.splits)
  then have l: "dropLink el t s = Inl (UndefinedLink, s1)" using assms by (simp add: drop_link_eq)
  obtain x ls where rm: "js_splice_remove (links s) (js_findIndex (\<lambda>l. link_id l = elem_id el) (links s)) = (x, ls)"
    by fastforce
  with l have "x = None" "s1 = saveData (s\<lparr>links := ls\<rparr>)" "closest_category t = None"
    by (auto simp: dropLink_def Let_def split: option.splits prod.splits)
  moreover from rm \<open>x = None\<close> have "links s = []" "ls = links s"
    using js_splice_remove_findIndex_None js_splice_remove_None by blast+
  ultimately show ?thesis using el by simp
qed

text \<open>A drop that completes changes neither the panels nor the current panel, and either
  changes nothing or ends with \<open>saveData()\<close>.\<close>

lemma drop_Inr_shape:
  assumes "drop d t s = Inr s'"
  shows "panels s' = panels s \<and> currentPanelId s' = currentPanelId s \<and>
         ls_current_panel (storage s') = ls_current_panel (storage s) \<and>
         (s' = s \<or> s' = saveData s')"
  using assms
  by (auto simp: drop_def dropCategory_def dropLink_def Let_def saveData_def
      split: option.splits drag_kind.splits if_splits prod.splits)

subsection \<open>Witnesses\<close>

lemma ex_distinct_ids: "distinct (cat_ids ex_dash)" "distinct (link_ids ex_dash)"
  by (simp_all add: ex_defs)

theorem drop_category_moves_before_witness:
  "ex_cat3 \<in> set (categories ex_dash) \<and> ex_cat1 \<in> set (categories ex_dash) \<and>
   (\<exists>s'. drop (dragstart (Some (CatElem ''c3'')) no_drag) (OnCategory ''c1'') ex_dash = Inr s' \<and>
         (\<exists>us vs. categories s' = us @ ex_cat3 # ex_cat1 # vs))"
proof -
  let ?d = "dragstart (Some (CatElem ''c3'')) no_drag"
  have A: "ex_cat3 \<in> set (categories ex_dash)" and B: "ex_cat1 \<in> set (categories ex_dash)"
    by (simp_all add: ex_dash_def)
  have ne: "cat_id ex_cat3 \<noteq> cat_id ex_cat1" by (simp add: ex_defs)
  have d1: "draggedItem ?d = Some (CatElem (cat_id ex_cat3))" and d2: "dragType ?d = Some DragCategory"
    by (simp_all add: dragstart_def ex_cat3_def)
  have t: "closest_category (OnCategory ''c1'') = Some (cat_id ex_cat1)" by (simp add: ex_cat1_def)
  from drop_category_moves_before [OF ex_distinct_ids(1) A B ne d1 d2 t] A B
  show ?thesis by blast
qed

theorem drop_link_reparent_witness:
  "(\<exists>s'. drop (dragstart (Some (LinkElem ''l1'')) no_drag) (OnLink ''l2'' ''c2'') ex_dash = Inr s' \<and>
         (\<exists>us vs. links s' = us @ ex_link ''l1'' ''c2'' # ex_link ''l2'' ''c2'' # vs))"
proof -
  let ?d = "dragstart (Some (LinkElem ''l1'')) no_drag"
  have L: "ex_link ''l1'' ''c1'' \<in> set (links ex_dash)" and M: "ex_link ''l2'' ''c2'' \<in> set (links ex_dash)"
    by (simp_all add: ex_dash_def)
  have ne: "link_id (ex_link ''l1'' ''c1'') \<noteq> link_id (ex_link ''l2'' ''c2'')" by (simp add: ex_link_def)
  have d1: "draggedItem ?d = Some (LinkElem (link_id (ex_link ''l1'' ''c1'')))"
    and d2: "dragType ?d = Some DragLink"
    by (simp_all add: dragstart_def ex_link_def)
  have "(ex_link ''l1'' ''c1'')\<lparr>categoryId := categoryId (ex_link ''l2'' ''c2'')\<rparr> = ex_link ''l1'' ''c2''"
    by (simp add: ex_link_def)
  moreover have "link_id (ex_link ''l2'' ''c2'') = ''l2''" by (simp add: ex_link_def)
  moreover note drop_link_reparent [OF ex_distinct_ids(2) L M ne d1 d2, of "''c2''"]
  ultimately show ?thesis by auto
qed

theorem drop_link_on_category_witness:
  "drop (dragstart (Some (LinkElem ''l1'')) no_drag) (OnCategory ''c3'') ex_dash =
     Inr (saveData (ex_dash\<lparr>links := [ex_link ''l2'' ''c2'', ex_link ''l3'' ''c3'', ex_link ''l4'' ''c1'',
                                        ex_link ''l1'' ''c3'']\<rparr>))"
proof -
  have L: "ex_link ''l1'' ''c1'' \<in> set (links ex_dash)" by (simp add: ex_dash_def)
  from drop_link_on_category [OF ex_distinct_ids(2) L,
      of "dragstart (Some (LinkElem ''l1'')) no_drag" "''c3''"]
  show ?thesis by (simp add: dragstart_def ex_defs)
qed

theorem drop_link_on_itself_witness:
  "drop (dragstart (Some (LinkElem ''l1'')) no_drag) (OnLink ''l1'' ''c1'') ex_dash =
     Inr (saveData (ex_dash\<lparr>links := [ex_link ''l2'' ''c2'', ex_link ''l3'' ''c3'', ex_link ''l4'' ''c1'',
                                        ex_link ''l1'' ''c1'']\<rparr>))"
proof -
  have L: "ex_link ''l1'' ''c1'' \<in> set (links ex_dash)" by (simp add: ex_dash_def)
  from drop_link_on_itself [OF ex_distinct_ids(2) L,
      of "dragstart (Some (LinkElem ''l1'')) no_drag"]
  show ?thesis by (simp add: dragstart_def ex_defs)
qed

theorem drop_link_outside_witness:
  "drop (dragstart (Some (LinkElem ''l3'')) no_drag) Outside ex_dash = Inr (saveData ex_dash)"
proof -
  have L: "ex_link ''l3'' ''c3'' \<in> set (links ex_dash)" by (simp add: ex_dash_def)
  from drop_link_outside [OF ex_distinct_ids(2) L,
      of "dragstart (Some (LinkElem ''l3'')) no_drag"]
  show ?thesis by (simp add: dragstart_def ex_link_def)
qed

theorem drop_category_on_itself_witness:
  "drop (dragstart (Some (CatElem ''c2'')) no_drag) (OnLink ''l2'' ''c2'') ex_dash = Inr ex_dash"
  using drop_category_on_itself [of "dragstart (Some (CatElem ''c2'')) no_drag" ex_cat2 "OnLink ''l2'' ''c2''" ex_dash]
  by (simp add: dragstart_def ex_cat2_def)

theorem drop_category_onto_successor_witness:
  "categories ex_dash = [ex_cat1] @ ex_cat2 # ex_cat3 # [] \<and>
   drop (dragstart (Some (CatElem ''c2'')) no_drag) (OnCategory ''c3'') ex_dash = Inr (saveData ex_dash)"
proof -
  have cs: "categories ex_dash = [ex_cat1] @ ex_cat2 # ex_cat3 # []" by (simp add: ex_dash_def)
  from drop_category_onto_successor [OF ex_distinct_ids(1) cs,
      of "dragstart (Some (CatElem ''c2'')) no_drag" "OnCategory ''c3''"] cs
  show ?thesis by (simp add: dragstart_def ex_defs)
qed

end
