(* ===== verification/Init.thy ===== *)
theory Init
  imports Model
begin

text \<open>
  Start-up of \<^verbatim>\<open>src/Dashboard/script.js\<close>: the module variables read from
  \<open>localStorage\<close> (lines 1--12) and \<open>init()\<close> (lines 40--79), which migrates legacy
  data, seeds an empty dashboard and repairs a stale current panel. \<open>generateId()\<close>
  (lines 644--646) reads the clock and \<open>Math.random\<close>; it is the parameter \<open>gen\<close>,
  where \<open>gen k\<close> is the value of the \<open>k\<close>-th call in the run of \<open>init\<close>.
  \<open>applyTheme\<close>, the clock, the two renders and \<open>setupEventListeners\<close> write only the
  DOM and are left out.
\<close>

subsection \<open>Reading storage, lines 2--5 and 12\<close>

text \<open>\<open>JSON.parse(localStorage.getItem(k)) || []\<close>: an absent key reads \<open>null\<close>, which
  \<open>JSON.parse\<close> maps to \<open>null\<close>, and \<open>|| []\<close> to the empty array. A stored array is
  truthy even when empty.\<close>

fun load_list :: "'a list option \<Rightarrow> 'a list" where
  "load_list None = []"
| "load_list (Some xs) = xs"

text \<open>\<open>localStorage.getItem('dashboard_current_panel') || null\<close>.\<close>

fun load_current :: "string option \<Rightarrow> jsid" where
  "load_current None = Null"
| "load_current (Some v) = (if v = [] then Null else Str v)"

text \<open>Line 12; \<open>prefersDark\<close> is the answer of the \<open>prefers-color-scheme\<close> media query.\<close>

definition load_theme :: "bool \<Rightarrow> string option \<Rightarrow> string" where
  "load_theme prefersDark v =
     (case v of Some t \<Rightarrow> if t \<noteq> [] then t else (if prefersDark then ''dark'' else ''light'')
      | None \<Rightarrow> if prefersDark then ''dark'' else ''light'')"

definition load :: "bool \<Rightarrow> store \<Rightarrow> dash" where
  "load prefersDark st =
     \<lparr>panels = load_list (ls_panels st), categories = load_list (ls_categories st),
      links = load_list (ls_links st), currentPanelId = load_current (ls_current_panel st),
      currentTheme = load_theme prefersDark (ls_theme st), storage = st\<rparr>"

subsection \<open>\<open>init()\<close>, lines 40--79\<close>

text \<open>Lines 46--54: categories exist but no panel: one panel \<open>Main\<close>, given to every
  category whose \<open>panelId\<close> is falsy.\<close>

definition migrate_legacy :: "(nat \<Rightarrow> ident) \<Rightarrow> dash \<Rightarrow> dash" where
  "migrate_legacy gen s =
     (let defaultPanelId = gen 0
      in saveData (s\<lparr>panels := js_push (panels s) \<lparr>panel_id = defaultPanelId, panel_name = ''Main''\<rparr>,
                     categories := map (\<lambda>c. if \<not> js_truthy (panelId c) then c\<lparr>panelId := Str defaultPanelId\<rparr> else c)
                                     (categories s),
                     currentPanelId := Str defaultPanelId\<rparr>))"

text \<open>Lines 55--69: nothing stored: panels \<open>Work\<close> and \<open>Personal\<close>, one category in each.\<close>

definition first_run :: "(nat \<Rightarrow> ident) \<Rightarrow> dash \<Rightarrow> dash" where
  "first_run gen s =
     (let workPanelId = gen 0; personalPanelId = gen 1
      in saveData (s\<lparr>panels := panels s @ [\<lparr>panel_id = workPanelId, panel_name = ''Work''\<rparr>,
                                            \<lparr>panel_id = personalPanelId, panel_name = ''Personal''\<rparr>],
                     categories := categories s @
                       [\<lparr>cat_id = gen 2, cat_name = ''Projects'', panelId = Str workPanelId\<rparr>,
                        \<lparr>cat_id = gen 3, cat_name = ''Favorites'', panelId = Str personalPanelId\<rparr>],
                     currentPanelId := Str workPanelId\<rparr>))"

text \<open>Lines 72--74: a current panel that is falsy or names no panel becomes the first
  panel, or \<open>null\<close>. Nothing is written to storage.\<close>

definition heal_current :: "jsid \<Rightarrow> panel list \<Rightarrow> jsid" where
  "heal_current cur ps =
     (if \<not> js_truthy cur \<or> find (\<lambda>p. Str (panel_id p) = cur) ps = None
      then (case ps of [] \<Rightarrow> Null | p # _ \<Rightarrow> Str (panel_id p))
      else cur)"

definition init :: "(nat \<Rightarrow> ident) \<Rightarrow> dash \<Rightarrow> dash" where
  "init gen s =
     (let s1 = (if panels s = [] then
                  (if categories s \<noteq> [] then migrate_legacy gen s else first_run gen s)
                else s)
      in s1\<lparr>currentPanelId := heal_current (currentPanelId s1) (panels s1)\<rparr>)"

text \<open>Loading the page: the module variables are read, then line 682 calls \<open>init()\<close>.\<close>

definition boot :: "bool \<Rightarrow> (nat \<Rightarrow> ident) \<Rightarrow> store \<Rightarrow> dash" where
  "boot prefersDark gen st = init gen (load prefersDark st)"

text \<open>The ids of the example runs: \<open>x\<close>, \<open>xx\<close>, \<open>xxx\<close>, ...\<close>

definition ex_gen :: "nat \<Rightarrow> ident" where
  "ex_gen n = replicate (Suc n) CHR ''x''"

subsection \<open>Start-up guarantees\<close>

lemma heal_current_eq:
  "heal_current c ps =
     (if \<not> js_truthy c \<or> c \<notin> Str ` set (map panel_id ps)
      then (case map panel_id ps of [] \<Rightarrow> Null | i # _ \<Rightarrow> Str i) else c)"
  by (cases ps) (auto simp: heal_current_def find_None_iff)

lemma heal_current_keeps:
  "js_truthy c \<Longrightarrow> c \<in> Str ` set (map panel_id ps) \<Longrightarrow> heal_current c ps = c"
  by (simp add: heal_current_eq)

lemma heal_current_ids_cong:
  "map panel_id qs = map panel_id ps \<Longrightarrow> heal_current c qs = heal_current c ps"
  by (simp add: heal_current_eq)


lemma heal_current_ok:
  "(if map panel_id ps = [] then heal_current cur ps = Null
    else heal_current cur ps \<in> Str ` set (map panel_id ps))"
  by (cases ps) (auto simp: heal_current_def find_None_iff image_iff dest!: find_Some_iff [THEN iffD1])

lemma init_sel:
  "panels (init gen s) = panels (if panels s = [] then (if categories s \<noteq> [] then migrate_legacy gen s else first_run gen s) else s)"
  "categories (init gen s) = categories (if panels s = [] then (if categories s \<noteq> [] then migrate_legacy gen s else first_run gen s) else s)"
  "links (init gen s) = links s"
  by (simp_all add: init_def Let_def migrate_legacy_def first_run_def)

lemma init_current_in:
  "panels (init gen s) \<noteq> [] \<Longrightarrow> currentPanelId (init gen s) \<in> Str ` set (map panel_id (panels (init gen s)))"
  using heal_current_ok [of "panels (if panels s = [] then (if categories s \<noteq> [] then migrate_legacy gen s else first_run gen s) else s)"]
  by (simp add: init_def Let_def split: if_splits)

text \<open>C26: self-heal: after \<open>init()\<close>, whatever was stored, the current panel is
  \<open>null\<close> exactly when there is no panel, and otherwise one of the panels.\<close>

theorem init_current_ok: "current_ok (init gen s)"
proof -
  define s1 where "s1 = (if panels s = [] then
      (if categories s \<noteq> [] then migrate_legacy gen s else first_run gen s) else s)"
  have "init gen s = s1\<lparr>currentPanelId := heal_current (currentPanelId s1) (panels s1)\<rparr>"
    by (simp add: init_def s1_def Let_def)
  then show ?thesis
    using heal_current_ok [of "panels s1" "currentPanelId s1"] by (auto simp: current_ok_def split: if_splits)
qed

text \<open>C27: first run: whenever no panel and no category is stored (missing, or stored as
  empty arrays), start-up creates exactly the panels \<open>Work\<close> and \<open>Personal\<close>, the
  categories \<open>Projects\<close> under \<open>Work\<close> and \<open>Favorites\<close> under \<open>Personal\<close>,
  makes \<open>Work\<close> current, and keeps the stored links, orphans included.\<close>

theorem boot_first_run:
  assumes p: "load_list (ls_panels st) = []" and c: "load_list (ls_categories st) = []"
  shows "panels (boot pd gen st) =
     [\<lparr>panel_id = gen 0, panel_name = ''Work''\<rparr>, \<lparr>panel_id = gen 1, panel_name = ''Personal''\<rparr>] \<and>
   categories (boot pd gen st) =
     [\<lparr>cat_id = gen 2, cat_name = ''Projects'', panelId = Str (gen 0)\<rparr>,
      \<lparr>cat_id = gen 3, cat_name = ''Favorites'', panelId = Str (gen 1)\<rparr>] \<and>
   links (boot pd gen st) = load_list (ls_links st) \<and>
   currentPanelId (boot pd gen st) = Str (gen 0)"
  using p c by (simp add: boot_def init_def load_def first_run_def heal_current_def Let_def)

text \<open>C28: legacy migration: stored categories and no panel give exactly one panel
  \<open>Main\<close>, which becomes current and the panel of every category whose \<open>panelId\<close>
  is falsy; categories with a non-empty \<open>panelId\<close> keep it.\<close>

theorem boot_legacy_migration:
  assumes p: "load_list (ls_panels st) = []" and c: "ls_categories st = Some cs" "cs \<noteq> []"
  shows "panels (boot pd gen st) = [\<lparr>panel_id = gen 0, panel_name = ''Main''\<rparr>] \<and>
    categories (boot pd gen st) =
      map (\<lambda>c. if js_truthy (panelId c) then c else c\<lparr>panelId := Str (gen 0)\<rparr>) cs \<and>
    currentPanelId (boot pd gen st) = Str (gen 0)"
  using p c
  by (auto simp: boot_def init_def load_def migrate_legacy_def heal_current_def Let_def js_push_def)

text \<open>C29: a stored current panel that names no stored panel is replaced by the first
  panel at start-up.\<close>

theorem boot_heals_stale_current:
  assumes p: "ls_panels st = Some ps" "ps \<noteq> []"
    and stale: "ls_current_panel st = Some v" "v \<notin> set (map panel_id ps)"
  shows "currentPanelId (boot pd gen st) = Str (panel_id (hd ps))"
  using p stale
  by (cases ps) (auto simp: boot_def init_def load_def heal_current_def find_None_iff Let_def)

text \<open>C30: start-up round trip: reloading the storage that start-up leaves gives back the
  same panels, categories, links and current panel (new ids are never equal to the stored
  current panel).\<close>

theorem boot_reload:
  assumes fresh: "ls_current_panel st \<noteq> Some (gen 0)" "ls_current_panel st \<noteq> Some (gen 1)"
  shows "panels (boot pd gen' (storage (boot pd gen st))) = panels (boot pd gen st) \<and>
    categories (boot pd gen' (storage (boot pd gen st))) = categories (boot pd gen st) \<and>
    links (boot pd gen' (storage (boot pd gen st))) = links (boot pd gen st) \<and>
    currentPanelId (boot pd gen' (storage (boot pd gen st))) = currentPanelId (boot pd gen st)"
proof (cases "load_list (ls_panels st) = []")
  case False
  then show ?thesis by (simp add: boot_def init_def load_def Let_def)
next
  case True
  then show ?thesis
  proof (cases "load_list (ls_categories st) = []")
    case False
    with True fresh show ?thesis
      by (cases "ls_current_panel st")
        (auto simp: boot_def init_def load_def Let_def migrate_legacy_def js_push_def heal_current_def)
  next
    case cTrue: True
    with True fresh show ?thesis
      by (cases "ls_current_panel st")
        (auto simp: boot_def init_def load_def Let_def first_run_def heal_current_def)
  qed
qed

subsection \<open>Witnesses\<close>

theorem boot_first_run_witness:
  "load_list (ls_panels (empty_store\<lparr>ls_panels := Some [], ls_links := Some [\<lparr>link_id = ''l'', link_name = ''a'', description = [], url = ''u'', categoryId = ''gone''\<rparr>]\<rparr>)) = [] \<and>
   load_list (ls_categories (empty_store\<lparr>ls_panels := Some [], ls_links := Some [\<lparr>link_id = ''l'', link_name = ''a'', description = [], url = ''u'', categoryId = ''gone''\<rparr>]\<rparr>)) = [] \<and>
   links (boot False ex_gen (empty_store\<lparr>ls_panels := Some [], ls_links := Some [\<lparr>link_id = ''l'', link_name = ''a'', description = [], url = ''u'', categoryId = ''gone''\<rparr>]\<rparr>)) =
     [\<lparr>link_id = ''l'', link_name = ''a'', description = [], url = ''u'', categoryId = ''gone''\<rparr>]"
  using boot_first_run [of "empty_store\<lparr>ls_panels := Some [], ls_links := Some [\<lparr>link_id = ''l'', link_name = ''a'', description = [], url = ''u'', categoryId = ''gone''\<rparr>]\<rparr>" False ex_gen]
  by (simp add: empty_store_def)

theorem boot_legacy_migration_witness:
  "panels (boot False ex_gen (empty_store\<lparr>ls_categories := Some [ex_cat1\<lparr>panelId := Undefined\<rparr>]\<rparr>)) =
     [\<lparr>panel_id = ''x'', panel_name = ''Main''\<rparr>] \<and>
   categories (boot False ex_gen (empty_store\<lparr>ls_categories := Some [ex_cat1\<lparr>panelId := Undefined\<rparr>]\<rparr>)) =
     [ex_cat1\<lparr>panelId := Str ''x''\<rparr>]"
proof -
  let ?st = "empty_store\<lparr>ls_categories := Some [ex_cat1\<lparr>panelId := Undefined\<rparr>]\<rparr>"
  have p: "load_list (ls_panels ?st) = []" by (simp add: empty_store_def)
  have c: "ls_categories ?st = Some [ex_cat1\<lparr>panelId := Undefined\<rparr>]" "[ex_cat1\<lparr>panelId := Undefined\<rparr>] \<noteq> []"
    by simp_all
  from boot_legacy_migration [OF p c, of False ex_gen] show ?thesis
    by (simp add: ex_gen_def)
qed

theorem boot_heals_stale_current_witness:
  "currentPanelId (boot False ex_gen (empty_store\<lparr>ls_panels := Some [\<lparr>panel_id = ''w'', panel_name = ''Work''\<rparr>],
      ls_current_panel := Some ''gone''\<rparr>)) = Str ''w''"
proof -
  let ?ps = "[\<lparr>panel_id = ''w'', panel_name = ''Work''\<rparr>]"
  let ?st = "empty_store\<lparr>ls_panels := Some ?ps, ls_current_panel := Some ''gone''\<rparr>"
  have "ls_panels ?st = Some ?ps" "?ps \<noteq> []" "ls_current_panel ?st = Some ''gone''"
    "''gone'' \<notin> set (map panel_id ?ps)" by simp_all
  from boot_heals_stale_current [OF this, of False ex_gen] show ?thesis by simp
qed

theorem boot_reload_witness:
  "ls_current_panel empty_store \<noteq> Some (ex_gen 0) \<and> ls_current_panel empty_store \<noteq> Some (ex_gen 1) \<and>
   panels (boot True ex_gen (storage (boot True ex_gen empty_store))) = panels (boot True ex_gen empty_store) \<and>
   currentPanelId (boot True ex_gen (storage (boot True ex_gen empty_store))) =
     currentPanelId (boot True ex_gen empty_store)"
proof -
  have f: "ls_current_panel empty_store \<noteq> Some (ex_gen 0)" "ls_current_panel empty_store \<noteq> Some (ex_gen 1)"
    by (simp_all add: empty_store_def)
  from boot_reload [OF f, of True ex_gen] f show ?thesis by simp
qed

end
