(* ===== verification/Session.thy ===== *)
theory Session
  imports Forms DragDrop Init
begin

text \<open>
  The page as one state machine: the state of \<^verbatim>\<open>src/Dashboard/script.js\<close>
  together with the drag variables and the DOM facts the listeners depend on, the
  events the listeners receive (\<open>setupEventListeners\<close>, lines 228--490, and the tab
  listeners of \<open>renderPanels\<close>), one step per event, the states reachable from
  start-up, and what a reload reads back from storage; then the page whose links array
  holds \<open>undefined\<close> after the drop that corrupts it, and loading the page from the
  texts that drop leaves.
\<close>

subsection \<open>State and events\<close>

text \<open>
  The state of the page: the module variables (\<open>dash\<close>, with the storage they are
  saved to), the drag variables, the elements that carry \<open>draggable=true\<close>, and
  whether the element that received the last \<open>dragstart\<close> is still in the dashboard:
  \<open>renderDashboard\<close> replaces every element of \<open>#dashboard-content\<close>, and a
  \<open>dragend\<close> fired at a detached element never reaches the listener that the code
  delegates to \<open>dashboardContent\<close> (line 408).
\<close>

record app =
  mem :: dash
  dvars :: dragvars
  armed :: "elem set"
  source_in_dom :: bool

definition start :: "dash \<Rightarrow> app" where
  "start s = \<lparr>mem = s, dvars = no_drag, armed = {}, source_in_dom = False\<rparr>"

text \<open>
  The events the listeners of \<open>setupEventListeners\<close> and \<open>renderPanels\<close> receive.
  A form submission carries the form's values and the value \<open>generateId()\<close> would
  return; a delete carries the user's answer to \<open>confirm\<close>.
\<close>

datatype event =
    SubmitLink link_form ident
  | SubmitCategory category_form ident
  | SubmitPanel panel_form ident
  | DeleteLinkClick ident "string \<Rightarrow> bool"
  | DeleteCategoryClick ident "string \<Rightarrow> bool"
  | DeletePanelClick ident "string \<Rightarrow> bool"
  | TabClick ident
  | ThemeClick
  | HandleDown "elem option"
  | MouseUp
  | DragStart "elem option"
  | Drop drop_target
  | DragEnd

datatype outcome = Completed | Alerted error | Threw drop_error

fun threw :: "outcome \<Rightarrow> bool" where
  "threw (Threw e) = True"
| "threw Completed = False"
| "threw (Alerted e) = False"

text \<open>
  One event, run to completion. Adding a link or a category first passes the guard of
  its button (the modal opens only then, and nothing changes while it is open), so a
  submission of a new element is the guard followed by the handler. Every handler that
  calls \<open>renderDashboard\<close> replaces the dashboard elements (line 121): a reference
  held in \<open>draggedItem\<close> now names a detached element, the new elements carry no
  \<open>draggable\<close> attribute, and the source of the last \<open>dragstart\<close> has left the page.
  The delete listeners render only when the user confirmed.
\<close>

definition detach :: "app \<Rightarrow> app" where
  "detach a = a\<lparr>dvars := (dvars a)\<lparr>draggedItem := map_option detached (draggedItem (dvars a))\<rparr>,
     armed := {}, source_in_dom := False\<rparr>"

text \<open>Whether \<open>renderDashboard\<close> reaches the \<open>links.filter\<close> of the first card
  (line 146): there is a panel (line 123) and the current one has a category (line 133).\<close>

definition renders_card :: "dash \<Rightarrow> bool" where
  "renders_card s \<longleftrightarrow> panels s \<noteq> [] \<and> panel_categories s \<noteq> []"

text \<open>The step of a page whose links array is intact. A link drop that finds the array
  empty and lands outside every category leaves \<open>links = [undefined]\<close>, saved as
  \<open>[null]\<close>; the render that follows throws at line 146 when it reaches a card. That
  step is the one that corrupts the page (\<open>corrupts\<close> below).\<close>

fun app_step :: "app \<Rightarrow> event \<Rightarrow> outcome \<times> app" where
  "app_step a (SubmitLink f i) =
     (case (if form_link_id f = [] then addLinkGuard (mem a) else Inr ()) of
        Inl err \<Rightarrow> (Alerted err, a)
      | Inr _ \<Rightarrow> (Completed, detach (a\<lparr>mem := handleLinkSubmit f i (mem a)\<rparr>)))"
| "app_step a (SubmitCategory f i) =
     (case (if form_cat_id f = [] then addCategoryGuard (mem a) else Inr ()) of
        Inl err \<Rightarrow> (Alerted err, a)
      | Inr _ \<Rightarrow> (Completed, detach (a\<lparr>mem := handleCategorySubmit f i (mem a)\<rparr>)))"
| "app_step a (SubmitPanel f i) = (Completed, detach (a\<lparr>mem := handlePanelSubmit f i (mem a)\<rparr>))"
| "app_step a (DeleteLinkClick i c) =
     (Completed, if c deleteLink_msg then detach (a\<lparr>mem := deleteLink i c (mem a)\<rparr>) else a)"
| "app_step a (DeleteCategoryClick i c) =
     (Completed, if c (deleteCategory_msg i (mem a)) then detach (a\<lparr>mem := deleteCategory i c (mem a)\<rparr>) else a)"
| "app_step a (DeletePanelClick i c) =
     (Completed, if c (deletePanel_msg i (mem a)) then detach (a\<lparr>mem := deletePanel i c (mem a)\<rparr>) else a)"
| "app_step a (TabClick i) = (Completed, detach (a\<lparr>mem := selectPanel i (mem a)\<rparr>))"
| "app_step a ThemeClick = (Completed, a\<lparr>mem := toggleTheme (mem a)\<rparr>)"
| "app_step a (HandleDown h) = (Completed, a\<lparr>armed := mousedown h (armed a)\<rparr>)"
| "app_step a MouseUp = (Completed, a\<lparr>armed := mouseup (armed a)\<rparr>)"
| "app_step a (DragStart tgt) =
     (Completed, a\<lparr>dvars := dragstart tgt (dvars a), source_in_dom := True\<rparr>)"
| "app_step a (Drop t) =
     (case drop (dvars a) t (mem a) of
        Inl (err, s1) \<Rightarrow>
          (if err = UndefinedLink
           then (if renders_card s1 then Threw TypeError else Completed, detach (a\<lparr>mem := s1\<rparr>))
           else (Threw err, a\<lparr>mem := s1\<rparr>))
      | Inr s' \<Rightarrow> (Completed, (if drop_renders (dvars a) t then detach (a\<lparr>mem := s'\<rparr>) else a\<lparr>mem := s'\<rparr>)))"
| "app_step a DragEnd =
     (if source_in_dom a
      then (let (d, arm) = dragend (dvars a) (armed a) in (Completed, a\<lparr>dvars := d, armed := arm\<rparr>))
      else (Completed, a))"

definition corrupts :: "app \<Rightarrow> event \<Rightarrow> bool" where
  "corrupts a e =
     (case e of
        Drop t \<Rightarrow> (case drop (dvars a) t (mem a) of Inl (err, s1) \<Rightarrow> err = UndefinedLink | Inr s' \<Rightarrow> False)
      | _ \<Rightarrow> False)"

subsection \<open>A links array that holds \<open>undefined\<close>\<close>

text \<open>
  Once \<open>links\<close> holds \<open>undefined\<close> (always at index 0: it enters only an empty array,
  and nothing removes it) the page state is the same record, whose \<open>links\<close> are the
  links after it, and storage holds \<open>null\<close> before them. Every \<open>findIndex\<close>,
  \<open>filter\<close> or \<open>find\<close> over \<open>links\<close> then throws at index 0; \<open>push\<close> does not.
  A render throws when it reaches a card. The delete-category listener counts the
  category's links before asking (line 364); the delete-panel listener has filtered the
  panels and categories in memory when \<open>links.filter\<close> throws (line 322), before any save.
\<close>

definition after_render :: "app \<Rightarrow> outcome \<times> app" where
  "after_render b = ((if renders_card (mem b) then Threw TypeError else Completed), detach b)"

fun holed_step :: "app \<Rightarrow> event \<Rightarrow> outcome \<times> app" where
  "holed_step a (SubmitLink f i) =
     (case (if form_link_id f = [] then addLinkGuard (mem a) else Inr ()) of
        Inl err \<Rightarrow> (Alerted err, a)
      | Inr _ \<Rightarrow>
          if form_link_id f \<noteq> [] then (Threw TypeError, a)
          else after_render (a\<lparr>mem := handleLinkSubmit f i (mem a)\<rparr>))"
| "holed_step a (SubmitCategory f i) =
     (case (if form_cat_id f = [] then addCategoryGuard (mem a) else Inr ()) of
        Inl err \<Rightarrow> (Alerted err, a)
      | Inr _ \<Rightarrow> after_render (a\<lparr>mem := handleCategorySubmit f i (mem a)\<rparr>))"
| "holed_step a (SubmitPanel f i) = after_render (a\<lparr>mem := handlePanelSubmit f i (mem a)\<rparr>)"
| "holed_step a (DeleteLinkClick i c) = (if c deleteLink_msg then (Threw TypeError, a) else (Completed, a))"
| "holed_step a (DeleteCategoryClick i c) = (Threw TypeError, a)"
| "holed_step a (DeletePanelClick i c) =
     (if c (deletePanel_msg i (mem a))
      then (Threw TypeError, a\<lparr>mem := (mem a)\<lparr>panels := filter (\<lambda>p. panel_id p \<noteq> i) (panels (mem a)),
                                   categories := filter (\<lambda>c. panelId c \<noteq> Str i) (categories (mem a))\<rparr>\<rparr>)
      else (Completed, a))"
| "holed_step a (TabClick i) = after_render (a\<lparr>mem := selectPanel i (mem a)\<rparr>)"
| "holed_step a (Drop t) =
     (if draggedItem (dvars a) \<noteq> None \<and> dragType (dvars a) = Some DragLink then (Threw TypeError, a)
      else (case drop (dvars a) t (mem a) of
              Inl (err, s1) \<Rightarrow> (Threw err, a\<lparr>mem := s1\<rparr>)
            | Inr s' \<Rightarrow> if drop_renders (dvars a) t then after_render (a\<lparr>mem := s'\<rparr>) else (Completed, a\<lparr>mem := s'\<rparr>)))"
| "holed_step a e = app_step a e"

text \<open>The page: intact, or with \<open>undefined\<close> in its links array.\<close>

datatype page = Intact app | Holed app

fun page_app :: "page \<Rightarrow> app" where
  "page_app (Intact a) = a"
| "page_app (Holed a) = a"

fun page_step :: "page \<Rightarrow> event \<Rightarrow> outcome \<times> page" where
  "page_step (Intact a) e = (fst (app_step a e), if corrupts a e then Holed (snd (app_step a e)) else Intact (snd (app_step a e)))"
| "page_step (Holed a) e = (fst (holed_step a e), Holed (snd (holed_step a e)))"

subsection \<open>What the interface can send\<close>

text \<open>
  A fresh id is one \<open>generateId()\<close> has not returned before: non-empty and unused.
  A link form's category comes from the select that \<open>updateCategorySelect\<close> fills with
  the categories of the current panel; a tab and a drop target are elements the last
  render drew from the state. \<open>dragstart\<close> fires only at a draggable element: a
  category card only once the press on its handle made it draggable (lines 382--388), a
  link row always (it is an \<open><a href>\<close>), an element removed from the page never.
\<close>

definition fresh :: "dash \<Rightarrow> ident \<Rightarrow> bool" where
  "fresh s i \<longleftrightarrow> i \<noteq> [] \<and> i \<notin> all_ids s"

fun event_ok :: "app \<Rightarrow> event \<Rightarrow> bool" where
  "event_ok a (SubmitLink f i) \<longleftrightarrow>
     form_category f \<in> set (map fst (updateCategorySelect (mem a))) \<and>
     (form_link_id f = [] \<longrightarrow> fresh (mem a) i)"
| "event_ok a (SubmitCategory f i) \<longleftrightarrow> (form_cat_id f = [] \<longrightarrow> fresh (mem a) i)"
| "event_ok a (SubmitPanel f i) \<longleftrightarrow> (form_panel_id f = [] \<longrightarrow> fresh (mem a) i)"
| "event_ok a (TabClick i) \<longleftrightarrow> i \<in> set (panel_ids (mem a))"
| "event_ok a (DragStart (Some (CatElem c))) \<longleftrightarrow> CatElem c \<in> armed a"
| "event_ok a (DragStart (Some (Detached e))) \<longleftrightarrow> False"
| "event_ok a (Drop t) \<longleftrightarrow>
     (case closest_category t of Some c \<Rightarrow> c \<in> set (cat_ids (mem a)) | None \<Rightarrow> True)"
| "event_ok a _ \<longleftrightarrow> True"

text \<open>
  The states the page reaches from a well-formed start-up, by events the interface can
  send, while its links array is intact; \<open>reachable_ok\<close> keeps to runs in which no
  listener threw. \<open>reachable_page\<close> follows every run, through the drop that corrupts
  the links array and beyond.
\<close>

inductive reachable :: "app \<Rightarrow> bool" where
  boot: "wf_dash (boot pd gen st) \<Longrightarrow> reachable (start (boot pd gen st))"
| step: "reachable a \<Longrightarrow> event_ok a e \<Longrightarrow> \<not> corrupts a e \<Longrightarrow> reachable (snd (app_step a e))"

inductive reachable_ok :: "app \<Rightarrow> bool" where
  boot: "wf_dash (boot pd gen st) \<Longrightarrow> ls_current_panel st \<noteq> Some (gen 0) \<Longrightarrow>
    ls_current_panel st \<noteq> Some (gen 1) \<Longrightarrow> reachable_ok (start (boot pd gen st))"
| step: "reachable_ok a \<Longrightarrow> event_ok a e \<Longrightarrow> \<not> threw (fst (app_step a e)) \<Longrightarrow> \<not> corrupts a e \<Longrightarrow>
    reachable_ok (snd (app_step a e))"

inductive reachable_page :: "page \<Rightarrow> bool" where
  boot: "wf_dash (boot pd gen st) \<Longrightarrow> reachable_page (Intact (start (boot pd gen st)))"
| step: "reachable_page p \<Longrightarrow> event_ok (page_app p) e \<Longrightarrow> reachable_page (snd (page_step p e))"

text \<open>
  Loading the page (lines 1--12, then \<open>init()\<close> at line 682) when the stored links text
  may begin with \<open>null\<close> (\<open>hole\<close>): \<open>JSON.parse\<close> gives \<open>[null, ...]\<close>, \<open>init()\<close>
  migrates or seeds and heals as usual, and then calls \<open>renderPanels()\<close>,
  \<open>renderDashboard()\<close> and only then \<open>setupEventListeners()\<close> (lines 76--78). When the
  render reaches a card it throws on the \<open>null\<close>, and the page is left without a single
  listener: \<open>None\<close>.
\<close>

definition startup :: "bool \<Rightarrow> (nat \<Rightarrow> ident) \<Rightarrow> store \<Rightarrow> bool \<Rightarrow> page option" where
  "startup pd gen st hole =
     (let d = boot pd gen st
      in if hole \<and> renders_card d then None
         else Some (if hole then Holed (start d) else Intact (start d)))"

subsection \<open>What storage holds\<close>

text \<open>
  The stored snapshot agrees with memory: reading storage the way lines 2--5 do and
  healing the current panel the way \<open>init()\<close> does (lines 72--74) gives back the
  three collections and the current panel. The theme is left out: it is written on every
  toggle and read once at start-up.
\<close>

definition persisted :: "dash \<Rightarrow> bool" where
  "persisted s \<longleftrightarrow>
     load_list (ls_panels (storage s)) = panels s \<and>
     load_list (ls_categories (storage s)) = categories s \<and>
     load_list (ls_links (storage s)) = links s \<and>
     heal_current (load_current (ls_current_panel (storage s))) (panels s) = currentPanelId s"

text \<open>The theme: a stored, non-empty theme is the current one. Only the toggle writes it.\<close>

definition theme_persisted :: "dash \<Rightarrow> bool" where
  "theme_persisted s \<longleftrightarrow> (\<forall>t. ls_theme (storage s) = Some t \<longrightarrow> t \<noteq> [] \<longrightarrow> t = currentTheme s)"

text \<open>A run: the events in order, each one run to completion.\<close>

definition run :: "app \<Rightarrow> event list \<Rightarrow> app" where
  "run a es = foldl (\<lambda>b e. snd (app_step b e)) a es"

text \<open>The page after a first visit: nothing in storage, ids \<open>x\<close>, \<open>xx\<close>, ...\<close>

definition ex_start :: app where
  "ex_start = start (boot False ex_gen empty_store)"

text \<open>The same page after a link was added and dragged onto its category, the drag's
  \<open>dragend\<close> was lost, and both panels were deleted: no panel, no link, and a stale
  \<open>draggedItem\<close>.\<close>

definition ex_stale_empty :: app where
  "ex_stale_empty = run ex_start
     [SubmitLink \<lparr>form_url = ''a.org'', form_name = ''A'', form_description = [], form_category = ''xxx'',
                  form_link_id = []\<rparr> ''l'',
      DragStart (Some (LinkElem ''l'')), Drop (OnCategory ''xxx''), DragEnd,
      DeletePanelClick ''x'' confirm_all, DeletePanelClick ''xx'' confirm_all]"

subsection \<open>Each step keeps the invariant\<close>

lemma fresh_ids: "fresh s i \<Longrightarrow> i \<noteq> [] \<and> i \<notin> set (link_ids s) \<and> i \<notin> set (cat_ids s) \<and> i \<notin> set (panel_ids s)"
  by (simp add: fresh_def all_ids_def)

lemma panel_categories_ids: "set (map fst (updateCategorySelect s)) \<subseteq> set (cat_ids s)"
  by (auto simp: updateCategorySelect_def panel_categories_def)

lemma app_step_wf:
  assumes wf: "wf_dash (mem a)" and ok: "event_ok a e"
  shows "wf_dash (mem (snd (app_step a e)))"
proof (cases e)
  case (SubmitLink f i)
  with ok have cat: "form_category f \<in> set (cat_ids (mem a))"
    using panel_categories_ids by auto
  from SubmitLink ok have fr: "form_link_id f = [] \<Longrightarrow> i \<notin> set (link_ids (mem a)) \<and> i \<noteq> []"
    by (auto dest: fresh_ids)
  have "wf_dash (handleLinkSubmit f i (mem a))"
    using wf cat fr by (rule handleLinkSubmit_wf)
  with SubmitLink wf show ?thesis
    by (auto simp: detach_def split: sum.splits)
next
  case (SubmitCategory f i)
  from SubmitCategory ok have fr: "form_cat_id f = [] \<Longrightarrow> i \<notin> set (cat_ids (mem a)) \<and> i \<noteq> []"
    by (auto dest: fresh_ids)
  show ?thesis
  proof (cases "form_cat_id f = [] \<longrightarrow> addCategoryGuard (mem a) = Inr ()")
    case True
    then have "wf_dash (handleCategorySubmit f i (mem a))"
      using wf fr by (intro handleCategorySubmit_wf) auto
    with SubmitCategory wf show ?thesis
      by (auto simp: detach_def split: sum.splits)
  next
    case False
    with SubmitCategory wf show ?thesis
      by (auto simp: detach_def split: sum.splits)
  qed
next
  case (SubmitPanel f i)
  from SubmitPanel ok have fr: "form_panel_id f = [] \<Longrightarrow> i \<notin> set (panel_ids (mem a)) \<and> i \<noteq> []"
    by (auto dest: fresh_ids)
  have "wf_dash (handlePanelSubmit f i (mem a))"
    using wf fr by (rule handlePanelSubmit_wf)
  with SubmitPanel show ?thesis by (simp add: detach_def)
next
  case (DeleteLinkClick i c)
  with wf show ?thesis by (simp add: detach_def deleteLink_wf)
next
  case (DeleteCategoryClick i c)
  with wf show ?thesis by (simp add: detach_def deleteCategory_wf)
next
  case (DeletePanelClick i c)
  with wf show ?thesis by (simp add: detach_def deletePanel_wf)
next
  case (TabClick i)
  with ok wf show ?thesis by (simp add: detach_def selectPanel_wf)
next
  case (Drop t)
  show ?thesis
  proof (cases "drop (dvars a) t (mem a)")
    case (Inl r)
    then obtain err s1 where "drop (dvars a) t (mem a) = Inl (err, s1)" by (cases r) auto
    with Drop wf show ?thesis by (simp add: drop_threw_wf detach_def)
  next
    case (Inr s')
    with Drop ok wf show ?thesis by (auto simp: detach_def intro: drop_wf)
  qed
qed (simp_all add: wf split: prod.splits)

subsection \<open>Each step keeps storage in step with memory\<close>

lemma persisted_saveData:
  "persisted (saveData s) \<longleftrightarrow>
     heal_current (load_current (ls_current_panel (storage s))) (panels s) = currentPanelId s"
  by (simp add: persisted_def)

lemma persisted_saveData_same:
  assumes "panel_ids t = panel_ids s" "currentPanelId t = currentPanelId s"
    "ls_current_panel (storage t) = ls_current_panel (storage s)" "persisted s"
  shows "persisted (saveData t)"
  using assms heal_current_ids_cong [OF assms(1)]
  by (simp add: persisted_saveData persisted_def)

lemma handleLinkSubmit_persisted: "persisted s \<Longrightarrow> persisted (handleLinkSubmit f i s)"
  unfolding handleLinkSubmit_def Let_def
  by (rule persisted_saveData_same) simp_all

lemma handleCategorySubmit_persisted: "persisted s \<Longrightarrow> persisted (handleCategorySubmit f i s)"
  unfolding handleCategorySubmit_def Let_def
  by (rule persisted_saveData_same) simp_all

lemma handlePanelSubmit_persisted:
  assumes p: "persisted s" and fr: "form_panel_id f = [] \<Longrightarrow> i \<noteq> []"
  shows "persisted (handlePanelSubmit f i s)"
proof (cases "form_panel_id f = []")
  case True
  with fr have "i \<noteq> []" by simp
  with True show ?thesis
    by (simp add: handlePanelSubmit_def Let_def persisted_saveData js_push_def heal_current_eq)
next
  case False
  then show ?thesis
    unfolding handlePanelSubmit_def Let_def
    by (intro persisted_saveData_same [OF _ _ _ p]) (simp_all add: map_update_same_key)
qed

lemma deleteLink_persisted: "persisted s \<Longrightarrow> persisted (deleteLink i c s)"
  unfolding deleteLink_def by (auto intro: persisted_saveData_same)

lemma deleteCategory_persisted: "persisted s \<Longrightarrow> persisted (deleteCategory i c s)"
  unfolding deleteCategory_def by (auto intro: persisted_saveData_same)

lemma deletePanel_persisted:
  assumes wf: "wf_dash s" and p: "persisted s"
  shows "persisted (deletePanel i confirm s)"
proof (cases "confirm (deletePanel_msg i s)")
  case False
  with p show ?thesis by (simp add: deletePanel_def)
next
  case True
  let ?ps = "filter (\<lambda>p. panel_id p \<noteq> i) (panels s)"
  let ?cur' = "case ?ps of [] \<Rightarrow> Null | p # _ \<Rightarrow> Str (panel_id p)"
  let ?v = "ls_current_panel (storage s)"
  have ne: "[] \<notin> set (panel_ids s)" using wf by (simp add: wf_defs)
  show ?thesis
  proof (cases "currentPanelId s = Str i")
    case cur: True
    have "heal_current (load_current (Some (js_or_empty ?cur'))) ?ps = ?cur'"
    proof (cases ?ps)
      case Nil
      then show ?thesis by (simp add: heal_current_def)
    next
      case (Cons q qs)
      then have "q \<in> set (panels s)" by (metis filter_eq_Cons_mem)
      have "panel_id q \<noteq> []"
      proof
        assume "panel_id q = []"
        with \<open>q \<in> set (panels s)\<close> have "[] \<in> set (panel_ids s)" by force
        with ne show False by simp
      qed
      with Cons show ?thesis by (simp add: heal_current_eq)
    qed
    with True cur show ?thesis
      by (simp add: deletePanel_def Let_def persisted_saveData)
  next
    case cur: False
    have old: "heal_current (load_current ?v) (panels s) = currentPanelId s"
      using p by (simp add: persisted_def)
    have "heal_current (load_current ?v) ?ps = currentPanelId s"
    proof (cases "js_truthy (load_current ?v) \<and> load_current ?v \<in> Str ` set (panel_ids s)")
      case True
      with old have "load_current ?v = currentPanelId s" by (simp add: heal_current_eq)
      with True cur have "js_truthy (load_current ?v)" "load_current ?v \<in> Str ` set (map panel_id ?ps)"
        by auto
      with \<open>load_current ?v = currentPanelId s\<close> show ?thesis by (simp add: heal_current_keeps)
    next
      case False
      with old have c: "currentPanelId s = (case panel_ids s of [] \<Rightarrow> Null | j # _ \<Rightarrow> Str j)"
        by (simp add: heal_current_eq)
      have nt: "\<not> (js_truthy (load_current ?v) \<and> load_current ?v \<in> Str ` set (map panel_id ?ps))"
        using False by auto
      show ?thesis
      proof (cases "panels s")
        case Nil
        with c show ?thesis by (simp add: heal_current_eq)
      next
        case (Cons q qs)
        with c cur have "panel_id q \<noteq> i" by auto
        with Cons c nt show ?thesis by (auto simp: heal_current_eq)
      qed
    qed
    with True cur show ?thesis
      by (simp add: deletePanel_def Let_def persisted_saveData)
  qed
qed

lemma selectPanel_persisted:
  assumes wf: "wf_dash s" and p: "persisted s" and i: "i \<in> set (panel_ids s)"
  shows "persisted (selectPanel i s)"
proof -
  have "i \<noteq> []" using wf_ids_nonempty(1) [OF wf i] .
  with p i show ?thesis
    by (simp add: selectPanel_def persisted_def heal_current_eq)
qed

lemma toggleTheme_persisted: "persisted s \<Longrightarrow> persisted (toggleTheme s)"
  by (simp add: toggleTheme_def Let_def persisted_def)

lemma drop_persisted: "persisted s \<Longrightarrow> drop d t s = Inr s' \<Longrightarrow> persisted s'"
proof -
  assume p: "persisted s" and r: "drop d t s = Inr s'"
  note sh = drop_Inr_shape [OF r]
  show ?thesis
  proof (cases "s' = s")
    case False
    with sh have "s' = saveData s'" by simp
    moreover have "persisted (saveData s')"
      by (rule persisted_saveData_same [OF _ _ _ p]) (simp_all add: sh)
    ultimately show ?thesis by simp
  qed (simp add: p)
qed

lemma app_step_persisted:
  assumes wf: "wf_dash (mem a)" and p: "persisted (mem a)" and ok: "event_ok a e"
    and nt: "\<not> threw (fst (app_step a e))" and nc: "\<not> corrupts a e"
  shows "persisted (mem (snd (app_step a e)))"
proof (cases e)
  case (SubmitLink f i)
  with p show ?thesis
    by (auto simp: detach_def handleLinkSubmit_persisted split: sum.splits)
next
  case (SubmitCategory f i)
  with p show ?thesis
    by (auto simp: detach_def handleCategorySubmit_persisted split: sum.splits)
next
  case (SubmitPanel f i)
  from SubmitPanel ok have "form_panel_id f = [] \<Longrightarrow> i \<noteq> []" by (simp add: fresh_def)
  with SubmitPanel p show ?thesis by (simp add: detach_def handlePanelSubmit_persisted)
next
  case (DeletePanelClick i c)
  with wf p show ?thesis by (simp add: detach_def deletePanel_persisted)
next
  case (TabClick i)
  with ok wf p show ?thesis by (simp add: detach_def selectPanel_persisted)
next
  case (Drop t)
  show ?thesis
  proof (cases "drop (dvars a) t (mem a)")
    case (Inl r)
    with Drop nt nc show ?thesis by (auto simp: corrupts_def split: prod.splits if_splits)
  next
    case (Inr s')
    with Drop p show ?thesis by (auto simp: detach_def intro: drop_persisted)
  qed
qed (simp_all add: p detach_def deleteLink_persisted deleteCategory_persisted toggleTheme_persisted
    split: prod.splits)

lemma boot_persisted:
  assumes fresh: "ls_current_panel st \<noteq> Some (gen 0)" "ls_current_panel st \<noteq> Some (gen 1)"
  shows "persisted (boot pd gen st)"
proof (cases "load_list (ls_panels st) = []")
  case False
  then show ?thesis by (simp add: boot_def init_def load_def Let_def persisted_def)
next
  case True
  show ?thesis
  proof (cases "load_list (ls_categories st) = []")
    case False
    with True fresh show ?thesis
      by (cases "ls_current_panel st")
        (auto simp: boot_def init_def load_def Let_def migrate_legacy_def js_push_def persisted_def heal_current_eq)
  next
    case cTrue: True
    with True fresh show ?thesis
      by (cases "ls_current_panel st")
        (auto simp: boot_def init_def load_def Let_def first_run_def persisted_def heal_current_eq)
  qed
qed

lemma reachable_ok_reachable: "reachable_ok a \<Longrightarrow> reachable a"
  by (induction rule: reachable_ok.induct) (auto intro: reachable.intros)

text \<open>The intact page is the part of \<open>reachable_page\<close> before the corrupting drop.\<close>

lemma reachable_page_intact: "reachable a \<Longrightarrow> reachable_page (Intact a)"
proof (induction rule: reachable.induct)
  case (step a e)
  then have "reachable_page (snd (page_step (Intact a) e))"
    by (simp add: reachable_page.step del: page_step.simps)
  with step.hyps(3) show ?case by simp
qed (rule reachable_page.boot)

subsection \<open>Reachable states\<close>

lemma reachable_ok_inv: "reachable_ok a \<Longrightarrow> wf_dash (mem a) \<and> persisted (mem a)"
proof (induction rule: reachable_ok.induct)
  case (boot pd gen st)
  then show ?case by (simp add: start_def boot_persisted)
next
  case (step a e)
  then show ?case by (simp add: app_step_wf app_step_persisted)
qed

text \<open>Reading back a snapshot that agrees with memory.\<close>

lemma persisted_boot:
  assumes p: "persisted s" and ne: "panels s \<noteq> []"
  shows "panels (boot pd gen (storage s)) = panels s \<and> categories (boot pd gen (storage s)) = categories s \<and>
    links (boot pd gen (storage s)) = links s \<and> currentPanelId (boot pd gen (storage s)) = currentPanelId s"
  using p ne by (simp add: persisted_def boot_def init_def load_def Let_def)

lemma wf_no_panels:
  assumes wf: "wf_dash s" and e: "panels s = []"
  shows "categories s = [] \<and> links s = []"
proof -
  have "set (map panelId (categories s)) \<subseteq> {}" using wf e by (simp add: wf_defs)
  then have c: "categories s = []" by simp
  have "set (map categoryId (links s)) \<subseteq> {}" using wf c by (simp add: wf_defs)
  with c show ?thesis by simp
qed

subsection \<open>The theme\<close>

lemma theme_persisted_cong:
  "currentTheme t = currentTheme s \<Longrightarrow> ls_theme (storage t) = ls_theme (storage s) \<Longrightarrow>
   theme_persisted t = theme_persisted s"
  by (simp add: theme_persisted_def)

lemma handlers_keep_theme:
  "currentTheme (handleLinkSubmit f i s) = currentTheme s \<and> ls_theme (storage (handleLinkSubmit f i s)) = ls_theme (storage s)"
  "currentTheme (handleCategorySubmit g i s) = currentTheme s \<and> ls_theme (storage (handleCategorySubmit g i s)) = ls_theme (storage s)"
  "currentTheme (handlePanelSubmit h i s) = currentTheme s \<and> ls_theme (storage (handlePanelSubmit h i s)) = ls_theme (storage s)"
  "currentTheme (deleteLink j c s) = currentTheme s \<and> ls_theme (storage (deleteLink j c s)) = ls_theme (storage s)"
  "currentTheme (deleteCategory j c s) = currentTheme s \<and> ls_theme (storage (deleteCategory j c s)) = ls_theme (storage s)"
  "currentTheme (deletePanel j c s) = currentTheme s \<and> ls_theme (storage (deletePanel j c s)) = ls_theme (storage s)"
  "currentTheme (selectPanel j s) = currentTheme s \<and> ls_theme (storage (selectPanel j s)) = ls_theme (storage s)"
  by (simp_all add: handleLinkSubmit_def handleCategorySubmit_def handlePanelSubmit_def deleteLink_def
      deleteCategory_def deletePanel_def selectPanel_def Let_def)

lemma drop_keeps_theme:
  assumes "drop d t s = r"
  shows "currentTheme (case r of Inl (e, s1) \<Rightarrow> s1 | Inr s' \<Rightarrow> s') = currentTheme s \<and>
    ls_theme (storage (case r of Inl (e, s1) \<Rightarrow> s1 | Inr s' \<Rightarrow> s')) = ls_theme (storage s)"
  using assms
  by (auto simp: drop_def dropCategory_def dropLink_def Let_def
      split: option.splits drag_kind.splits if_splits prod.splits)

lemma app_step_theme:
  assumes p: "theme_persisted (mem a)"
  shows "theme_persisted (mem (snd (app_step a e)))"
proof (cases e)
  case ThemeClick
  then show ?thesis by (simp add: theme_persisted_def toggleTheme_def Let_def)
next
  case (Drop t)
  have "currentTheme (mem (snd (app_step a e))) = currentTheme (mem a) \<and>
        ls_theme (storage (mem (snd (app_step a e)))) = ls_theme (storage (mem a))"
    using drop_keeps_theme [OF refl, of "dvars a" t "mem a"] Drop
    by (auto simp: detach_def split: sum.splits prod.splits)
  with p show ?thesis using theme_persisted_cong by blast
qed (use p handlers_keep_theme in \<open>auto simp: detach_def theme_persisted_def split: sum.splits prod.splits\<close>)

lemma boot_theme: "theme_persisted (boot pd gen st)"
  by (simp add: theme_persisted_def boot_def init_def load_def Let_def load_theme_def
      migrate_legacy_def first_run_def split: option.splits)

lemma reachable_theme: "reachable a \<Longrightarrow> theme_persisted (mem a)"
  by (induction rule: reachable.induct) (simp_all add: start_def boot_theme app_step_theme)

subsection \<open>The example run\<close>

lemma reachable_ok_ex_start: "reachable_ok ex_start"
  unfolding ex_start_def
  by (rule reachable_ok.boot)
    (simp_all add: wf_defs boot_def init_def load_def first_run_def heal_current_def Let_def
      empty_store_def ex_gen_def)

lemma ex_start_mem:
  "mem ex_start = \<lparr>panels = [\<lparr>panel_id = ''x'', panel_name = ''Work''\<rparr>, \<lparr>panel_id = ''xx'', panel_name = ''Personal''\<rparr>],
     categories = [\<lparr>cat_id = ''xxx'', cat_name = ''Projects'', panelId = Str ''x''\<rparr>,
                   \<lparr>cat_id = ''xxxx'', cat_name = ''Favorites'', panelId = Str ''xx''\<rparr>],
     links = [], currentPanelId = Str ''x'', currentTheme = ''light'',
     storage = empty_store\<lparr>ls_panels := Some [\<lparr>panel_id = ''x'', panel_name = ''Work''\<rparr>, \<lparr>panel_id = ''xx'', panel_name = ''Personal''\<rparr>],
       ls_categories := Some [\<lparr>cat_id = ''xxx'', cat_name = ''Projects'', panelId = Str ''x''\<rparr>,
                   \<lparr>cat_id = ''xxxx'', cat_name = ''Favorites'', panelId = Str ''xx''\<rparr>],
       ls_links := Some []\<rparr>\<rparr>"
  by (simp add: ex_start_def start_def boot_def init_def load_def first_run_def heal_current_def Let_def
      empty_store_def ex_gen_def load_theme_def saveData_def numeral_eq_Suc)

lemmas ex_run_simps = run_def start_def dragstart_def drop_def dropLink_def dropLinkTarget_def ex_defs
  js_splice_remove_def js_splice_insert_def js_rel_index_def Let_def detach_def drop_renders_def
  deleteLink_def confirm_all_def

lemma app_step_DragEnd_fst [simp]: "fst (app_step a DragEnd) = Completed"
  by (simp split: prod.splits)

lemma ex_stale_empty_sel:
  "panels (mem ex_stale_empty) = [] \<and> links (mem ex_stale_empty) = [] \<and> categories (mem ex_stale_empty) = [] \<and>
   draggedItem (dvars ex_stale_empty) = Some (Detached (LinkElem ''l'')) \<and>
   dragType (dvars ex_stale_empty) = Some DragLink \<and>
   ls_panels (storage (mem ex_stale_empty)) = Some [] \<and> ls_categories (storage (mem ex_stale_empty)) = Some []"
  by (simp add: ex_stale_empty_def ex_start_mem run_def handleLinkSubmit_def addLinkGuard_def Let_def js_push_def
      detach_def dragstart_def drop_def dropLink_def dropLinkTarget_def js_splice_remove_def js_rel_index_def
      deletePanel_def deletePanel_msg_def confirm_all_def saveData_def set_current_item_def drop_renders_def
      panel_categories_def)

lemma reachable_ok_ex_stale_empty: "reachable_ok ex_stale_empty"
proof -
  let ?f = "\<lparr>form_url = ''a.org'', form_name = ''A'', form_description = [], form_category = ''xxx'',
                  form_link_id = []\<rparr>"
  let ?a1 = "snd (app_step ex_start (SubmitLink ?f ''l''))"
  let ?a2 = "snd (app_step ?a1 (DragStart (Some (LinkElem ''l''))))"
  let ?a3 = "snd (app_step ?a2 (Drop (OnCategory ''xxx'')))"
  let ?a4 = "snd (app_step ?a3 DragEnd)"
  let ?a5 = "snd (app_step ?a4 (DeletePanelClick ''x'' confirm_all))"
  have m1: "mem ?a1 = handleLinkSubmit ?f ''l'' (mem ex_start)"
    by (simp add: ex_start_mem addLinkGuard_def panel_categories_def detach_def)
  have r1: "reachable_ok ?a1"
    by (rule reachable_ok.step [OF reachable_ok_ex_start])
      (simp_all add: ex_start_mem addLinkGuard_def panel_categories_def updateCategorySelect_def fresh_def
        all_ids_def corrupts_def)
  have r2: "reachable_ok ?a2"
    by (rule reachable_ok.step [OF r1]) (simp_all add: corrupts_def)
  have l1: "links (mem ?a2) = [\<lparr>link_id = ''l'', link_name = ''A'', description = [], url = ''https://a.org'', categoryId = ''xxx''\<rparr>]"
    using m1 by (simp add: ex_start_mem handleLinkSubmit_def Let_def js_push_def normalize_url_def js_trim_def
        js_ws_def js_startsWith_def)
  have d2: "dvars ?a2 = \<lparr>draggedItem = Some (LinkElem ''l''), dragType = Some DragLink\<rparr>"
    by (simp add: dragstart_def)
  have r3: "reachable_ok ?a3"
    by (rule reachable_ok.step [OF r2])
      (simp_all add: l1 d2 ex_start_mem m1 handleLinkSubmit_def addLinkGuard_def panel_categories_def Let_def
        js_push_def detach_def corrupts_def drop_def dropLink_def dropLinkTarget_def js_splice_remove_def
        js_rel_index_def dragstart_def)
  have r4: "reachable_ok ?a4"
    by (rule reachable_ok.step [OF r3]) (simp_all add: corrupts_def del: app_step.simps)
  have r5: "reachable_ok ?a5"
    by (rule reachable_ok.step [OF r4]) (simp_all add: corrupts_def)
  have "reachable_ok (snd (app_step ?a5 (DeletePanelClick ''xx'' confirm_all)))"
    by (rule reachable_ok.step [OF r5]) (simp_all add: corrupts_def)
  then show ?thesis by (simp add: ex_stale_empty_def run_def)
qed

end
