(* ===== verification/Storage.thy ===== *)
theory Storage
  imports JSON Session
begin

text \<open>
  \<open>localStorage\<close> as the browser holds it: five keys whose values are strings.
  \<open>saveData()\<close> (lines 648--652) writes \<open>JSON.stringify\<close> of the three arrays, the
  current panel and the theme are written as plain strings, and the module initialisers
  (lines 2--5, 12) read them back with \<open>JSON.parse(...) || []\<close>. The record
  \<open>store\<close> of the other theories holds the values these texts denote; this theory
  shows that reading the texts the program writes gives exactly those values, and what
  start-up does with a text it cannot parse.
\<close>

subsection \<open>The objects as JSON\<close>

text \<open>The objects' own properties in the order the code creates them
  (\<open>{ id, name }\<close>, \<open>{ id, name, panelId }\<close>, \<open>{ id, name, description, url,
  categoryId }\<close>). A property whose value is \<open>undefined\<close> is left out by
  \<open>JSON.stringify\<close>: a legacy category without \<open>panelId\<close>.\<close>

definition encode_panel :: "panel \<Rightarrow> json" where
  "encode_panel p = JObj [(''id'', JStr (panel_id p)), (''name'', JStr (panel_name p))]"

fun encode_jsid :: "jsid \<Rightarrow> (string \<times> json) list" where
  "encode_jsid Undefined = []"
| "encode_jsid Null = [(''panelId'', JNull)]"
| "encode_jsid (Str s) = [(''panelId'', JStr s)]"

definition encode_category :: "category \<Rightarrow> json" where
  "encode_category c =
     JObj ([(''id'', JStr (cat_id c)), (''name'', JStr (cat_name c))] @ encode_jsid (panelId c))"

definition encode_link :: "link \<Rightarrow> json" where
  "encode_link l =
     JObj [(''id'', JStr (link_id l)), (''name'', JStr (link_name l)), (''description'', JStr (description l)),
           (''url'', JStr (url l)), (''categoryId'', JStr (categoryId l))]"

text \<open>Reading a property: with duplicate keys \<open>JSON.parse\<close> keeps the last one.\<close>

definition get_prop :: "(string \<times> json) list \<Rightarrow> string \<Rightarrow> json option" where
  "get_prop kvs k = map_of (rev kvs) k"

definition get_str :: "(string \<times> json) list \<Rightarrow> string \<Rightarrow> string option" where
  "get_str kvs k = (case get_prop kvs k of Some (JStr s) \<Rightarrow> Some s | _ \<Rightarrow> None)"

text \<open>Objects whose fields are not strings (or \<open>null\<close>/absent for \<open>panelId\<close>), or
  that carry a property besides the ones the program writes, are values the program never
  writes: \<open>JSON.parse\<close> would keep the extra properties and a later \<open>saveData\<close> would
  write them back, which the records cannot hold. The handlers' behaviour on them is not
  modelled, and decoding them fails.\<close>

fun decode_panel :: "json \<Rightarrow> panel option" where
  "decode_panel (JObj kvs) =
     (if \<not> set (map fst kvs) \<subseteq> {''id'', ''name''} then None else case (get_str kvs ''id'', get_str kvs ''name'') of
        (Some i, Some n) \<Rightarrow> Some \<lparr>panel_id = i, panel_name = n\<rparr>
      | _ \<Rightarrow> None)"
| "decode_panel _ = None"

definition decode_jsid :: "json option \<Rightarrow> jsid option" where
  "decode_jsid v = (case v of None \<Rightarrow> Some Undefined | Some JNull \<Rightarrow> Some Null
     | Some (JStr s) \<Rightarrow> Some (Str s) | Some _ \<Rightarrow> None)"

fun decode_category :: "json \<Rightarrow> category option" where
  "decode_category (JObj kvs) =
     (if \<not> set (map fst kvs) \<subseteq> {''id'', ''name'', ''panelId''} then None else case (get_str kvs ''id'', get_str kvs ''name'', decode_jsid (get_prop kvs ''panelId'')) of
        (Some i, Some n, Some p) \<Rightarrow> Some \<lparr>cat_id = i, cat_name = n, panelId = p\<rparr>
      | _ \<Rightarrow> None)"
| "decode_category _ = None"

fun decode_link :: "json \<Rightarrow> link option" where
  "decode_link (JObj kvs) =
     (if \<not> set (map fst kvs) \<subseteq> {''id'', ''name'', ''description'', ''url'', ''categoryId''} then None else case (get_str kvs ''id'', get_str kvs ''name'', get_str kvs ''description'', get_str kvs ''url'',
            get_str kvs ''categoryId'') of
        (Some i, Some n, Some d, Some u, Some c) \<Rightarrow>
          Some \<lparr>link_id = i, link_name = n, description = d, url = u, categoryId = c\<rparr>
      | _ \<Rightarrow> None)"
| "decode_link _ = None"

subsection \<open>The text store\<close>

record text_store =
  txt_panels :: "string option"
  txt_categories :: "string option"
  txt_links :: "string option"
  txt_current :: "string option"
  txt_theme :: "string option"

text \<open>What \<open>localStorage\<close> holds when the program's writes have left the value store
  \<open>st\<close>: every array write is \<open>JSON.stringify\<close> of the array.\<close>

definition store_text :: "store \<Rightarrow> text_store" where
  "store_text st =
     \<lparr>txt_panels = map_option (\<lambda>ps. stringify (JArr (map encode_panel ps))) (ls_panels st),
      txt_categories = map_option (\<lambda>cs. stringify (JArr (map encode_category cs))) (ls_categories st),
      txt_links = map_option (\<lambda>ls. stringify (JArr (map encode_link ls))) (ls_links st),
      txt_current = ls_current_panel st, txt_theme = ls_theme st\<rparr>"

text \<open>The texts of a page: a corrupted page's links array begins with \<open>undefined\<close>, which
  \<open>JSON.stringify\<close> writes as \<open>null\<close>.\<close>

fun page_text :: "page \<Rightarrow> text_store" where
  "page_text (Intact a) = store_text (storage (mem a))"
| "page_text (Holed a) = (store_text (storage (mem a)))\<lparr>txt_links :=
     map_option (\<lambda>ls. stringify (JArr (JNull # map encode_link ls))) (ls_links (storage (mem a)))\<rparr>"

subsection \<open>Reading it back, lines 2--4\<close>

text \<open>\<open>ParseError\<close>: \<open>JSON.parse\<close> throws and the script stops before \<open>init()\<close>.
  \<open>BadShape\<close>: the text parses to a truthy value that is not an array of the program's
  objects; what the program does then is not modelled.\<close>

datatype load_error = ParseError json_error | BadShape

definition json_falsy :: "json \<Rightarrow> bool" where
  "json_falsy j \<longleftrightarrow> j = JNull \<or> j = JBool False \<or> j = JStr []"

definition load_list_text :: "(json \<Rightarrow> 'a option) \<Rightarrow> string option \<Rightarrow> load_error + 'a list option" where
  "load_list_text dec t =
     (case t of
        None \<Rightarrow> Inr None
      | Some txt \<Rightarrow>
          (case json_parse txt of
             Inl e \<Rightarrow> Inl (ParseError e)
           | Inr j \<Rightarrow>
               if json_falsy j then Inr (Some [])
               else (case j of
                       JArr js \<Rightarrow> (case those (map dec js) of Some xs \<Rightarrow> Inr (Some xs) | None \<Rightarrow> Inl BadShape)
                     | _ \<Rightarrow> Inl BadShape)))"

text \<open>The value store a text store denotes, the arrays read in the order of lines 2--4.\<close>

definition abs_text :: "text_store \<Rightarrow> load_error + store" where
  "abs_text ts =
     (case load_list_text decode_panel (txt_panels ts) of
        Inl e \<Rightarrow> Inl e
      | Inr ps \<Rightarrow>
          (case load_list_text decode_category (txt_categories ts) of
             Inl e \<Rightarrow> Inl e
           | Inr cs \<Rightarrow>
               (case load_list_text decode_link (txt_links ts) of
                  Inl e \<Rightarrow> Inl e
                | Inr ls \<Rightarrow> Inr \<lparr>ls_panels = ps, ls_categories = cs, ls_links = ls,
                                 ls_current_panel = txt_current ts, ls_theme = txt_theme ts\<rparr>)))"

text \<open>Loading the page from the texts: lines 1--12, then \<open>init()\<close>.\<close>

definition boot_text :: "bool \<Rightarrow> (nat \<Rightarrow> ident) \<Rightarrow> text_store \<Rightarrow> load_error + dash" where
  "boot_text prefersDark gen ts =
     (case abs_text ts of Inl e \<Rightarrow> Inl e | Inr st \<Rightarrow> Inr (boot prefersDark gen st))"

text \<open>The shape \<open>dashboard_categories\<close> has in the specification (section 6): objects with
  string \<open>id\<close>, \<open>name\<close> and \<open>panelId\<close>.\<close>

definition category_schema :: "json \<Rightarrow> bool" where
  "category_schema j \<longleftrightarrow>
     (\<exists>i n p. j = JObj [(''id'', JStr i), (''name'', JStr n), (''panelId'', JStr p)])"

subsection \<open>Reading what the program wrote\<close>

lemma those_map_decode:
  "(\<And>x. x \<in> set xs \<Longrightarrow> dec (enc x) = Some x) \<Longrightarrow> those (map (dec \<circ> enc) xs) = Some xs"
  by (induction xs) auto

lemma decode_encode_panel [simp]: "decode_panel (encode_panel p) = Some p"
  by (simp add: encode_panel_def get_str_def get_prop_def)

lemma decode_encode_category [simp]: "decode_category (encode_category c) = Some c"
  by (cases "panelId c") (simp_all add: encode_category_def get_str_def get_prop_def decode_jsid_def)

lemma decode_encode_link [simp]: "decode_link (encode_link l) = Some l"
  by (simp add: encode_link_def get_str_def get_prop_def)

lemma json_ok_encode [simp]:
  "json_ok (JArr (map encode_panel ps))" "json_ok (JArr (map encode_category cs))"
  "json_ok (JArr (map encode_link ls))"
proof -
  have "json_ok (encode_category c)" for c by (cases "panelId c") (simp_all add: encode_category_def)
  then show "json_ok (JArr (map encode_category cs))" by (simp add: list_all_iff)
qed (simp_all add: list_all_iff encode_panel_def encode_link_def)

lemma load_list_text_encode:
  assumes "\<And>xs. json_ok (JArr (map enc xs))" and "\<And>x. dec (enc x) = Some x"
  shows "load_list_text dec (map_option (\<lambda>xs. stringify (JArr (map enc xs))) v) = Inr v"
proof (cases v)
  case (Some xs)
  have "json_parse (stringify (JArr (map enc xs))) = Inr (JArr (map enc xs))"
    using assms(1) by (rule parse_stringify)
  with Some assms(2) show ?thesis
    by (simp add: load_list_text_def json_falsy_def those_map_decode)
qed (simp add: load_list_text_def)

lemma abs_text_store: "abs_text (store_text st) = Inr st"
  using load_list_text_encode [OF json_ok_encode(1) decode_encode_panel, of "ls_panels st"]
    load_list_text_encode [OF json_ok_encode(2) decode_encode_category, of "ls_categories st"]
    load_list_text_encode [OF json_ok_encode(3) decode_encode_link, of "ls_links st"]
  by (simp add: abs_text_def store_text_def)

text \<open>Booting from the texts the program's writes leave in \<open>localStorage\<close> gives the
  same state as booting from the values those writes stored.\<close>

lemma boot_text_store: "boot_text pd gen (store_text st) = Inr (boot pd gen st)"
  by (simp add: boot_text_def abs_text_store)

text \<open>C13: an array key holding text that \<open>JSON.parse\<close> rejects (a truncated write, an
  edit by hand) stops the page at start-up: the exception escapes the module's first lines,
  \<open>init()\<close> never runs, and no fallback to an empty collection takes place.\<close>

theorem boot_text_parse_error:
  assumes e: "json_parse t = Inl e"
    and k: "txt_panels ts = Some t \<or> txt_categories ts = Some t \<or> txt_links ts = Some t"
  shows "\<exists>err. boot_text pd gen ts = Inl err"
proof -
  have l: "\<exists>err. load_list_text dec (Some t) = Inl err" for dec :: "json \<Rightarrow> 'a option"
    using e by (simp add: load_list_text_def)
  have "\<exists>err. abs_text ts = Inl err"
    using k l [of decode_panel] l [of decode_category] l [of decode_link]
    by (auto simp: abs_text_def split: sum.splits)
  then show ?thesis by (auto simp: boot_text_def)
qed

subsection \<open>Witnesses\<close>

theorem boot_text_parse_error_witness:
  "json_parse ''[{'' = Inl SyntaxError \<and>
   (\<exists>err. boot_text False ex_gen ((store_text empty_store)\<lparr>txt_panels := Some ''[{''\<rparr>) = Inl err)"
proof -
  have e: "json_parse ''[{'' = Inl SyntaxError"
    by (simp add: json_parse_def json_ws_def is_digit_def lex_cons_def)
  have k: "txt_panels ((store_text empty_store)\<lparr>txt_panels := Some ''[{''\<rparr>) = Some ''[{'' \<or>
      txt_categories ((store_text empty_store)\<lparr>txt_panels := Some ''[{''\<rparr>) = Some ''[{'' \<or>
      txt_links ((store_text empty_store)\<lparr>txt_panels := Some ''[{''\<rparr>) = Some ''[{''"
    by simp
  from e boot_text_parse_error [OF e k, of False ex_gen] show ?thesis by simp
qed

end
