(* ===== verification/Render.thy ===== *)
theory Render
  imports Session
begin

text \<open>
  The view layer: what \<open>renderPanels\<close> (lines 89--117) and \<open>renderDashboard\<close>
  (120--225) put on the page, as values instead of DOM nodes: a tab per panel, and for the
  current panel a card per category holding a row per link. The text they insert goes
  through \<open>escapeHTML\<close> (663--667), and the favicon's fallback glyph also into a
  single-quoted JS string of an \<open>onerror\<close> attribute (193); the favicon and the name autofill read the host through
  \<open>extractDomain\<close> (654--661). \<open>new URL(u).hostname\<close> is a parameter \<open>hostname\<close> of type
  \<open>url_parser\<close>, \<open>None\<close> where the constructor throws; the hostnames it answers are ASCII
  (the URL parser maps domains to ASCII), which is all \<open>toUpperCase\<close> meets here.
\<close>

type_synonym url_parser = "string \<Rightarrow> string option"

section \<open>Text escaping: \<open>escapeHTML\<close>\<close>

text \<open>Assigning \<open>textContent\<close> of a fresh \<open>div\<close> and reading \<open>innerHTML\<close> serialises a
  single text node; HTML fragment serialisation escapes in text exactly the ampersand, the
  no-break space and the two angle brackets, and leaves quotes alone.\<close>

definition escape_char :: "char \<Rightarrow> string" where
  "escape_char c =
     (if c = CHR ''&'' then ''&amp;'' else if c = CHR 0xA0 then ''&nbsp;''
      else if c = CHR ''<'' then ''&lt;'' else if c = CHR ''>'' then ''&gt;'' else [c])"

definition escapeHTML :: "string \<Rightarrow> string" where
  "escapeHTML str = concat (map escape_char str)"

section \<open>Host of a URL: \<open>extractDomain\<close>\<close>

text \<open>\<open>String.prototype.replace\<close> with a string pattern replaces its first occurrence.\<close>

fun js_replace_first :: "string \<Rightarrow> string \<Rightarrow> string \<Rightarrow> string" where
  "js_replace_first [] p r = (if p = [] then r else [])"
| "js_replace_first (c # cs) p r =
     (if take (length p) (c # cs) = p then r @ List.drop (length p) (c # cs)
      else c # js_replace_first cs p r)"

definition extractDomain :: "url_parser \<Rightarrow> string \<Rightarrow> string" where
  "extractDomain hostname u =
     (case hostname u of None \<Rightarrow> [] | Some h \<Rightarrow> js_replace_first h ''www.'' [])"

section \<open>Name autofill: the \<open>blur\<close> listener of \<open>#link-url\<close>, lines 284--296\<close>

definition ascii_upper :: "char \<Rightarrow> char" where
  "ascii_upper c = (if of_char c \<in> {97..122 :: nat} then char_of (of_char c - (32 :: nat)) else c)"

text \<open>The new value of the name field; it is written only when the trimmed url is
  non-empty, the name field is empty and a host is found.\<close>

definition link_url_blur :: "url_parser \<Rightarrow> string \<Rightarrow> string \<Rightarrow> string" where
  "link_url_blur hostname urlv namev =
     (let urlStr = js_trim urlv
      in if urlStr \<noteq> [] \<and> namev = [] then
           (let h = extractDomain hostname urlStr
            in if h \<noteq> [] then
                 (let siteName = takeWhile (\<lambda>c. c \<noteq> CHR ''.'') h
                  in map ascii_upper (take 1 siteName) @ List.drop 1 siteName)
               else namev)
         else namev)"

section \<open>Tabs: \<open>renderPanels\<close>\<close>

datatype tab = Tab (tab_id: ident) (tab_label: string) (tab_active: bool)

definition renderPanels :: "dash \<Rightarrow> tab list" where
  "renderPanels s =
     map (\<lambda>p. Tab (panel_id p) (escapeHTML (panel_name p)) (Str (panel_id p) = currentPanelId s))
       (panels s)"

section \<open>Cards and rows: \<open>renderDashboard\<close>\<close>

text \<open>A link row: its id, the \<open>href\<close> property, the favicon address, the glyph the
  \<open>onerror\<close> handler of the icon writes, the name, and the description span, present
  only for a non-empty description.\<close>

text \<open>The glyph: line 193 writes \<open>g = escapeHTML(link.name).charAt(0)\<close> between single
  quotes of a JavaScript string inside the double-quoted \<open>onerror\<close> attribute. A double
  quote ends the attribute, and a single quote, a backslash or a line break leaves the
  string literal unterminated: the handler does not compile (\<open>None\<close>), so the broken
  image stays and no glyph is shown. Any other \<open>g\<close> is one character (an \<open>&\<close> not
  followed by a name is kept by the attribute decoding) and is what the handler shows.\<close>

definition onerror_glyph :: "string \<Rightarrow> string option" where
  "onerror_glyph g =
     (if g \<in> {[CHR 0x22], [CHR 0x27], [CHR 0x5C], [CHR 0x0A], [CHR 0x0D]} then None else Some g)"

record link_view =
  lv_id :: ident
  lv_href :: string
  lv_icon :: string
  lv_glyph :: "string option"
  lv_name :: string
  lv_desc :: "string option"

record cat_view =
  cv_id :: ident
  cv_title :: string
  cv_links :: "link_view list"

datatype dash_view = NoPanels | EmptyPanel | Cards "cat_view list"

definition favicon_url :: "string \<Rightarrow> string" where
  "favicon_url domain = ''https://www.google.com/s2/favicons?domain='' @ domain @ ''&sz=32''"

definition render_link :: "url_parser \<Rightarrow> link \<Rightarrow> link_view" where
  "render_link hostname l =
     (let domain = extractDomain hostname (url l)
      in \<lparr>lv_id = link_id l, lv_href = url l, lv_icon = favicon_url domain,
          lv_glyph = onerror_glyph (take 1 (escapeHTML (link_name l))), lv_name = escapeHTML (link_name l),
          lv_desc = (if description l \<noteq> [] then Some (escapeHTML (description l)) else None)\<rparr>)"

definition render_category :: "url_parser \<Rightarrow> dash \<Rightarrow> category \<Rightarrow> cat_view" where
  "render_category hostname s c =
     \<lparr>cv_id = cat_id c, cv_title = escapeHTML (cat_name c),
      cv_links = map (render_link hostname) (category_links s (cat_id c))\<rparr>"

definition renderDashboard :: "url_parser \<Rightarrow> dash \<Rightarrow> dash_view" where
  "renderDashboard hostname s =
     (if panels s = [] then NoPanels
      else let panelCategories = panel_categories s
           in if panelCategories = [] then EmptyPanel
              else Cards (map (render_category hostname s) panelCategories))"

section \<open>Lemmas\<close>

lemma escapeHTML_simps [simp]:
  "escapeHTML [] = []" "escapeHTML (c # cs) = escape_char c @ escapeHTML cs"
  by (simp_all add: escapeHTML_def)

lemma js_replace_first_eq:
  "js_replace_first s p r =
     (if take (length p) s = p then r @ List.drop (length p) s
      else case s of [] \<Rightarrow> [] | c # cs \<Rightarrow> c # js_replace_first cs p r)"
  by (cases s) auto

text \<open>\<open>replace\<close> cuts out the first occurrence of the pattern, wherever it is.\<close>

lemma js_replace_first_split:
  assumes "\<forall>i<length a. take (length p) (List.drop i (a @ p @ b)) \<noteq> p"
  shows "js_replace_first (a @ p @ b) p r = a @ r @ b"
  using assms
proof (induction a)
  case Nil
  show ?case by (subst js_replace_first_eq) simp
next
  case (Cons x a)
  have "\<forall>i<length a. take (length p) (List.drop i (a @ p @ b)) \<noteq> p"
  proof (intro allI impI)
    fix i assume "i < length a"
    then show "take (length p) (List.drop i (a @ p @ b)) \<noteq> p"
      using Cons.prems by (auto dest: spec [of _ "Suc i"])
  qed
  moreover have "take (length p) (x # a @ p @ b) \<noteq> p" using Cons.prems by (auto dest: spec [of _ 0])
  ultimately show ?case using Cons.IH by simp
qed

lemma ascii_upper_dot: "ascii_upper c = CHR ''.'' \<Longrightarrow> c = CHR ''.''"
proof (cases "of_char c \<in> {97..122 :: nat}")
  case True
  assume h: "ascii_upper c = CHR ''.''"
  from True have "of_char c - 32 < (256 :: nat)" by auto
  with True have "of_char (ascii_upper c) = (of_char c - 32 :: nat)" by (simp add: ascii_upper_def)
  with h have "of_char c - 32 = (46 :: nat)" by simp
  with True show ?thesis by simp linarith
next
  case False
  assume "ascii_upper c = CHR ''.''"
  then show ?thesis unfolding ascii_upper_def by (simp only: if_not_P [OF False])
qed

text \<open>The first label of a host, capitalised, has no dot.\<close>

lemma site_name_no_dot:
  assumes "sn = takeWhile (\<lambda>c. c \<noteq> CHR ''.'') h"
  shows "CHR ''.'' \<notin> set (map ascii_upper (take 1 sn) @ List.drop 1 sn)"
proof -
  have n: "CHR ''.'' \<notin> set sn" using assms by (auto dest: set_takeWhileD)
  have u: "ascii_upper x \<noteq> CHR ''.''" if x: "x \<in> set sn" for x
  proof
    assume "ascii_upper x = CHR ''.''"
    then have "x = CHR ''.''" by (rule ascii_upper_dot)
    with x n show False by simp
  qed
  have a: "CHR ''.'' \<notin> ascii_upper ` set (take 1 sn)"
  proof
    assume "CHR ''.'' \<in> ascii_upper ` set (take 1 sn)"
    then obtain x where x: "x \<in> set (take 1 sn)" "CHR ''.'' = ascii_upper x" by (rule imageE)
    from x(1) have "x \<in> set sn" by (rule in_set_takeD)
    from u [OF this] x(2) [symmetric] show False by (rule notE)
  qed
  have b: "CHR ''.'' \<notin> set (List.drop 1 sn)" using n by (auto dest: in_set_dropD)
  from a b show ?thesis by simp
qed

text \<open>The rows of the cards, counted by link id, are the rows of each card added up.\<close>

lemma rows_count:
  "length (filter (\<lambda>v. lv_id v = k) (concat (map cv_links (map (render_category h s) cs)))) =
   sum_list (map (\<lambda>c. length (filter (\<lambda>l. link_id l = k) (category_links s (cat_id c)))) cs)"
  by (induction cs) (simp_all add: render_category_def render_link_def Let_def filter_map comp_def)

lemma renderDashboard_Cards:
  "renderDashboard h s = Cards cvs \<Longrightarrow> cvs = map (render_category h s) (panel_categories s)"
  by (simp add: renderDashboard_def Let_def split: if_splits)

lemma wf_panel_categories_panels:
  "wf_dash s \<Longrightarrow> c \<in> set (panel_categories s) \<Longrightarrow> panels s \<noteq> []"
  by (auto simp: wf_defs panel_categories_def)

section \<open>Properties of the view\<close>

text \<open>C23: a name inserted through \<open>escapeHTML\<close> cannot open or close an element: its
  output has no angle bracket.\<close>

theorem escapeHTML_no_markup: "CHR ''<'' \<notin> set (escapeHTML s) \<and> CHR ''>'' \<notin> set (escapeHTML s)"
  by (induction s) (auto simp: escape_char_def)

text \<open>C24: \<open>extractDomain\<close> removes the first \<open>www.\<close> of the host wherever it occurs,
  not only a leading one.\<close>

theorem extractDomain_first_www:
  assumes h: "hostname u = Some (a @ ''www.'' @ b)"
    and first: "\<forall>i<length a. take 4 (List.drop i (a @ ''www.'' @ b)) \<noteq> ''www.''"
  shows "extractDomain hostname u = a @ b"
proof -
  have l4: "length ''www.'' = 4" by simp
  show ?thesis
    using h js_replace_first_split [of a "''www.''" b "[]", unfolded l4, OF first]
    by (simp add: extractDomain_def)
qed

text \<open>C25: leaving the url field never overwrites a name the user typed: the name changes
  only when it was empty, and then to a single host label, without a dot.\<close>

theorem link_url_blur_typed:
  assumes "link_url_blur hostname u n \<noteq> n"
  shows "n = [] \<and> CHR ''.'' \<notin> set (link_url_blur hostname u n)"
  using assms site_name_no_dot [OF refl] unfolding link_url_blur_def Let_def by (auto split: if_splits)

text \<open>C21: in a well-formed state exactly one tab is marked active when there is a panel,
  and none when there is none.\<close>

theorem renderPanels_one_active:
  assumes wf: "wf_dash s"
  shows "length (filter tab_active (renderPanels s)) = (if panels s = [] then 0 else 1)"
proof (cases "panels s = []")
  case True
  then show ?thesis by (simp add: renderPanels_def)
next
  case False
  with wf obtain p where p: "p \<in> set (panels s)" "currentPanelId s = Str (panel_id p)"
    by (auto simp: wf_defs)
  have d: "distinct (panel_ids s)" using wf by (simp add: wf_defs)
  have "filter tab_active (renderPanels s) =
        map (\<lambda>q. Tab (panel_id q) (escapeHTML (panel_name q)) True)
          (filter (\<lambda>q. panel_id q = panel_id p) (panels s))"
    using p(2) by (simp add: renderPanels_def filter_map comp_def)
  also have "\<dots> = [Tab (panel_id p) (escapeHTML (panel_name p)) True]"
    using distinct_key_filter_eq [OF d p(1)] by simp
  finally show ?thesis using False by simp
qed

text \<open>C19: in a well-formed state the dashboard shows every link of a category of the
  current panel exactly once, and no other link.\<close>

theorem renderDashboard_each_link_once:
  assumes wf: "wf_dash s" and l: "l \<in> set (links s)" and r: "renderDashboard h s = Cards cvs"
  shows "length (filter (\<lambda>v. lv_id v = link_id l) (concat (map cv_links cvs))) =
    (if categoryId l \<in> set (map cat_id (panel_categories s)) then 1 else 0)"
proof -
  have dl: "distinct (link_ids s)" and dc: "distinct (cat_ids s)" using wf by (simp_all add: wf_defs)
  have one: "length (filter (\<lambda>l'. link_id l' = link_id l) (category_links s cid)) =
      (if categoryId l = cid then 1 else 0)" for cid
  proof -
    have "filter (\<lambda>l'. link_id l' = link_id l) (category_links s cid) =
          filter (\<lambda>l'. categoryId l' = cid) (filter (\<lambda>l'. link_id l' = link_id l) (links s))"
      by (simp add: category_links_def filter_filter conj_commute)
    also have "\<dots> = filter (\<lambda>l'. categoryId l' = cid) [l]" using distinct_key_filter_eq [OF dl l] by simp
    finally show ?thesis by simp
  qed
  have dpc: "distinct (map cat_id (panel_categories s))"
    using dc by (auto simp: panel_categories_def)
  have cnt: "length (filter (\<lambda>c. categoryId l = cat_id c) (panel_categories s)) =
        (if categoryId l \<in> set (map cat_id (panel_categories s)) then 1 else 0)"
  proof (cases "categoryId l \<in> set (map cat_id (panel_categories s))")
    case True
    then obtain c where c: "c \<in> set (panel_categories s)" "cat_id c = categoryId l" by auto
    have "filter (\<lambda>c'. categoryId l = cat_id c') (panel_categories s) = [c]"
      using distinct_key_filter_eq [OF dpc c(1)] c(2) by (simp add: eq_commute)
    with True show ?thesis by simp
  next
    case False
    then show ?thesis by (auto simp: filter_empty_conv)
  qed
  have "length (filter (\<lambda>v. lv_id v = link_id l) (concat (map cv_links cvs))) =
        sum_list (map (\<lambda>c. length (filter (\<lambda>l'. link_id l' = link_id l) (category_links s (cat_id c))))
          (panel_categories s))"
    unfolding renderDashboard_Cards [OF r] by (rule rows_count)
  also have "\<dots> = sum_list (map (\<lambda>c. if categoryId l = cat_id c then 1 else 0) (panel_categories s))"
    by (simp only: one)
  also have "\<dots> = length (filter (\<lambda>c. categoryId l = cat_id c) (panel_categories s))"
    by (rule sum_list_indicator)
  finally show ?thesis using cnt by simp
qed

text \<open>C20: a link dropped on the background of a category of the current panel is shown as
  the last row of that category's card, with the category changed.\<close>

theorem drop_on_category_shown_last:
  assumes wf: "wf_dash s" and L: "L \<in> set (links s)"
    and dv: "draggedItem d = Some (LinkElem (link_id L))" "dragType d = Some DragLink"
    and C: "C \<in> set (panel_categories s)"
    and r: "drop d (OnCategory (cat_id C)) s = Inr s'"
  shows "\<exists>cvs. renderDashboard h s' = Cards cvs \<and> render_category h s' C \<in> set cvs \<and>
    cv_links (render_category h s' C) \<noteq> [] \<and>
    last (cv_links (render_category h s' C)) = render_link h (L\<lparr>categoryId := cat_id C\<rparr>)"
proof -
  have d: "distinct (link_ids s)" using wf by (simp add: wf_defs)
  have s': "s' = saveData (s\<lparr>links := filter (\<lambda>l. link_id l \<noteq> link_id L) (links s) @ [L\<lparr>categoryId := cat_id C\<rparr>]\<rparr>)"
    using r dv dropLink_removed [OF d L] by (simp add: drop_link_eq dropLink_def dropLinkTarget_def js_push_def)
  have pc: "panel_categories s' = panel_categories s" "panels s' = panels s"
    by (simp_all add: s' panel_categories_def)
  have cl: "category_links s' (cat_id C) =
      filter (\<lambda>l. categoryId l = cat_id C) (filter (\<lambda>l. link_id l \<noteq> link_id L) (links s)) @ [L\<lparr>categoryId := cat_id C\<rparr>]"
    by (simp add: s' category_links_def)
  have "panel_categories s \<noteq> []" using C by auto
  then show ?thesis using pc wf_panel_categories_panels [OF wf C] C cl
    by (auto simp: renderDashboard_def render_category_def Let_def)
qed

subsection \<open>Witnesses\<close>

theorem extractDomain_first_www_witness:
  "extractDomain (\<lambda>_. Some ''wwww.example.com'') ''https://wwww.example.com/'' = ''wexample.com''"
  using extractDomain_first_www [of "\<lambda>_. Some ''wwww.example.com''" "''https://wwww.example.com/''"
      "''w''" "''example.com''"]
  by simp

theorem link_url_blur_typed_witness:
  "link_url_blur (\<lambda>_. Some ''www.github.com'') '' https://www.github.com/x '' [] = ''Github'' \<and>
   CHR ''.'' \<notin> set (link_url_blur (\<lambda>_. Some ''www.github.com'') '' https://www.github.com/x '' [])"
proof -
  have g: "char_of (71 :: nat) = CHR ''G''" by code_simp
  have e: "link_url_blur (\<lambda>_. Some ''www.github.com'') '' https://www.github.com/x '' [] = ''Github''"
    by (simp add: link_url_blur_def Let_def js_trim_def js_ws_def extractDomain_def ascii_upper_def g)
  with link_url_blur_typed [of "\<lambda>_. Some ''www.github.com''" "'' https://www.github.com/x ''" "[]"]
  show ?thesis by simp
qed

theorem renderPanels_one_active_witness:
  "wf_dash ex_dash \<and> length (filter tab_active (renderPanels ex_dash)) = 1"
  using renderPanels_one_active [OF wf_ex_dash] wf_ex_dash by (simp add: ex_defs)

theorem renderDashboard_each_link_once_witness:
  "renderDashboard (\<lambda>_. None) ex_dash = Cards (map (render_category (\<lambda>_. None) ex_dash) (panel_categories ex_dash)) \<and>
   length (filter (\<lambda>v. lv_id v = ''l1'')
     (concat (map cv_links (map (render_category (\<lambda>_. None) ex_dash) (panel_categories ex_dash))))) = 1"
proof -
  have r: "renderDashboard (\<lambda>_. None) ex_dash = Cards (map (render_category (\<lambda>_. None) ex_dash) (panel_categories ex_dash))"
    by (simp add: renderDashboard_def Let_def ex_defs panel_categories_def)
  have l: "ex_link ''l1'' ''c1'' \<in> set (links ex_dash)" by (simp add: ex_dash_def)
  from renderDashboard_each_link_once [OF wf_ex_dash l r] r show ?thesis
    by (simp add: ex_defs panel_categories_def)
qed

theorem drop_on_category_shown_last_witness:
  "\<exists>s'. drop \<lparr>draggedItem = Some (LinkElem ''l2''), dragType = Some DragLink\<rparr> (OnCategory ''c3'') ex_dash = Inr s' \<and>
     (\<exists>cvs. renderDashboard (\<lambda>_. None) s' = Cards cvs \<and> render_category (\<lambda>_. None) s' ex_cat3 \<in> set cvs \<and>
       last (cv_links (render_category (\<lambda>_. None) s' ex_cat3)) =
         render_link (\<lambda>_. None) (ex_link ''l2'' ''c3''))"
proof -
  let ?d = "\<lparr>draggedItem = Some (LinkElem ''l2''), dragType = Some DragLink\<rparr>"
  obtain s' where r: "drop ?d (OnCategory ''c3'') ex_dash = Inr s'"
    by (simp add: drop_def dropLink_def dropLinkTarget_def ex_defs Let_def js_array_simps
        js_splice_remove_def js_rel_index_def)
  have L: "ex_link ''l2'' ''c2'' \<in> set (links ex_dash)" by (simp add: ex_dash_def)
  have C: "ex_cat3 \<in> set (panel_categories ex_dash)" by (simp add: ex_defs panel_categories_def)
  have c3: "cat_id ex_cat3 = ''c3''" "(ex_link ''l2'' ''c2'')\<lparr>categoryId := ''c3''\<rparr> = ex_link ''l2'' ''c3''"
    by (simp_all add: ex_cat3_def ex_link_def)
  from drop_on_category_shown_last [OF wf_ex_dash L, of ?d ex_cat3 s' "\<lambda>_. None"] r C c3
  show ?thesis by (auto simp: ex_link_def)
qed

end
