(* ===== verification/Spec2Isabelle.thy ===== *)
theory Spec2Isabelle
  imports Storage Render
begin

text \<open>
  \<^bold>\<open>A verification development of \<^verbatim>\<open>src/Dashboard/script.js\<close>\<close>, the
  single script of a browser start page that keeps panels (tabs), categories and links in
  \<open>localStorage\<close> and lets the user add, edit, delete and drag them.

  \<^bold>\<open>The program.\<close> Module-level variables hold three flat arrays (\<open>panels\<close>,
  \<open>categories\<close> with a \<open>panelId\<close>, \<open>links\<close> with a \<open>categoryId\<close>), the current
  panel, the theme and the drag state (lines 1--12). \<open>init()\<close> (40--79) migrates or
  seeds the data, repairs the current panel, renders, and only then registers the
  listeners. Every change is a DOM event: the form submit handlers (493--562), the delete
  branches of two delegated click listeners (300--377), the tab and theme clicks, and the
  drag-and-drop listeners (382--489). Each handler mutates the arrays, calls
  \<open>saveData()\<close> (648--652), which writes \<open>JSON.stringify\<close> of the three arrays, and
  re-renders.

  \<^bold>\<open>Theories.\<close>
  \<^item> \<open>Prelude\<close>: JavaScript array primitives with their ECMAScript semantics
    (\<open>findIndex\<close> answering \<open>-1\<close>, \<open>splice\<close> with relative start, \<open>push\<close>,
    \<open>trim\<close>, \<open>startsWith\<close>) and the list lemmas the components share: splitting at
    the element \<open>findIndex\<close> finds, removing and reinserting by key, updating in place.
  \<^item> \<open>Model\<close>: the records \<open>panel\<close>, \<open>category\<close>, \<open>link\<close>, the state \<open>dash\<close>
    and the value store \<open>store\<close>; \<open>jsid\<close> makes HOL equality JavaScript's \<open>===\<close> on
    \<open>undefined\<close>/\<open>null\<close>/strings. The invariant \<open>wf_dash\<close>: unique non-empty ids,
    categories naming panels, links naming categories, a current panel that exists.
  \<^item> \<open>Repository\<close>: \<open>handleLinkSubmit\<close>, \<open>handleCategorySubmit\<close>,
    \<open>handlePanelSubmit\<close>, the three delete branches (\<open>confirm\<close> is the user's answer,
    a function argument), the tab click, the theme toggle and the guards of the add
    buttons (\<open>alert\<close> is the \<open>error\<close> value). Each preserves \<open>wf_dash\<close>; deleting a
    panel cascades exactly (C5); the edit branches are in-place updates by id (C8, C9).
  \<^item> \<open>DragDrop\<close>: the drag variables, the arming listeners, \<open>dragstart\<close>,
    \<open>dragend\<close> and the \<open>drop\<close> listener with its exceptions as \<open>Inl (error, state)\<close>
    values. \<open>UndefinedLink\<close> is not an exception: it marks the link drop that found
    the array empty and, reverting, inserted \<open>undefined\<close> into it (lines 469, 483).
    The reorder and reparent laws (C6, C7, C31--C35) and preservation of the invariant,
    on the throwing paths too.
  \<^item> \<open>Init\<close>: reading storage (lines 2--12), legacy migration, first run and the
    self-heal of \<open>init()\<close> (C26--C30). \<open>generateId()\<close> is the parameter \<open>gen\<close>:
    \<open>gen k\<close> is the id of its \<open>k\<close>-th call.
  \<^item> \<open>Forms\<close>: the dialogs: the values \<open>openModal\<close> (565--623) writes into each form,
    the category options of \<open>updateCategorySelect\<close> (632--641) and the fallback of
    \<open>select.value\<close> to the first option. Every link the form writes is trimmed with a
    normalised url (C15), and saving an edit dialog unchanged changes no link (C16).
  \<^item> \<open>Session\<close>: the page as a state machine: \<open>app\<close> adds to the program state the
    drag variables, the armed elements and whether the source of the last
    \<open>dragstart\<close> is still in the page; \<open>app_step\<close> runs one event to completion on a
    page whose links array is intact. \<open>corrupts\<close> recognises the drop that puts
    \<open>undefined\<close> into it; \<open>holed_step\<close> is the page after it, where every
    \<open>findIndex\<close>, \<open>filter\<close> or \<open>find\<close> over \<open>links\<close> throws and a render throws
    when it reaches a card (\<open>renders_card\<close>); \<open>page_step\<close> runs either.
    \<open>startup\<close> is loading the page, \<open>None\<close> when \<open>init()\<close> throws before
    \<open>setupEventListeners()\<close>. \<open>reachable\<close> and \<open>reachable_ok\<close> (runs without an
    exception) follow the intact page, \<open>reachable_page\<close> every run. \<open>event_ok\<close> is the
    interface: the events the browser and the user can deliver (a category the select
    offers, fresh ids, tabs and cards the last render drew, a card made draggable by its
    handle). The relation \<open>persisted\<close> says storage agrees with memory and
    \<open>theme_persisted\<close> that a stored theme is the shown one; every step keeps them.
  \<^item> \<open>JSON\<close>: JSON values, \<open>JSON.stringify\<close> as a token stream, a lexer (a
    \<open>function\<close> with a termination proof by \<open>measure length\<close>) and a stack-machine
    parser, with \<open>parse_stringify\<close>: parsing the text of a value gives the value back.
  \<^item> \<open>Storage\<close>: the strings \<open>localStorage\<close> holds (\<open>store_text\<close>, and
    \<open>page_text\<close> with the \<open>null\<close> the corrupting drop writes), reading them back
    (\<open>abs_text\<close>, \<open>boot_text\<close>), exact for what the program writes; an exception at
    start-up for text \<open>JSON.parse\<close> rejects (C13).
  \<^item> \<open>Render\<close>: the view: \<open>renderPanels\<close> (89--117) as a list of tabs,
    \<open>renderDashboard\<close> (120--225) as the no-panel or empty-panel state or a card per
    category of the current panel with a row per link, \<open>escapeHTML\<close> (663--667) as HTML
    serialisation escapes a text node, the fallback glyph of the favicon's \<open>onerror\<close>
    handler (line 193; \<open>None\<close> when the character would end or break the handler's
    single-quoted JS string), \<open>extractDomain\<close> (654--661) and the name autofill of the
    url field (284--296). One active tab (C21), each link shown once (C19), a dropped link
    shown last in its card (C20), escaping that admits no markup (C23), the \<open>www.\<close>
    removal (C24), the autofill never overwriting a typed name (C25).
  \<^item> This theory: the properties of whole runs: the invariant of every reachable state
    (C1), reload from the stored texts (C2), the drop that puts \<open>undefined\<close> into the
    links array (C3) and the page that then never gets a listener again (C4), the stale
    drag state after a drop and its consequences (C10--C12), the alerts of the add
    buttons (C14), the theme across a reload (C17), the stored schema (C18), and that a
    stale drag can always be cleared (C22, liveness).

  \<^bold>\<open>Browser semantics the model takes as given.\<close> \<open>renderDashboard\<close> empties
  \<open>#dashboard-content\<close> (line 121): an element held in \<open>draggedItem\<close> becomes
  \<open>Detached\<close>, identical to no element of the page, the new elements carry no
  \<open>draggable\<close> attribute, and \<open>dragend\<close> fired at the removed source no longer reaches
  the listener delegated to the container. A drag from outside the page fires no
  \<open>dragstart\<close> in the page, only \<open>drop\<close>. A link row is an \<open><a href>\<close> element and
  is draggable without its handle. \<open>JSON.stringify\<close> writes \<open>undefined\<close> in an array
  as \<open>null\<close>, and reading a property of \<open>undefined\<close> or \<open>null\<close> throws.

  \<^bold>\<open>Bounds and fuel.\<close> None: every loop of the source is a \<open>forEach\<close>,
  \<open>filter\<close>, \<open>find\<close> or \<open>findIndex\<close> over a finite array and is structural recursion
  here; the JSON lexer, the one non-structural recursion, has a termination proof by the
  length of the text. \<open>new URL(u).hostname\<close> is a parameter of the view (\<open>None\<close>
  where it throws).

  \<^bold>\<open>Not modelled.\<close> \<open>updateClock\<close> (82--86), which shows the system time and
  touches no program state; \<open>applyTheme\<close> (669--679), the \<open>dragover\<close> highlighting
  (420--442) and \<open>closeModal\<close> (625--630), which only set classes and attributes; the
  markup and icons of the render templates and the \<open>preventDefault\<close> click handlers of
  a link row; the URL parser behind \<open>new URL\<close>; \<open>generateId\<close>'s clock and randomness
  (ids are a parameter, assumed fresh). Stored objects with fields that are not strings or
  with properties the program never writes, top-level JSON numbers, and characters above
  \<open>0xFF\<close> are outside the model (\<open>BadShape\<close>, \<open>Unrepresentable\<close>).
\<close>

section \<open>Properties of the whole page\<close>

text \<open>C1: every state reachable from a well-formed start-up while the links array is
  intact is well-formed, states left by a listener that threw included. The drop that
  corrupts the links array is C3.\<close>

theorem reachable_wf: "reachable a \<Longrightarrow> wf_dash (mem a)"
  by (induction rule: reachable.induct) (simp_all add: start_def app_step_wf)

text \<open>C2: reload: in every state reached without an exception and with the links array
  intact, the texts left in
  \<open>localStorage\<close> parse, and start-up from them gives back the same panels, categories,
  links and current panel, as long as a panel is left.\<close>

theorem reload_restores:
  assumes r: "reachable_ok a" and ne: "panels (mem a) \<noteq> []"
  shows "\<exists>d. boot_text pd gen (store_text (storage (mem a))) = Inr d \<and>
    panels d = panels (mem a) \<and> categories d = categories (mem a) \<and>
    links d = links (mem a) \<and> currentPanelId d = currentPanelId (mem a)"
  using reachable_ok_inv [OF r] ne by (simp add: boot_text_def abs_text_store persisted_boot)

text \<open>C18: what \<open>dashboard_categories\<close> holds in every state reached without an
  exception has the shape of section 6 of the specification: an array of objects with
  string \<open>id\<close>, \<open>name\<close> and \<open>panelId\<close>.\<close>

theorem stored_categories_schema:
  assumes r: "reachable_ok a"
  shows "case txt_categories (store_text (storage (mem a))) of None \<Rightarrow> True
    | Some t \<Rightarrow> \<exists>js. json_parse t = Inr (JArr js) \<and> list_all category_schema js"
proof (cases "ls_categories (storage (mem a))")
  case (Some cs)
  have wf: "wf_dash (mem a)" and p: "persisted (mem a)" using reachable_ok_inv [OF r] by simp_all
  from p Some have cs: "cs = categories (mem a)" by (simp add: persisted_def)
  have "category_schema (encode_category c)" if "c \<in> set cs" for c
  proof -
    from wf that cs have "panelId c \<in> Str ` set (panel_ids (mem a))" by (auto simp: wf_defs)
    then obtain q where "panelId c = Str q" by blast
    then show ?thesis by (simp add: encode_category_def category_schema_def)
  qed
  then have "list_all category_schema (map encode_category cs)" by (simp add: list_all_iff)
  with Some parse_stringify [OF json_ok_encode(2) [of cs]] show ?thesis by (simp add: store_text_def)
qed (simp add: store_text_def)

text \<open>C3: a link drag whose \<open>draggedItem\<close> is stale, dropped outside every category
  (a file or text dragged in from outside) while the links array is empty, puts
  \<open>undefined\<close> into it: \<open>splice(-1, 1)\<close> removes nothing and \<open>splice(-1, 0,
  undefined)\<close> inserts it, and \<open>saveData()\<close> stores \<open>[null]\<close>. The listener completes
  without an exception exactly when the render that follows shows no category card.\<close>

theorem drop_corrupts_links:
  assumes d: "draggedItem (dvars a) = Some el" "dragType (dvars a) = Some DragLink"
    and e: "links (mem a) = []" and t: "closest_category t = None"
  shows "corrupts a (Drop t) \<and>
    fst (app_step a (Drop t)) = (if renders_card (mem a) then Threw TypeError else Completed) \<and>
    txt_links (page_text (snd (page_step (Intact a) (Drop t)))) = Some ''[null]''"
proof -
  have "closest_link t = None" using t by (cases t) simp_all
  then have r: "drop (dvars a) t (mem a) = Inl (UndefinedLink, saveData (mem a))"
    using d e t by (simp add: drop_def dropLink_def dropLinkTarget_def Let_def js_splice_remove_def)
  have rc: "renders_card (saveData (mem a)) = renders_card (mem a)"
    by (simp add: renders_card_def panel_categories_def)
  show ?thesis
    using r rc e by (simp add: corrupts_def detach_def saveData_def stringify_def commas_def)
qed

text \<open>C4: the corruption outlives every reload. From stored texts with no panel and no
  category (the state after every panel was deleted) and a links text that begins with
  \<open>null\<close>, start-up seeds Work and Personal with a category each, saves them, and its
  render then throws before \<open>setupEventListeners()\<close>: the page has no listener. Every
  later start-up reads what that one saved, which it leaves as it is, and throws again.\<close>

theorem reload_after_corruption_dead:
  assumes p: "load_list (ls_panels st) = []" and c: "load_list (ls_categories st) = []"
  shows "startup pd gen st True = None \<and> startup pd' gen' (storage (boot pd gen st)) True = None \<and>
    storage (boot pd' gen' (storage (boot pd gen st))) = storage (boot pd gen st)"
proof -
  let ?W = "\<lparr>panel_id = gen 0, panel_name = ''Work''\<rparr>" and ?P = "\<lparr>panel_id = gen 1, panel_name = ''Personal''\<rparr>"
  let ?cs = "[\<lparr>cat_id = gen 2, cat_name = ''Projects'', panelId = Str (gen 0)\<rparr>,
       \<lparr>cat_id = gen 3, cat_name = ''Favorites'', panelId = Str (gen 1)\<rparr>]"
  have seeded: "renders_card d" if "panels d = [?W, ?P]" "categories d = ?cs"
    "currentPanelId d \<in> Str ` set (map panel_id (panels d))" for d
    using that by (auto simp: renders_card_def panel_categories_def)
  have b: "panels (boot pd gen st) = [?W, ?P]" "categories (boot pd gen st) = ?cs"
    "ls_panels (storage (boot pd gen st)) = Some [?W, ?P]"
    "ls_categories (storage (boot pd gen st)) = Some ?cs"
    using p c by (simp_all add: boot_def init_def load_def Let_def first_run_def saveData_def)
  have first: "renders_card (boot pd gen st)"
    using seeded b init_current_in [of gen "load pd st"] by (simp add: boot_def)
  let ?st = "storage (boot pd gen st)"
  have pc: "panels (boot pd' gen' ?st) = [?W, ?P]" "categories (boot pd' gen' ?st) = ?cs"
    "storage (boot pd' gen' ?st) = ?st"
    using b by (simp_all add: boot_def init_def load_def Let_def)
  have second: "renders_card (boot pd' gen' ?st)"
    using seeded pc init_current_in [of gen' "load pd' ?st"] by (simp add: boot_def)
  show ?thesis using first second pc(3) by (simp add: startup_def Let_def)
qed

text \<open>C10: a drop that re-renders detaches the dragged element, so its \<open>dragend\<close> never
  reaches the listener: \<open>draggedItem\<close> and \<open>dragType\<close> survive the drag, still naming
  the dragged element.\<close>

theorem drop_render_keeps_drag:
  assumes rd: "drop_renders (dvars a) t" and r: "app_step a (Drop t) = (Completed, b)"
  shows "snd (app_step b DragEnd) = b \<and> dragType (dvars b) = dragType (dvars a) \<and>
    map_option elem_id (draggedItem (dvars b)) = map_option elem_id (draggedItem (dvars a))"
proof (cases "drop (dvars a) t (mem a)")
  case (Inl x)
  then obtain err s1 where x: "drop (dvars a) t (mem a) = Inl (err, s1)" by (cases x) auto
  with r have "err = UndefinedLink \<and> b = detach (a\<lparr>mem := s1\<rparr>)" by (auto split: if_splits)
  then show ?thesis by (simp add: detach_def option.map_comp comp_def)
next
  case (Inr s')
  with r rd have "b = detach (a\<lparr>mem := s'\<rparr>)" by simp
  then show ?thesis by (simp add: detach_def option.map_comp comp_def)
qed

text \<open>C11: a drop while \<open>draggedItem\<close> still names a link that no longer exists (a
  file or a text dragged in from outside the page after the stale drag above) takes
  \<open>findIndex = -1\<close>, and \<open>splice(-1, 1)\<close> removes the last link of the array: dropped
  on a category, that unrelated link moves into it.\<close>

theorem stale_drop_moves_last_link:
  assumes d: "draggedItem (dvars a) = Some el" "dragType (dvars a) = Some DragLink"
    and gone: "elem_id el \<notin> set (link_ids (mem a))" and ls: "links (mem a) = xs @ [x]"
    and t: "closest_link t = None" "closest_category t = Some c"
  shows "fst (app_step a (Drop t)) = Completed \<and>
    links (mem (snd (app_step a (Drop t)))) = xs @ [x\<lparr>categoryId := c\<rparr>]"
proof -
  have "js_findIndex (\<lambda>k. link_id k = elem_id el) (links (mem a)) = -1"
    using js_findIndex_none [OF key_notin_map [OF gone]] .
  with ls have rm: "js_splice_remove (links (mem a)) (js_findIndex (\<lambda>k. link_id k = elem_id el) (links (mem a))) = (Some x, xs)"
    by (simp add: js_splice_remove_last)
  have "drop (dvars a) t (mem a) = Inr (saveData ((mem a)\<lparr>links := xs @ [x\<lparr>categoryId := c\<rparr>]\<rparr>))"
    using d t rm by (simp add: drop_def dropLink_def dropLinkTarget_def Let_def js_push_def)
  then show ?thesis by (simp add: detach_def drop_renders_def d)
qed

text \<open>C12: a drop from outside the page onto the very link a stale \<open>draggedItem\<close>
  names: the detached element is not the link under the pointer, so the link is spliced
  out, the target lookup then finds nothing and the listener throws a \<open>TypeError\<close>;
  the link is gone from memory but not from storage, and the next save of any other
  handler deletes it for good.\<close>

theorem stale_drop_on_own_link:
  assumes d: "draggedItem (dvars a) = Some (Detached (LinkElem (link_id L)))" "dragType (dvars a) = Some DragLink"
    and dist: "distinct (link_ids (mem a))" and L: "L \<in> set (links (mem a))"
  shows "app_step a (Drop (OnLink (link_id L) c)) =
    (Threw TypeError, a\<lparr>mem := (mem a)\<lparr>links := filter (\<lambda>k. link_id k \<noteq> link_id L) (links (mem a))\<rparr>\<rparr>)"
proof -
  have rm: "js_splice_remove (links (mem a)) (js_findIndex (\<lambda>k. link_id k = link_id L) (links (mem a))) =
      (Some L, filter (\<lambda>k. link_id k \<noteq> link_id L) (links (mem a)))"
    using splice_remove_by_key [OF dist L] .
  have "find (\<lambda>k. link_id k = link_id L) (filter (\<lambda>k. link_id k \<noteq> link_id L) (links (mem a))) = None"
    by (simp add: find_None_iff)
  with d rm show ?thesis
    by (simp add: drop_def dropLink_def dropLinkTarget_def Let_def)
qed

text \<open>C14: the add buttons' guards: adding a link while the current panel has no category,
  or a category while there is no current panel, shows the alert and changes nothing, the
  storage and the drag state included.\<close>

theorem add_guards_alert:
  "(form_link_id f = [] \<and> panel_categories (mem a) = [] \<longrightarrow>
      app_step a (SubmitLink f i) = (Alerted (Alert ''Please create a category first!''), a)) \<and>
   (form_cat_id g = [] \<and> \<not> js_truthy (currentPanelId (mem a)) \<longrightarrow>
      app_step a (SubmitCategory g i) = (Alerted (Alert ''Please create a panel first!''), a))"
  by (simp add: addLinkGuard_def addCategoryGuard_def)

text \<open>C17: once the user has toggled the theme, a reload shows the same theme whatever the
  system's colour-scheme preference is at that load.\<close>

theorem theme_reload:
  assumes r: "reachable a" and t: "ls_theme (storage (mem a)) = Some th" "th \<noteq> []"
  shows "currentTheme (boot pd gen (storage (mem a))) = currentTheme (mem a)"
proof -
  have "th = currentTheme (mem a)" using reachable_theme [OF r] t by (simp add: theme_persisted_def)
  with t show ?thesis
    by (simp add: boot_def init_def load_def Let_def load_theme_def migrate_legacy_def first_run_def)
qed

text \<open>C22: a stale drag can always be cleared: from every reachable state, a complete drag
  gesture on a category card of the page (mouse down on its handle, which makes the card
  draggable, then \<open>dragstart\<close> and \<open>dragend\<close>) is a run the interface allows, leaves
  the data unchanged and resets \<open>draggedItem\<close> and \<open>dragType\<close>.\<close>

theorem stale_drag_cleared:
  assumes r: "reachable a" and c: "c \<in> set (panel_categories (mem a))"
  shows "reachable (run a [HandleDown (Some (CatElem (cat_id c))), DragStart (Some (CatElem (cat_id c))), DragEnd]) \<and>
    mem (run a [HandleDown (Some (CatElem (cat_id c))), DragStart (Some (CatElem (cat_id c))), DragEnd]) = mem a \<and>
    dvars (run a [HandleDown (Some (CatElem (cat_id c))), DragStart (Some (CatElem (cat_id c))), DragEnd]) = no_drag"
proof -
  let ?e = "CatElem (cat_id c)"
  have s: "run a [HandleDown (Some ?e), DragStart (Some ?e), DragEnd] =
    snd (app_step (snd (app_step (snd (app_step a (HandleDown (Some ?e)))) (DragStart (Some ?e)))) DragEnd)"
    by (simp add: run_def)
  have "reachable (run a [HandleDown (Some ?e), DragStart (Some ?e), DragEnd])"
    unfolding s by (intro reachable.step r) (simp_all add: corrupts_def mousedown_def)
  moreover have "mem (run a [HandleDown (Some ?e), DragStart (Some ?e), DragEnd]) = mem a \<and>
      dvars (run a [HandleDown (Some ?e), DragStart (Some ?e), DragEnd]) = no_drag"
    unfolding s by (simp add: dragstart_def dragend_def)
  ultimately show ?thesis by simp
qed

subsection \<open>Witnesses\<close>

theorem reachable_wf_witness:
  "reachable (snd (app_step ex_start (TabClick ''xx''))) \<and> wf_dash (mem (snd (app_step ex_start (TabClick ''xx''))))"
proof -
  have r: "reachable (snd (app_step ex_start (TabClick ''xx'')))"
    by (rule reachable.step [OF reachable_ok_reachable [OF reachable_ok_ex_start]]) (simp_all add: ex_start_mem corrupts_def)
  from r reachable_wf [OF r] show ?thesis by simp
qed

theorem reload_restores_witness:
  "reachable_ok (snd (app_step ex_start (TabClick ''xx''))) \<and>
   panels (mem (snd (app_step ex_start (TabClick ''xx'')))) \<noteq> [] \<and>
   (\<exists>d. boot_text True ex_gen (store_text (storage (mem (snd (app_step ex_start (TabClick ''xx'')))))) = Inr d \<and>
        currentPanelId d = Str ''xx'')"
proof -
  let ?a = "snd (app_step ex_start (TabClick ''xx''))"
  have r: "reachable_ok ?a"
    by (rule reachable_ok.step [OF reachable_ok_ex_start]) (simp_all add: ex_start_mem corrupts_def)
  have ne: "panels (mem ?a) \<noteq> []" by (simp add: ex_start_mem detach_def selectPanel_def)
  have c: "currentPanelId (mem ?a) = Str ''xx''" by (simp add: ex_start_mem detach_def selectPanel_def)
  from reload_restores [OF r ne, of True ex_gen] r ne c show ?thesis by auto
qed

theorem stored_categories_schema_witness:
  "reachable_ok ex_start \<and>
   (case txt_categories (store_text (storage (mem ex_start))) of None \<Rightarrow> True
    | Some t \<Rightarrow> \<exists>js. json_parse t = Inr (JArr js) \<and> list_all category_schema js)"
  using reachable_ok_ex_start stored_categories_schema [OF reachable_ok_ex_start] by simp

theorem drop_render_keeps_drag_witness:
  "drop_renders (dvars (run (start ex_dash) [DragStart (Some (LinkElem ''l1''))])) (OnLink ''l2'' ''c2'') \<and>
   fst (app_step (run (start ex_dash) [DragStart (Some (LinkElem ''l1''))]) (Drop (OnLink ''l2'' ''c2''))) = Completed \<and>
   map_option elem_id (draggedItem (dvars (run (start ex_dash)
     [DragStart (Some (LinkElem ''l1'')), Drop (OnLink ''l2'' ''c2''), DragEnd]))) = Some ''l1''"
proof -
  let ?a = "run (start ex_dash) [DragStart (Some (LinkElem ''l1''))]"
  let ?t = "OnLink ''l2'' ''c2''"
  have rd: "drop_renders (dvars ?a) ?t" by (simp add: ex_run_simps)
  have c: "fst (app_step ?a (Drop ?t)) = Completed" by (simp add: ex_run_simps)
  then have r: "app_step ?a (Drop ?t) = (Completed, snd (app_step ?a (Drop ?t)))"
    by (metis prod.collapse)
  have "draggedItem (dvars ?a) = Some (LinkElem ''l1'')" by (simp add: run_def start_def dragstart_def)
  with drop_render_keeps_drag [OF rd r] rd c show ?thesis by (simp add: run_def)
qed

theorem stale_drop_moves_last_link_witness:
  "links (mem (snd (app_step (run (start ex_dash) [DragStart (Some (LinkElem ''l1'')), Drop (OnLink ''l2'' ''c2''),
       DragEnd, DeleteLinkClick ''l1'' confirm_all]) (Drop (OnCategory ''c3''))))) =
     [ex_link ''l2'' ''c2'', ex_link ''l3'' ''c3'', ex_link ''l4'' ''c3'']"
proof -
  let ?a = "run (start ex_dash) [DragStart (Some (LinkElem ''l1'')), Drop (OnLink ''l2'' ''c2''),
       DragEnd, DeleteLinkClick ''l1'' confirm_all]"
  have m: "links (mem ?a) = [ex_link ''l2'' ''c2'', ex_link ''l3'' ''c3''] @ [ex_link ''l4'' ''c1'']"
    by (simp add: ex_run_simps)
  have d: "draggedItem (dvars ?a) = Some (Detached (LinkElem ''l1''))" "dragType (dvars ?a) = Some DragLink"
    by (simp_all add: ex_run_simps)
  have g: "elem_id (Detached (LinkElem ''l1'')) \<notin> set (link_ids (mem ?a))" using m by (simp add: ex_defs)
  from stale_drop_moves_last_link [OF d g m, of "OnCategory ''c3''" "''c3''"] show ?thesis
    by (simp add: ex_defs)
qed

theorem stale_drop_on_own_link_witness:
  "fst (app_step (run (start ex_dash) [DragStart (Some (LinkElem ''l1'')), Drop (OnLink ''l2'' ''c2''), DragEnd])
     (Drop (OnLink ''l1'' ''c2''))) = Threw TypeError \<and>
   map link_id (links (mem (snd (app_step (run (start ex_dash)
     [DragStart (Some (LinkElem ''l1'')), Drop (OnLink ''l2'' ''c2''), DragEnd]) (Drop (OnLink ''l1'' ''c2'')))))) =
     [''l2'', ''l3'', ''l4''] \<and>
   map_option (map link_id) (ls_links (storage (mem (snd (app_step (run (start ex_dash)
     [DragStart (Some (LinkElem ''l1'')), Drop (OnLink ''l2'' ''c2''), DragEnd]) (Drop (OnLink ''l1'' ''c2''))))))) =
     Some [''l1'', ''l2'', ''l3'', ''l4'']"
proof -
  let ?a = "run (start ex_dash) [DragStart (Some (LinkElem ''l1'')), Drop (OnLink ''l2'' ''c2''), DragEnd]"
  have m: "links (mem ?a) = [ex_link ''l1'' ''c2'', ex_link ''l2'' ''c2'', ex_link ''l3'' ''c3'', ex_link ''l4'' ''c1'']"
    and st: "ls_links (storage (mem ?a)) = Some (links (mem ?a))"
    by (simp_all add: ex_run_simps saveData_def)
  have d: "draggedItem (dvars ?a) = Some (Detached (LinkElem (link_id (ex_link ''l1'' ''c2''))))"
    "dragType (dvars ?a) = Some DragLink"
    by (simp_all add: ex_run_simps)
  have dist: "distinct (link_ids (mem ?a))" using m by (simp add: ex_defs)
  have L: "ex_link ''l1'' ''c2'' \<in> set (links (mem ?a))" using m by simp
  from stale_drop_on_own_link [OF d dist L, of "''c2''"] m st show ?thesis
    by (simp add: ex_defs)
qed

theorem add_guards_alert_witness:
  "panel_categories (mem (snd (app_step ex_start (SubmitPanel \<lparr>form_panel_name = ''New'', form_panel_id = []\<rparr> ''y'')))) = [] \<and>
   app_step (snd (app_step ex_start (SubmitPanel \<lparr>form_panel_name = ''New'', form_panel_id = []\<rparr> ''y'')))
     (SubmitLink \<lparr>form_url = ''a.org'', form_name = ''A'', form_description = [], form_category = [], form_link_id = []\<rparr> ''z'') =
   (Alerted (Alert ''Please create a category first!''),
    snd (app_step ex_start (SubmitPanel \<lparr>form_panel_name = ''New'', form_panel_id = []\<rparr> ''y'')))"
proof -
  let ?a = "snd (app_step ex_start (SubmitPanel \<lparr>form_panel_name = ''New'', form_panel_id = []\<rparr> ''y''))"
  let ?f = "\<lparr>form_url = ''a.org'', form_name = ''A'', form_description = [], form_category = [], form_link_id = []\<rparr>"
  have e: "panel_categories (mem ?a) = []"
    by (simp add: ex_start_mem detach_def handlePanelSubmit_def Let_def panel_categories_def)
  from e add_guards_alert [of ?f ?a "''z''"] show ?thesis by simp
qed

theorem theme_reload_witness:
  "reachable (snd (app_step ex_start ThemeClick)) \<and>
   ls_theme (storage (mem (snd (app_step ex_start ThemeClick)))) = Some ''dark'' \<and>
   currentTheme (boot False ex_gen (storage (mem (snd (app_step ex_start ThemeClick))))) = ''dark''"
proof -
  let ?a = "snd (app_step ex_start ThemeClick)"
  have r: "reachable ?a"
    by (rule reachable.step [OF reachable_ok_reachable [OF reachable_ok_ex_start]]) (simp_all add: corrupts_def)
  have t: "ls_theme (storage (mem ?a)) = Some ''dark''" "''dark'' \<noteq> []"
    by (simp_all add: ex_start_mem toggleTheme_def Let_def empty_store_def)
  have c: "currentTheme (mem ?a) = ''dark''" by (simp add: ex_start_mem toggleTheme_def Let_def)
  from theme_reload [OF r t, of False ex_gen] r t c show ?thesis by simp
qed

theorem stale_drag_cleared_witness:
  "dvars (run ex_start [HandleDown (Some (CatElem ''xxx'')), DragStart (Some (CatElem ''xxx'')), DragEnd]) = no_drag \<and>
   mem (run ex_start [HandleDown (Some (CatElem ''xxx'')), DragStart (Some (CatElem ''xxx'')), DragEnd]) = mem ex_start"
proof -
  let ?c = "\<lparr>cat_id = ''xxx'', cat_name = ''Projects'', panelId = Str ''x''\<rparr>"
  have c: "?c \<in> set (panel_categories (mem ex_start))" by (simp add: ex_start_mem panel_categories_def)
  from stale_drag_cleared [OF reachable_ok_reachable [OF reachable_ok_ex_start] c] show ?thesis by simp
qed

theorem drop_corrupts_links_witness:
  "reachable_ok ex_stale_empty \<and> corrupts ex_stale_empty (Drop Outside) \<and>
   reachable_page (snd (page_step (Intact ex_stale_empty) (Drop Outside))) \<and>
   fst (app_step ex_stale_empty (Drop Outside)) = Completed \<and>
   txt_links (page_text (snd (page_step (Intact ex_stale_empty) (Drop Outside)))) = Some ''[null]''"
proof -
  note s = ex_stale_empty_sel
  have nc: "\<not> renders_card (mem ex_stale_empty)" using s by (simp add: renders_card_def)
  have d: "draggedItem (dvars ex_stale_empty) = Some (Detached (LinkElem ''l''))"
    "dragType (dvars ex_stale_empty) = Some DragLink" "links (mem ex_stale_empty) = []"
    "closest_category Outside = None"
    using s by simp_all
  have p: "reachable_page (snd (page_step (Intact ex_stale_empty) (Drop Outside)))"
    using reachable_page.step [OF reachable_page_intact [OF reachable_ok_reachable [OF reachable_ok_ex_stale_empty]]]
    by simp
  from drop_corrupts_links [OF d] nc reachable_ok_ex_stale_empty p
  show ?thesis by (simp del: app_step.simps page_step.simps)
qed

theorem reload_after_corruption_dead_witness:
  "startup False ex_gen (storage (mem (snd (app_step ex_stale_empty (Drop Outside))))) True = None \<and>
   startup True ex_gen (storage (boot False ex_gen (storage (mem (snd (app_step ex_stale_empty (Drop Outside))))))) True = None"
proof -
  note s = ex_stale_empty_sel
  have r: "drop (dvars ex_stale_empty) Outside (mem ex_stale_empty) = Inl (UndefinedLink, saveData (mem ex_stale_empty))"
    using s by (simp add: drop_def dropLink_def dropLinkTarget_def Let_def js_splice_remove_def)
  then have m: "mem (snd (app_step ex_stale_empty (Drop Outside))) = saveData (mem ex_stale_empty)"
    by (simp add: detach_def)
  have st: "load_list (ls_panels (storage (mem (snd (app_step ex_stale_empty (Drop Outside)))))) = []"
    "load_list (ls_categories (storage (mem (snd (app_step ex_stale_empty (Drop Outside)))))) = []"
    using s unfolding m by (simp_all add: saveData_def)
  from reload_after_corruption_dead [OF st, of False ex_gen True ex_gen] show ?thesis
    by (simp del: app_step.simps)
qed

end
